(* ===== verification/PB_Prelude.thy ===== *)
theory PB_Prelude
  imports Main "HOL-Library.Word" "HOL-Library.Monad_Syntax"
begin

text \<open>
  Shared vocabulary of the development: the widths of the C++ integer types, byte strings,
  the two readings of partiality, and the list and word facts that several components use.

  A C++ function that may read out of range or fail to return is modelled with a result of
  type \<open>'a option\<close>, where \<^const>\<open>None\<close> stands for undefined behaviour or divergence
  and never for an ordinary failure. Ordinary failures are the \<open>bool\<close> the code returns;
  exceptions are the left side of a sum. Out-parameters are passed in and returned.
\<close>

unbundle bit_operations_syntax

type_synonym u8 = "8 word"
type_synonym u16 = "16 word"
type_synonym u32 = "32 word"
type_synonym u64 = "64 word"
type_synonym bytes = "u8 list"

named_theorems codec_simps "computation rules of the wire codecs"
named_theorems fs_simps "computation rules of the file operations"

text \<open>
  A \<open>std::string\<close> is a sequence of \<open>char\<close>; copying it into a byte vector and back reads
  each \<open>char\<close> as the unsigned byte with the same bits.
\<close>

definition byte_of_char :: "char \<Rightarrow> u8" where
  "byte_of_char c = of_char c"

definition char_of_byte :: "u8 \<Rightarrow> char" where
  "char_of_byte b = char_of (unat b)"

abbreviation bytes_of_string :: "string \<Rightarrow> bytes" where
  "bytes_of_string s \<equiv> map byte_of_char s"

abbreviation string_of_bytes :: "bytes \<Rightarrow> string" where
  "string_of_bytes bs \<equiv> map char_of_byte bs"

subsection \<open>Words\<close>

lemma unat_bound: "unat (x :: 'a::len word) < 2 ^ LENGTH('a)"
  by (rule unsigned_less)

lemma word_of_nat_unat_id: "of_nat (unat x) = (x :: 'a::len word)"
  by simp

subsection \<open>Characters and bytes\<close>

lemma unat_byte_of_char: "unat (byte_of_char c) = of_char c"
proof -
  have "unat (of_nat (of_char c) :: u8) = of_char c mod 256"
    by (simp add: unat_of_nat)
  then show ?thesis
    by (simp add: byte_of_char_def of_nat_of_char)
qed

lemma char_of_byte_of_char [simp]: "char_of_byte (byte_of_char c) = c"
  by (simp add: char_of_byte_def unat_byte_of_char)

lemma byte_of_char_of_byte [simp]: "byte_of_char (char_of_byte b) = b"
proof -
  have "unat (byte_of_char (char_of_byte b)) = unat b mod 256"
    by (simp add: unat_byte_of_char char_of_byte_def)
  also have "\<dots> = unat b"
    using unat_bound [of b] by simp
  finally show ?thesis by (simp add: word_unat_eq_iff)
qed

lemma char_byte_comp [simp]:
  "char_of_byte \<circ> byte_of_char = id" "byte_of_char \<circ> char_of_byte = id"
  by (simp_all add: fun_eq_iff)

lemma string_bytes_inverse [simp]:
  "string_of_bytes (bytes_of_string s) = s"
  "bytes_of_string (string_of_bytes bs) = bs"
  by (simp_all add: map_idI)

lemma bytes_of_string_inject [simp]:
  "bytes_of_string s = bytes_of_string t \<longleftrightarrow> s = t"
  by (metis string_bytes_inverse(1))

end
