(* ===== verification/Text.thy ===== *)
theory Text
  imports PB_Prelude
begin

text \<open>
  The parts of the C++ standard library that the program uses on text: printing unsigned
  integers (\<open>std::to_string\<close>, \<open>operator<<\<close>, \<open>std::hex\<close>, \<open>std::setw\<close> with \<open>std::setfill\<close>),
  \<open>std::getline\<close> with a delimiter, and \<open>std::stoull\<close> in base ten.
\<close>

definition digit_char :: "int \<Rightarrow> char" where
  "digit_char d = (if d < 10 then char_of (48 + d) else char_of (87 + d))"

function show_base :: "int \<Rightarrow> int \<Rightarrow> string" where
  "show_base b n =
     (if b < 2 \<or> n < b then [digit_char n]
      else show_base b (n div b) @ [digit_char (n mod b)])"
  by pat_completeness auto
termination
  by (relation "measure (\<lambda>(b, n). nat n)") (auto simp: int_div_less_self)

declare show_base.simps [simp del]

definition to_string :: "'a::len word \<Rightarrow> string" where
  "to_string w = show_base 10 (uint w)"

definition pad_left :: "nat \<Rightarrow> char \<Rightarrow> string \<Rightarrow> string" where
  "pad_left n c s = replicate (n - length s) c @ s"

text \<open>Left-justified output with \<open>std::setw\<close>, and a signed number.\<close>

definition pad_right :: "nat \<Rightarrow> string \<Rightarrow> string" where
  "pad_right n s = s @ replicate (n - length s) CHR '' ''"

definition show_int :: "int \<Rightarrow> string" where
  "show_int n = (if n < 0 then ''-'' @ show_base 10 (- n) else show_base 10 n)"

abbreviation newline :: char where
  "newline \<equiv> CHR 0x0A"

datatype cpp_exception = Invalid_argument | Out_of_range | Runtime_error string

text \<open>
  \<open>getline d s\<close> on the unread part \<open>s\<close> of a stream: the extracted text and what remains
  unread, or \<^const>\<open>None\<close> when nothing at all could be extracted, which ends a
  \<open>while (std::getline(...))\<close> loop. The delimiter is consumed and dropped, so a text that
  ends in the delimiter has no empty last line.
\<close>

definition getline :: "char \<Rightarrow> string \<Rightarrow> (string \<times> string) option" where
  "getline d s =
     (if s = [] then None
      else let l = takeWhile (\<lambda>c. c \<noteq> d) s in Some (l, drop (length l + 1) s))"

lemma getline_shorter: "getline d s = Some (l, rest) \<Longrightarrow> length rest < length s"
  by (auto simp: getline_def Let_def split: if_splits)

text \<open>
  \<open>std::stoull\<close>: skip white space, take an optional sign, convert the longest run of digits
  and ignore what follows. No digit at all and a value beyond 64 bits are exceptions; a minus
  sign negates modulo \<open>2 ^ 64\<close>.
\<close>

definition is_digit :: "char \<Rightarrow> bool" where
  "is_digit c = (let n = of_char c :: int in 48 \<le> n \<and> n \<le> 57)"

definition isspace :: "char \<Rightarrow> bool" where
  "isspace c = (let n = of_char c :: int in n = 32 \<or> 9 \<le> n \<and> n \<le> 13)"

definition dec_value :: "string \<Rightarrow> int" where
  "dec_value s = foldl (\<lambda>v c. v * 10 + (of_char c - 48)) 0 s"

definition stoull :: "string \<Rightarrow> cpp_exception + u64" where
  "stoull s =
     (let s = dropWhile isspace s;
          (neg, s) = (if s \<noteq> [] \<and> hd s = CHR ''-'' then (True, tl s)
                      else if s \<noteq> [] \<and> hd s = CHR ''+'' then (False, tl s)
                      else (False, s));
          ds = takeWhile is_digit s
      in if ds = [] then Inl Invalid_argument
         else if dec_value ds \<ge> 2 ^ 64 then Inl Out_of_range
         else Inr (of_int (if neg then - dec_value ds else dec_value ds)))"

subsection \<open>Printing\<close>

lemma show_base_small: "0 \<le> n \<Longrightarrow> n < b \<Longrightarrow> show_base b n = [digit_char n]"
  by (simp add: show_base.simps)

lemma show_base_step:
  "2 \<le> b \<Longrightarrow> b \<le> n \<Longrightarrow> show_base b n = show_base b (n div b) @ [digit_char (n mod b)]"
  by (subst show_base.simps) simp

lemma show_base_nonempty: "show_base b n \<noteq> []"
  by (subst show_base.simps) simp

lemma show_base_induct [consumes 2, case_names small step]:
  fixes b n :: int
  assumes "2 \<le> b" and "0 \<le> n"
    and "\<And>n. 0 \<le> n \<Longrightarrow> n < b \<Longrightarrow> P n"
    and "\<And>n. b \<le> n \<Longrightarrow> P (n div b) \<Longrightarrow> P n"
  shows "P n"
  using assms(2)
proof (induction "nat n" arbitrary: n rule: less_induct)
  case less
  show ?case
  proof (cases "n < b")
    case True
    then show ?thesis using less.prems assms(3) by simp
  next
    case False
    then have "n div b < n" and "0 \<le> n div b"
      using assms(1) by (simp_all add: int_div_less_self pos_imp_zdiv_nonneg_iff)
    then have "P (n div b)"
      by (intro less.hyps) simp_all
    with False show ?thesis
      using assms(4) [of n] by simp
  qed
qed

lemma set_show_base:
  assumes "2 \<le> b" and "0 \<le> n"
  shows "set (show_base b n) \<subseteq> digit_char ` {0..<b}"
  using assms
proof (induction n rule: show_base_induct)
  case (small n)
  then show ?case by (simp add: show_base_small)
next
  case (step n)
  then show ?case using assms(1) by (simp add: show_base_step)
qed

lemma int_div_less_mult: "0 < b \<Longrightarrow> n < b * c \<Longrightarrow> n div b < (c :: int)"
proof (rule ccontr)
  assume "0 < b" and "n < b * c" and "\<not> n div b < c"
  then have "b * c \<le> b * (n div b)"
    by (intro mult_left_mono) simp_all
  also have "\<dots> \<le> n"
    using \<open>0 < b\<close> pos_mod_sign [of b n] mult_div_mod_eq [of b n] by linarith
  finally show False
    using \<open>n < b * c\<close> by simp
qed

lemma length_show_base:
  assumes "2 \<le> b" and "0 \<le> n" and "n < b ^ Suc k"
  shows "length (show_base b n) \<le> Suc k"
  using assms
proof (induction n arbitrary: k rule: show_base_induct)
  case (small n)
  then show ?case by (simp add: show_base_small)
next
  case (step n)
  then obtain k' where k: "k = Suc k'"
    by (cases k) auto
  have "n div b < b ^ Suc k'"
    using step.prems assms(1) by (intro int_div_less_mult) (simp_all add: k)
  then show ?case
    using step assms(1) by (simp add: k show_base_step)
qed

subsection \<open>Reading what was printed\<close>

lemma of_char_digit: "0 \<le> d \<Longrightarrow> d < 10 \<Longrightarrow> (of_char (digit_char d) :: int) = 48 + d"
  by (simp add: digit_char_def)

lemma is_digit_char: "0 \<le> d \<Longrightarrow> d < 10 \<Longrightarrow> is_digit (digit_char d)"
  by (simp add: is_digit_def of_char_digit)

lemma dec_value_snoc: "dec_value (s @ [c]) = dec_value s * 10 + (of_char c - 48)"
  by (simp add: dec_value_def)

lemma dec_value_show:
  assumes "0 \<le> n"
  shows "dec_value (show_base 10 n) = n"
proof -
  have "(2 :: int) \<le> 10" by simp
  then show ?thesis
    using assms
  proof (induction n rule: show_base_induct)
    case (small n)
    then show ?case
      by (simp add: show_base_small dec_value_def of_char_digit)
  next
    case (step n)
    then show ?case
      by (simp add: show_base_step dec_value_snoc of_char_digit)
  qed
qed

lemma digits_show: "0 \<le> n \<Longrightarrow> c \<in> set (show_base 10 n) \<Longrightarrow> is_digit c"
  using set_show_base [of 10 n] by (auto simp: is_digit_char)

lemma digit_not_special:
  assumes "is_digit c"
  shows "\<not> isspace c" and "c \<noteq> CHR ''-''" and "c \<noteq> CHR ''+''" and "c \<noteq> CHR '',''"
    and "c \<noteq> CHR ''|''" and "c \<noteq> CHR 0x0A"
  using assms by (auto simp: is_digit_def isspace_def Let_def)

lemma digits_to_string: "c \<in> set (to_string w) \<Longrightarrow> is_digit c"
  unfolding to_string_def by (rule digits_show) simp_all

lemma to_string_nonempty: "to_string w \<noteq> []"
  by (simp add: to_string_def show_base_nonempty)

lemma stoull_digits:
  assumes "s \<noteq> []" and "\<forall>c \<in> set s. is_digit c"
  shows "stoull s =
    (if dec_value s \<ge> 2 ^ 64 then Inl Out_of_range else Inr (of_int (dec_value s)))"
proof -
  have "is_digit (hd s)"
    using assms by simp
  then have "dropWhile isspace s = s" and "hd s \<noteq> CHR ''-''" and "hd s \<noteq> CHR ''+''"
    using assms(1) digit_not_special by (cases s; auto)+
  moreover have tw: "takeWhile is_digit s = s"
    using assms(2) by (simp add: takeWhile_eq_all_conv)
  ultimately show ?thesis
    using assms(1) by (simp add: stoull_def Let_def tw del: takeWhile_eq_all_conv)
qed

lemma dec_value_to_string: "dec_value (to_string w) = uint w"
  by (simp add: to_string_def dec_value_show)

lemma stoull_to_string: "LENGTH('a) \<le> 64 \<Longrightarrow> stoull (to_string (w :: 'a::len word)) = Inr (ucast w)"
proof -
  assume "LENGTH('a) \<le> 64"
  then have "uint w < 2 ^ 64"
    by (rule order_less_le_trans [OF uint_lt2p power_increasing]) simp
  then show ?thesis
    by (simp add: stoull_digits [OF to_string_nonempty] digits_to_string dec_value_to_string
        unsigned_def flip: of_int_uint)
qed

subsection \<open>Splitting\<close>

lemma getline_Nil [simp]: "getline d [] = None"
  by (simp add: getline_def)

lemma takeWhile_no_delim: "d \<notin> set l \<Longrightarrow> takeWhile (\<lambda>c. c \<noteq> d) l = l"
  by (auto simp: takeWhile_eq_all_conv)

lemma takeWhile_to_delim: "d \<notin> set l \<Longrightarrow> takeWhile (\<lambda>c. c \<noteq> d) (l @ d # rest) = l"
  by (induction l) auto

lemma getline_delim: "d \<notin> set l \<Longrightarrow> getline d (l @ d # rest) = Some (l, rest)"
  by (simp add: getline_def Let_def takeWhile_to_delim)

lemma getline_last: "d \<notin> set l \<Longrightarrow> l \<noteq> [] \<Longrightarrow> getline d l = Some (l, [])"
  by (simp add: getline_def Let_def takeWhile_no_delim)

lemma getline_Some_iff:
  "getline d s = Some (p, r) \<longleftrightarrow> d \<notin> set p \<and> (s = p @ d # r \<or> s = p \<and> r = [] \<and> p \<noteq> [])"
proof (cases "d \<in> set s")
  case True
  then obtain a b where s: "s = a @ d # b" "d \<notin> set a"
    by (meson split_list_first)
  then have "getline d s = Some (a, b)"
    by (simp add: getline_delim)
  then show ?thesis
    using s by (auto simp: append_eq_append_conv2 append_eq_Cons_conv Cons_eq_append_conv)
next
  case False
  then show ?thesis
    by (cases "s = []") (auto simp: getline_last)
qed

lemma getline_None_iff: "getline d s = None \<longleftrightarrow> s = []"
  by (simp add: getline_def Let_def)

end
