(* ===== verification/Sockets.thy ===== *)
theory Sockets
  imports PB_Prelude Text
begin

text \<open>
  The socket layer of \<open>src/net\<close>: \<open>socket_utils.cpp\<close>, \<open>endpoint.cpp\<close>, \<open>tcp_socket.cpp\<close> and
  \<open>tcp_server.cpp\<close>, in their POSIX variant. The operating system is not part of the program:
  its calls are the fields of a record \<open>sock_api\<close>, functions on a world of an arbitrary type
  \<open>'w\<close>, and every operation that makes such a call takes the record as an argument. A socket
  object is its descriptor. The reports to the logger are left
  out here and added in theory \<open>Diagnostics\<close>. \<open>sys_clock\<close> is the reading of
  \<open>steady_clock\<close> in nanoseconds.

  POSIX ends a process that sends on a connection its peer has broken: \<open>send\<close> raises \<open>SIGPIPE\<close>
  unless the signal is ignored or the call has the flag \<open>MSG_NOSIGNAL\<close>, and this code does neither.
  The world records it: \<open>sys_killed w\<close> says that the process has been ended. It never holds on
  Windows, where the call only fails, nor when whoever starts the program has the signal ignored.
  A program that has been ended executes nothing more. Here \<open>send_loop\<close> then gives
  \<^const>\<open>False\<close> as it does for a failure; its callers hand that on without any other effect,
  their reports are left out (\<open>unless_killed\<close> in theory \<open>Diagnostics\<close>), and instead of an exit
  code there is the status of the signal (\<open>exit_status\<close>). The closing of the sockets that follows
  is then done by the kernel.

  The two transfer loops trust the count the system returns and might run forever on a system
  that returns nonsense; they are partial functions, with \<^const>\<open>None\<close> for not returning.
\<close>

type_synonym socket_t = int

datatype address_family = AF_UNSPEC | AF_INET | AF_INET6
datatype socket_kind = SOCK_STREAM | SOCK_DGRAM
datatype ip_protocol = IPPROTO_TCP | IPPROTO_UDP
datatype socket_option = SO_REUSEADDR | SO_BROADCAST | SO_RCVTIMEO int int
datatype sockaddr = Sockaddr_in u32 u16 | Sockaddr_in6 bytes u16 | Sockaddr_other

record addrinfo =
  ai_family :: address_family
  ai_socktype :: socket_kind
  ai_protocol :: ip_protocol
  ai_addr :: sockaddr

record Endpoint =
  ep_host :: string
  ep_port :: u16

record 'w sock_api =
  sys_socket :: "address_family \<Rightarrow> socket_kind \<Rightarrow> ip_protocol \<Rightarrow> 'w \<Rightarrow> socket_t \<times> 'w"
  sys_close :: "socket_t \<Rightarrow> 'w \<Rightarrow> 'w"
  sys_errno :: "'w \<Rightarrow> int"
  sys_setsockopt :: "socket_t \<Rightarrow> socket_option \<Rightarrow> 'w \<Rightarrow> int \<times> 'w"
  sys_getaddrinfo ::
    "string \<Rightarrow> string \<Rightarrow> address_family \<Rightarrow> socket_kind \<Rightarrow> ip_protocol \<Rightarrow> 'w \<Rightarrow>
     int \<times> addrinfo list \<times> 'w"
  sys_connect :: "socket_t \<Rightarrow> sockaddr \<Rightarrow> 'w \<Rightarrow> int \<times> 'w"
  sys_bind :: "socket_t \<Rightarrow> sockaddr \<Rightarrow> 'w \<Rightarrow> int \<times> 'w"
  sys_listen :: "socket_t \<Rightarrow> int \<Rightarrow> 'w \<Rightarrow> int \<times> 'w"
  sys_accept :: "socket_t \<Rightarrow> 'w \<Rightarrow> socket_t \<times> 'w"
  sys_send :: "socket_t \<Rightarrow> bytes \<Rightarrow> 'w \<Rightarrow> int \<times> 'w"
  sys_recv :: "socket_t \<Rightarrow> nat \<Rightarrow> 'w \<Rightarrow> int \<times> bytes \<times> 'w"
  sys_sendto :: "socket_t \<Rightarrow> bytes \<Rightarrow> sockaddr \<Rightarrow> 'w \<Rightarrow> int \<times> 'w"
  sys_recvfrom :: "socket_t \<Rightarrow> nat \<Rightarrow> 'w \<Rightarrow> int \<times> bytes \<times> sockaddr \<times> 'w"
  sys_inet_ntop :: "sockaddr \<Rightarrow> string"
  sys_clock :: "'w \<Rightarrow> int"
  sys_killed :: "'w \<Rightarrow> bool"

text \<open>
  How the process ends: with an exit code, or through the signal. A negative
  number stands for the signal; no exit code is negative.
\<close>

definition killed_by_sigpipe :: int where
  "killed_by_sigpipe = -13"

definition exit_status :: "'w sock_api \<Rightarrow> 'w \<Rightarrow> int \<Rightarrow> int" where
  "exit_status api w code = (if sys_killed api w then killed_by_sigpipe else code)"

lemma exit_status_nonzero [simp]: "exit_status api w 1 \<noteq> 0" "0 \<noteq> exit_status api w 1"
  by (simp_all add: exit_status_def killed_by_sigpipe_def)

definition kInvalidSocket :: socket_t where
  "kInvalidSocket = -1"

definition is_valid_socket :: "socket_t \<Rightarrow> bool" where
  "is_valid_socket s = (s \<noteq> kInvalidSocket)"

definition close_socket :: "'w sock_api \<Rightarrow> socket_t \<Rightarrow> 'w \<Rightarrow> 'w" where
  "close_socket api s w = (if \<not> is_valid_socket s then w else sys_close api s w)"

definition set_reuse_address :: "'w sock_api \<Rightarrow> socket_t \<Rightarrow> 'w \<Rightarrow> bool \<times> 'w" where
  "set_reuse_address api s w =
     (let (r, w) = sys_setsockopt api s SO_REUSEADDR w in (r = 0, w))"

definition endpoint_to_string :: "Endpoint \<Rightarrow> string" where
  "endpoint_to_string e = ep_host e @ '':'' @ to_string (ep_port e)"

text \<open>The operation \<open>close\<close> that the three socket classes define in the same words.\<close>

definition sock_close :: "'w sock_api \<Rightarrow> socket_t \<Rightarrow> 'w \<Rightarrow> socket_t \<times> 'w" where
  "sock_close api s w =
     (if is_valid_socket s then (kInvalidSocket, close_socket api s w) else (s, w))"

subsection \<open>TcpSocket\<close>

fun connect_candidates ::
    "'w sock_api \<Rightarrow> addrinfo list \<Rightarrow> 'w \<Rightarrow> socket_t option \<times> 'w" where
  "connect_candidates api [] w = (None, w)"
| "connect_candidates api (candidate # rest) w =
     (let (s, w) = sys_socket api (ai_family candidate) (ai_socktype candidate)
                     (ai_protocol candidate) w
      in if \<not> is_valid_socket s then connect_candidates api rest w
         else
           let (r, w) = sys_connect api s (ai_addr candidate) w
           in if r = 0 then (Some s, w)
              else connect_candidates api rest (close_socket api s w))"

definition connect_to ::
    "'w sock_api \<Rightarrow> socket_t \<Rightarrow> Endpoint \<Rightarrow> 'w \<Rightarrow> bool \<times> socket_t \<times> 'w" where
  "connect_to api s endpoint w =
     (let (s, w) = sock_close api s w;
          port = to_string (ep_port endpoint);
          (resolve_result, results, w) =
            sys_getaddrinfo api (ep_host endpoint) port AF_UNSPEC SOCK_STREAM IPPROTO_TCP w
      in if resolve_result \<noteq> 0 then (False, s, w)
         else
           case connect_candidates api results w of
             (Some candidate_socket, w) \<Rightarrow> (True, candidate_socket, w)
           | (None, w) \<Rightarrow> (False, s, w))"

definition int_max :: u64 where
  "int_max = 0x7fffffff"

partial_function (option) send_loop ::
    "'w sock_api \<Rightarrow> socket_t \<Rightarrow> bytes \<Rightarrow> u64 \<Rightarrow> 'w \<Rightarrow> (bool \<times> 'w) option" where
  "send_loop api s data total_sent w =
     (if total_sent < of_nat (length data) then
        let remaining = of_nat (length data) - total_sent;
            chunk_size = unat (min remaining int_max);
            (sent, w) = sys_send api s (take chunk_size (drop (unat total_sent) data)) w
        in if sys_killed api w then Some (False, w)
           else if sent = -1 then Some (False, w)
           else if sent = 0 then Some (False, w)
           else send_loop api s data (total_sent + of_int sent) w
      else Some (True, w))"

definition send_all ::
    "'w sock_api \<Rightarrow> socket_t \<Rightarrow> bytes \<Rightarrow> 'w \<Rightarrow> (bool \<times> 'w) option" where
  "send_all api s data w =
     (if \<not> is_valid_socket s then Some (False, w) else send_loop api s data 0 w)"

text \<open>
  \<open>recv_exact\<close> fills the caller's buffer from the front; \<open>received\<close> is what it has written
  so far and is returned in place of the buffer.
\<close>

partial_function (option) recv_loop ::
    "'w sock_api \<Rightarrow> socket_t \<Rightarrow> nat \<Rightarrow> u64 \<Rightarrow> bytes \<Rightarrow> 'w \<Rightarrow> (bool \<times> bytes \<times> 'w) option" where
  "recv_loop api s len total_received received w =
     (if total_received < of_nat len then
        let remaining = of_nat len - total_received;
            chunk_size = unat (min remaining int_max);
            (n, d, w) = sys_recv api s chunk_size w
        in if n = -1 then Some (False, received, w)
           else if n = 0 then Some (False, received, w)
           else recv_loop api s len (total_received + of_int n) (received @ d) w
      else Some (True, received, w))"

definition recv_exact ::
    "'w sock_api \<Rightarrow> socket_t \<Rightarrow> nat \<Rightarrow> 'w \<Rightarrow> (bool \<times> bytes \<times> 'w) option" where
  "recv_exact api s len w =
     (if \<not> is_valid_socket s then Some (False, [], w) else recv_loop api s len 0 [] w)"

subsection \<open>TcpServer\<close>

definition bind_and_listen ::
    "'w sock_api \<Rightarrow> socket_t \<Rightarrow> u16 \<Rightarrow> int \<Rightarrow> 'w \<Rightarrow> bool \<times> socket_t \<times> 'w" where
  "bind_and_listen api s port backlog w =
     (let (s, w) = sock_close api s w;
          (s, w) = sys_socket api AF_INET SOCK_STREAM IPPROTO_TCP w
      in if \<not> is_valid_socket s then (False, s, w)
         else
           let (ok, w) = set_reuse_address api s w
           in if \<not> ok then let (s, w) = sock_close api s w in (False, s, w)
              else
                let (r, w) = sys_bind api s (Sockaddr_in 0 port) w
                in if r \<noteq> 0 then let (s, w) = sock_close api s w in (False, s, w)
                   else
                     let (r, w) = sys_listen api s backlog w
                     in if r \<noteq> 0 then let (s, w) = sock_close api s w in (False, s, w)
                        else (True, s, w))"

definition accept_client :: "'w sock_api \<Rightarrow> socket_t \<Rightarrow> 'w \<Rightarrow> socket_t \<times> 'w" where
  "accept_client api s w =
     (if \<not> is_valid_socket s then (kInvalidSocket, w)
      else
        let (client, w) = sys_accept api s w
        in if \<not> is_valid_socket client then (kInvalidSocket, w) else (client, w))"

subsection \<open>What the code relies on\<close>

text \<open>
  \<open>inb w\<close> are the bytes the peer has sent or will send on the connection and that have not
  been received yet, \<open>outb w\<close> the bytes accepted for sending so far. A system call on the
  connection reports failure and moves nothing, or moves at most what was asked for, in
  order; this is what POSIX says of \<open>send\<close> and \<open>recv\<close> on a connected stream socket. The signal
  comes with the failure \<open>EPIPE\<close> of \<open>send\<close>, never with one that has moved something.
\<close>

definition stream_safe ::
    "'w sock_api \<Rightarrow> socket_t \<Rightarrow> ('w \<Rightarrow> bytes) \<Rightarrow> ('w \<Rightarrow> bytes) \<Rightarrow> bool" where
  "stream_safe api s inb outb \<longleftrightarrow>
     (\<forall>bs w n w'. bs \<noteq> [] \<longrightarrow> sys_send api s bs w = (n, w') \<longrightarrow>
        inb w' = inb w \<and> (sys_killed api w' \<longrightarrow> n = -1) \<and>
        (n = -1 \<and> outb w' = outb w \<or>
         0 \<le> n \<and> n \<le> int (length bs) \<and> outb w' = outb w @ take (nat n) bs)) \<and>
     (\<forall>k w n d w'. 0 < k \<longrightarrow> sys_recv api s k w = (n, d, w') \<longrightarrow>
        outb w' = outb w \<and>
        (n = -1 \<and> inb w' = inb w \<or>
         0 \<le> n \<and> n \<le> int k \<and> n = int (length d) \<and> inb w = d @ inb w'))"

text \<open>
  A connection that does not fail: sending always makes progress, and receiving makes
  progress as long as the peer has more to say.
\<close>

definition stream_live :: "'w sock_api \<Rightarrow> socket_t \<Rightarrow> ('w \<Rightarrow> bytes) \<Rightarrow> bool" where
  "stream_live api s inb \<longleftrightarrow>
     (\<forall>bs w. bs \<noteq> [] \<longrightarrow> 0 < fst (sys_send api s bs w) \<and> \<not> sys_killed api (snd (sys_send api s bs w))) \<and>
     (\<forall>k w. 0 < k \<longrightarrow> inb w \<noteq> [] \<longrightarrow> 0 < fst (sys_recv api s k w))"

subsection \<open>The transfer loops\<close>

lemma of_nat_u64_less: "a < 2 ^ 63 \<Longrightarrow> b < 2 ^ 63 \<Longrightarrow> (of_nat a :: u64) < of_nat b \<longleftrightarrow> a < b"
  by (simp add: word_less_nat_alt unat_of_nat)

lemma unat_of_nat_u64: "a < 2 ^ 63 \<Longrightarrow> unat (of_nat a :: u64) = a"
  by (simp add: unat_of_nat)

lemma chunk_size_eq:
  assumes "t < n" and "n < 2 ^ 63"
  shows "unat (min (of_nat n - of_nat t :: u64) int_max) = min (n - t) 0x7fffffff"
proof -
  have "(of_nat n - of_nat t :: u64) = of_nat (n - t)"
    using assms by simp
  moreover have "unat (of_nat (n - t) :: u64) = n - t"
    using assms by (intro unat_of_nat_u64) simp
  ultimately show ?thesis
    by (auto simp: min_def word_le_nat_alt int_max_def)
qed

lemma of_nat_plus_of_int: "0 \<le> k \<Longrightarrow> (of_nat t + of_int k :: u64) = of_nat (t + nat k)"
  by simp

definition chunk_limit :: nat where
  "chunk_limit = 0x7fffffff"

lemma chunk_limit_pos: "0 < chunk_limit"
  by (simp add: chunk_limit_def)

lemma send_loop_step:
  assumes "t < length data" and "length data < 2 ^ 63"
    and "sys_send api s (take (min (length data - t) chunk_limit) (drop t data)) w = (n, w1)"
  shows "send_loop api s data (of_nat t) w =
    (if sys_killed api w1 \<or> n = -1 \<or> n = 0 then Some (False, w1)
     else send_loop api s data (of_nat t + of_int n) w1)"
proof -
  have "unat (min (of_nat (length data) - of_nat t :: u64) int_max) =
      min (length data - t) chunk_limit" and "unat (of_nat t :: u64) = t"
    and "(of_nat t :: u64) < of_nat (length data)"
    using assms chunk_size_eq [of t "length data"]
    by (simp_all add: of_nat_u64_less unat_of_nat_u64 chunk_limit_def)
  then show ?thesis
    by (subst send_loop.simps) (simp only: if_True Let_def assms(3) case_prod_conv, simp)
qed

lemma recv_loop_step:
  assumes "t < n" and "n < 2 ^ 63" and "sys_recv api s (min (n - t) chunk_limit) w = (r, d, w1)"
  shows "recv_loop api s n (of_nat t) acc w =
    (if r = -1 \<or> r = 0 then Some (False, acc, w1)
     else recv_loop api s n (of_nat t + of_int r) (acc @ d) w1)"
proof -
  have "unat (min (of_nat n - of_nat t :: u64) int_max) = min (n - t) chunk_limit"
    and "(of_nat t :: u64) < of_nat n"
    using assms chunk_size_eq [of t n] by (simp_all add: of_nat_u64_less chunk_limit_def)
  then show ?thesis
    by (subst recv_loop.simps) (simp only: if_True Let_def assms(3) case_prod_conv, simp)
qed

lemma stream_live_send:
  "stream_live api s inb \<Longrightarrow> bs \<noteq> [] \<Longrightarrow> sys_send api s bs w = (n, w') \<Longrightarrow>
     0 < n \<and> \<not> sys_killed api w'"
  by (metis fst_conv snd_conv stream_live_def)

lemma stream_live_recv:
  "stream_live api s inb \<Longrightarrow> 0 < k \<Longrightarrow> inb w \<noteq> [] \<Longrightarrow> sys_recv api s k w = (n, d, w') \<Longrightarrow> 0 < n"
  by (metis fst_conv stream_live_def)

lemma stream_safe_send:
  "stream_safe api s inb outb \<Longrightarrow> bs \<noteq> [] \<Longrightarrow> sys_send api s bs w = (n, w') \<Longrightarrow>
     inb w' = inb w \<and> (sys_killed api w' \<longrightarrow> n = -1) \<and>
     (n = -1 \<and> outb w' = outb w \<or>
      0 \<le> n \<and> n \<le> int (length bs) \<and> outb w' = outb w @ take (nat n) bs)"
  unfolding stream_safe_def by blast

lemma stream_safe_recv:
  "stream_safe api s inb outb \<Longrightarrow> 0 < k \<Longrightarrow> sys_recv api s k w = (n, d, w') \<Longrightarrow>
     outb w' = outb w \<and>
     (n = -1 \<and> inb w' = inb w \<or>
      0 \<le> n \<and> n \<le> int k \<and> n = int (length d) \<and> inb w = d @ inb w')"
  unfolding stream_safe_def by blast

lemma send_loop_safe:
  assumes safe: "stream_safe api s inb outb" and len: "length data < 2 ^ 63"
  shows "t \<le> length data \<Longrightarrow>
    \<exists>ok k w'. send_loop api s data (of_nat t) w = Some (ok, w') \<and> t + k \<le> length data \<and>
      inb w' = inb w \<and> outb w' = outb w @ take k (drop t data) \<and>
      ok = (t + k = length data) \<and> (stream_live api s inb \<longrightarrow> ok)"
proof (induction "length data - t" arbitrary: t w rule: less_induct)
  case less
  show ?case
  proof (cases "t < length data")
    case False
    with less.prems have "send_loop api s data (of_nat t) w = Some (True, w)"
      by (subst send_loop.simps) simp
    then show ?thesis
      using False less.prems by (intro exI [of _ True] exI [of _ 0] exI [of _ w]) simp
  next
    case True
    define c where "c = min (length data - t) chunk_limit"
    define bs where "bs = take c (drop t data)"
    obtain n w1 where send: "sys_send api s bs w = (n, w1)"
      by (cases "sys_send api s bs w")
    have bs: "bs \<noteq> []" "length bs = c" and c: "c \<le> length data - t"
      using True chunk_limit_pos by (auto simp: bs_def c_def)
    have step: "send_loop api s data (of_nat t) w =
        (if sys_killed api w1 \<or> n = -1 \<or> n = 0 then Some (False, w1)
         else send_loop api s data (of_nat t + of_int n) w1)"
      using send True len unfolding bs_def c_def by (intro send_loop_step)
    have w1: "inb w1 = inb w" "n = -1 \<and> outb w1 = outb w \<or>
        0 \<le> n \<and> n \<le> int (length bs) \<and> outb w1 = outb w @ take (nat n) bs"
      and dead: "sys_killed api w1 \<longrightarrow> n = -1"
      using stream_safe_send [OF safe bs(1) send] by simp_all
    show ?thesis
    proof (cases "sys_killed api w1 \<or> n = -1 \<or> n = 0")
      case stop: True
      then have "\<not> stream_live api s inb"
        using stream_live_send [OF _ bs(1) send] by auto
      then show ?thesis
        using step stop w1 dead True by (intro exI [of _ False] exI [of _ 0] exI [of _ w1]) auto
    next
      case False
      then have n: "0 < n" "nat n \<le> c" "outb w1 = outb w @ take (nat n) bs"
        using w1(2) bs(2) by auto
      have tk: "take (nat n) bs = take (nat n) (drop t data)"
        using n(2) by (simp add: bs_def min.absorb1)
      have less: "length data - (t + nat n) < length data - t" "t + nat n \<le> length data"
        using n(1,2) c True by linarith+
      obtain ok k w' where IH: "send_loop api s data (of_nat (t + nat n)) w1 = Some (ok, w')"
        "t + nat n + k \<le> length data" "inb w' = inb w1"
        "outb w' = outb w1 @ take k (drop (t + nat n) data)" "ok = (t + nat n + k = length data)"
        "stream_live api s inb \<longrightarrow> ok"
        using less.hyps [OF less(1,2), of w1] by blast
      have loop: "send_loop api s data (of_nat t) w = Some (ok, w')"
        unfolding step if_not_P [OF False] IH(1) [symmetric]
        using n(1) by (intro arg_cong [of _ _ "\<lambda>x. send_loop api s data x w1"] of_nat_plus_of_int) simp
      have "take (nat n + k) (drop t data) =
          take (nat n) (drop t data) @ take k (drop (t + nat n) data)"
        by (simp add: take_add drop_drop add.commute [of "nat n" t])
      then have "inb w' = inb w" "outb w' = outb w @ take (nat n + k) (drop t data)"
        using IH(3,4) n(3) tk w1(1) by simp_all
      with loop IH(2,5,6) show ?thesis
        unfolding add.assoc by blast
    qed
  qed
qed

text \<open>When the loop succeeds and has sent anything, the process is alive.\<close>

lemma send_loop_alive:
  assumes "send_loop api s data t w = Some (ok, w')" and ok
  shows "w' = w \<or> \<not> sys_killed api w'"
proof -
  have "fst (ok, w') \<longrightarrow> snd (ok, w') = w \<or> \<not> sys_killed api (snd (ok, w'))"
    using assms(1)
  proof (rule send_loop.raw_induct [rotated])
    fix f api s data and t :: u64 and w :: 'a and r
    assume IH: "\<And>api s data t w r. f api s data t w = Some r \<Longrightarrow>
        fst r \<longrightarrow> snd r = w \<or> \<not> sys_killed api (snd r)"
      and run: "(if t < of_nat (length data)
         then let remaining = of_nat (length data) - t; chunk_size = unat (min remaining int_max);
                  (sent, w) = sys_send api s (take chunk_size (drop (unat t) data)) w
              in if sys_killed api w then Some (False, w)
                 else if sent = -1 then Some (False, w) else if sent = 0 then Some (False, w)
                 else f api s data (t + of_int sent) w
         else Some (True, w)) = Some r"
    obtain n w1 where send: "sys_send api s
        (take (unat (min (of_nat (length data) - t) int_max)) (drop (unat t) data)) w = (n, w1)"
      by (metis surj_pair)
    show "fst r \<longrightarrow> snd r = w \<or> \<not> sys_killed api (snd r)"
      using run send IH [of api s data "t + of_int n" w1 r] by (auto split: if_splits)
  qed
  then show ?thesis using assms(2) by simp
qed

lemma send_all_alive:
  "send_all api s data w = Some (True, w') \<Longrightarrow> w' = w \<or> \<not> sys_killed api w'"
  by (auto simp: send_all_def split: if_splits dest: send_loop_alive)

lemma recv_loop_safe:
  assumes safe: "stream_safe api s inb outb" and len: "n < 2 ^ 63"
  shows "t \<le> n \<Longrightarrow>
    \<exists>ok d w'. recv_loop api s n (of_nat t) acc w = Some (ok, acc @ d, w') \<and> t + length d \<le> n \<and>
      outb w' = outb w \<and> inb w = d @ inb w' \<and>
      ok = (t + length d = n) \<and> (stream_live api s inb \<and> n - t \<le> length (inb w) \<longrightarrow> ok)"
proof (induction "n - t" arbitrary: t acc w rule: less_induct)
  case less
  show ?case
  proof (cases "t < n")
    case False
    with less.prems have "recv_loop api s n (of_nat t) acc w = Some (True, acc, w)"
      by (subst recv_loop.simps) simp
    then show ?thesis
      using False less.prems by (intro exI [of _ True] exI [of _ "[]"] exI [of _ w]) simp
  next
    case True
    define c where "c = min (n - t) chunk_limit"
    obtain r d1 w1 where recv: "sys_recv api s c w = (r, d1, w1)"
      by (cases "sys_recv api s c w")
    have c: "0 < c" "c \<le> n - t"
      using True chunk_limit_pos by (auto simp: c_def)
    have step: "recv_loop api s n (of_nat t) acc w =
        (if r = -1 \<or> r = 0 then Some (False, acc, w1)
         else recv_loop api s n (of_nat t + of_int r) (acc @ d1) w1)"
      using recv True len unfolding c_def by (intro recv_loop_step)
    have w1: "outb w1 = outb w" "r = -1 \<and> inb w1 = inb w \<or>
        0 \<le> r \<and> r \<le> int c \<and> r = int (length d1) \<and> inb w = d1 @ inb w1"
      using stream_safe_recv [OF safe c(1) recv] by simp_all
    show ?thesis
    proof (cases "r = -1 \<or> r = 0")
      case stop: True
      then have "\<not> (stream_live api s inb \<and> n - t \<le> length (inb w))"
        using stream_live_recv [OF _ c(1) _ recv, of inb] True by (cases "inb w = []") auto
      then show ?thesis
        using step stop w1 True by (intro exI [of _ False] exI [of _ "[]"] exI [of _ w1]) auto
    next
      case False
      then have r: "r = int (length d1)" "0 < length d1" "length d1 \<le> c" "inb w = d1 @ inb w1"
        using w1(2) by auto
      have less: "n - (t + length d1) < n - t" "t + length d1 \<le> n"
        using r(2,3) c True by linarith+
      obtain ok d w' where IH:
        "recv_loop api s n (of_nat (t + length d1)) (acc @ d1) w1 = Some (ok, (acc @ d1) @ d, w')"
        "t + length d1 + length d \<le> n" "outb w' = outb w1" "inb w1 = d @ inb w'"
        "ok = (t + length d1 + length d = n)"
        "stream_live api s inb \<and> n - (t + length d1) \<le> length (inb w1) \<longrightarrow> ok"
        using less.hyps [OF less(1,2), of "acc @ d1" w1] by blast
      moreover have "recv_loop api s n (of_nat t) acc w = Some (ok, acc @ (d1 @ d), w')"
        using step False r(1) IH(1) by simp
      ultimately show ?thesis
        using r(4) w1(1) by (intro exI [of _ ok] exI [of _ "d1 @ d"] exI [of _ w']) auto
    qed
  qed
qed

end
