(* ===== verification/Protocol.thy ===== *)
theory Protocol
  imports PB_Prelude
begin

text \<open>
  The constants of \<open>include/common/constants.hpp\<close>, the message structs of
  \<open>include/net/protocol.hpp\<close>, and the contract that the four message codecs share.
  Field names carry a prefix for their struct. A \<open>size_t\<close> constant that is only compared
  with the size of a container is a \<^typ>\<open>nat\<close>.
\<close>

definition kProtocolVersion :: u16 where
  "kProtocolVersion = 1"

definition kDefaultDiscoveryUdpPort :: u16 where
  "kDefaultDiscoveryUdpPort = 47110"

definition kDefaultTransferTcpPort :: u16 where
  "kDefaultTransferTcpPort = 47111"

definition kDefaultChunkSize :: u64 where
  "kDefaultChunkSize = 64 * 1024"

definition kMaxFilenameLength :: nat where
  "kMaxFilenameLength = 255"

definition kMaxPeerNameLength :: nat where
  "kMaxPeerNameLength = 64"

definition kSha256DigestSize :: nat where
  "kSha256DigestSize = 32"

text \<open>The test for a help flag that all four programs define in the same words.\<close>

definition is_help_arg :: "string \<Rightarrow> bool" where
  "is_help_arg arg \<longleftrightarrow> arg = ''-h'' \<or> arg = ''--help''"

record FileManifest =
  fm_filename :: string
  fm_file_size :: u64
  fm_chunk_size :: u32
  fm_chunk_count :: u64
  fm_file_sha256 :: bytes
  fm_protocol_version :: u16
  fm_session_id :: u64

record ChunkHeader =
  ch_session_id :: u64
  ch_chunk_index :: u64
  ch_byte_offset :: u64
  ch_payload_size :: u32

record ContinueRequest =
  cr_session_id :: u64
  cr_total_chunks :: u64
  cr_missing_chunk_indexes :: "u64 list"

record HashPacket =
  hp_session_id :: u64
  hp_sha256_hex :: string

text \<open>The values the default member initialisers give.\<close>

definition FileManifest_init :: FileManifest where
  "FileManifest_init =
     \<lparr>fm_filename = [], fm_file_size = 0, fm_chunk_size = ucast kDefaultChunkSize,
      fm_chunk_count = 0, fm_file_sha256 = replicate kSha256DigestSize 0,
      fm_protocol_version = kProtocolVersion, fm_session_id = 0\<rparr>"

definition ChunkHeader_init :: ChunkHeader where
  "ChunkHeader_init =
     \<lparr>ch_session_id = 0, ch_chunk_index = 0, ch_byte_offset = 0, ch_payload_size = 0\<rparr>"

definition ContinueRequest_init :: ContinueRequest where
  "ContinueRequest_init =
     \<lparr>cr_session_id = 0, cr_total_chunks = 0, cr_missing_chunk_indexes = []\<rparr>"

definition HashPacket_init :: HashPacket where
  "HashPacket_init = \<lparr>hp_session_id = 0, hp_sha256_hex = []\<rparr>"

text \<open>
  What a codec promises to the code that calls it. \<open>dec\<close> gets the bytes and the old value of
  the out-parameter and returns the success flag with the new value. \<open>wf\<close> says which messages
  the encoder can carry and \<open>canon\<close> what of a message arrives.
\<close>

locale message_codec =
  fixes enc :: "'m \<Rightarrow> bytes"
    and dec :: "bytes \<Rightarrow> 'm \<Rightarrow> (bool \<times> 'm) option"
    and wf :: "'m \<Rightarrow> bool"
    and canon :: "'m \<Rightarrow> 'm"
  assumes dec_total: "\<exists>ok m'. dec bs m = Some (ok, m')"
    and dec_enc: "wf m \<Longrightarrow> dec (enc m) m0 = Some (True, canon m)"
begin

lemma dec_not_None: "dec bs m \<noteq> None"
  using dec_total [of bs m] by auto

lemma enc_determines: "wf m \<Longrightarrow> wf m' \<Longrightarrow> enc m = enc m' \<Longrightarrow> canon m = canon m'"
  using dec_enc [of m] dec_enc [of m'] by simp

end

text \<open>
  A canonical codec accepts nothing but encodings: decoding succeeds exactly on the bytes the
  encoder produces, so two different byte strings never mean the same message.
\<close>

locale canonical_codec = message_codec where canon = "\<lambda>m. m" +
  assumes dec_sound: "dec bs m0 = Some (True, m) \<Longrightarrow> wf m \<and> enc m = bs"
begin

lemma dec_iff: "dec bs m0 = Some (True, m) \<longleftrightarrow> wf m \<and> bs = enc m"
  using dec_sound dec_enc by blast

lemma dec_ignores_old: "dec bs m0 = Some (True, m) \<Longrightarrow> dec bs m1 = Some (True, m)"
  by (simp add: dec_iff)

lemma enc_inj_on: "inj_on enc {m. wf m}"
  using enc_determines by (auto intro: inj_onI)

end

text \<open>
  A codec of fixed width needs no length field: the reader takes that many bytes off the
  stream, and what follows does not influence the result.
\<close>

locale fixed_codec = canonical_codec +
  fixes width :: nat
  assumes length_enc: "wf m \<Longrightarrow> length (enc m) = width"
begin

lemma dec_wrong_width: "length bs \<noteq> width \<Longrightarrow> \<exists>m'. dec bs m0 = Some (False, m')"
  using dec_total [of bs m0] dec_sound [of bs m0] length_enc by (metis (full_types))

lemma enc_prefix_free:
  "wf m \<Longrightarrow> wf m' \<Longrightarrow> enc m @ r = enc m' @ r' \<Longrightarrow> m = m' \<and> r = r'"
  using length_enc [of m] length_enc [of m'] enc_determines [of m m'] by auto

lemma dec_stream: "wf m \<Longrightarrow> dec (take width (enc m @ rest)) m0 = Some (True, m)"
  using length_enc [of m] dec_enc [of m m0] by simp

end

end
