(* ===== verification/Links.thy ===== *)
theory Links
  imports Sockets Protocol
begin

text \<open>
  The interface between the socket class and the code that exchanges messages: what
  \<open>send_all\<close> and \<open>recv_exact\<close> promise, stated as a locale over an abstract link and
  interpreted on the model of \<open>TcpSocket\<close>. The lemmas proved in the locale are the ones the
  message functions and the two applications use; none of them looks inside the loops again.
\<close>

record 'w link =
  lk_api :: "'w sock_api"
  lk_sock :: socket_t
  lk_in :: "'w \<Rightarrow> bytes"
  lk_out :: "'w \<Rightarrow> bytes"

definition link_send :: "'w link \<Rightarrow> bytes \<Rightarrow> 'w \<Rightarrow> (bool \<times> 'w) option" where
  "link_send l bs w = send_all (lk_api l) (lk_sock l) bs w"

definition link_recv :: "'w link \<Rightarrow> nat \<Rightarrow> 'w \<Rightarrow> (bool \<times> bytes \<times> 'w) option" where
  "link_recv l n w = recv_exact (lk_api l) (lk_sock l) n w"

definition link_safe :: "'w link \<Rightarrow> bool" where
  "link_safe l \<longleftrightarrow>
     is_valid_socket (lk_sock l) \<and> stream_safe (lk_api l) (lk_sock l) (lk_in l) (lk_out l)"

definition link_live :: "'w link \<Rightarrow> bool" where
  "link_live l \<longleftrightarrow> stream_live (lk_api l) (lk_sock l) (lk_in l)"

locale byte_link =
  fixes send :: "'c \<Rightarrow> bytes \<Rightarrow> 'w \<Rightarrow> (bool \<times> 'w) option"
    and recv :: "'c \<Rightarrow> nat \<Rightarrow> 'w \<Rightarrow> (bool \<times> bytes \<times> 'w) option"
    and inb :: "'c \<Rightarrow> 'w \<Rightarrow> bytes"
    and outb :: "'c \<Rightarrow> 'w \<Rightarrow> bytes"
    and safe :: "'c \<Rightarrow> bool"
    and live :: "'c \<Rightarrow> bool"
    and cap :: nat
  assumes send_law: "safe c \<Longrightarrow> length bs < cap \<Longrightarrow>
      \<exists>ok k w'. send c bs w = Some (ok, w') \<and> inb c w' = inb c w \<and>
        outb c w' = outb c w @ take k bs \<and> ok = (k = length bs) \<and> k \<le> length bs \<and>
        (live c \<longrightarrow> ok)"
    and recv_law: "safe c \<Longrightarrow> n < cap \<Longrightarrow>
      \<exists>ok d w'. recv c n w = Some (ok, d, w') \<and> outb c w' = outb c w \<and> inb c w = d @ inb c w' \<and>
        ok = (length d = n) \<and> length d \<le> n \<and> (live c \<and> n \<le> length (inb c w) \<longrightarrow> ok)"
begin

lemma send_returns: "safe c \<Longrightarrow> length bs < cap \<Longrightarrow> \<exists>ok w'. send c bs w = Some (ok, w')"
  using send_law [of c bs w] by blast

lemma recv_returns: "safe c \<Longrightarrow> n < cap \<Longrightarrow> \<exists>ok d w'. recv c n w = Some (ok, d, w')"
  using recv_law [of c n w] by blast

lemma send_live:
  "safe c \<Longrightarrow> live c \<Longrightarrow> length bs < cap \<Longrightarrow>
     \<exists>w'. send c bs w = Some (True, w') \<and> inb c w' = inb c w \<and> outb c w' = outb c w @ bs"
  using send_law [of c bs w] by auto

lemma send_True:
  "safe c \<Longrightarrow> length bs < cap \<Longrightarrow> send c bs w = Some (True, w') \<Longrightarrow>
     inb c w' = inb c w \<and> outb c w' = outb c w @ bs"
  using send_law [of c bs w] by auto

lemma send_prefix:
  "safe c \<Longrightarrow> length bs < cap \<Longrightarrow> send c bs w = Some (ok, w') \<Longrightarrow>
     inb c w' = inb c w \<and> (\<exists>k. outb c w' = outb c w @ take k bs)"
  using send_law [of c bs w] by auto

lemma recv_True:
  "safe c \<Longrightarrow> n < cap \<Longrightarrow> recv c n w = Some (True, d, w') \<Longrightarrow>
     length d = n \<and> inb c w = d @ inb c w' \<and> outb c w' = outb c w"
  using recv_law [of c n w] by auto

lemma recv_live:
  assumes "safe c" and "live c" and "length bs < cap" and "inb c w = bs @ rest"
  shows "\<exists>w'. recv c (length bs) w = Some (True, bs, w') \<and> inb c w' = rest \<and> outb c w' = outb c w"
proof -
  obtain ok d w' where *: "recv c (length bs) w = Some (ok, d, w')" "outb c w' = outb c w"
    "inb c w = d @ inb c w'" "ok = (length d = length bs)" "live c \<and> length bs \<le> length (inb c w) \<longrightarrow> ok"
    using recv_law [OF assms(1,3), of w] by blast
  have "length bs \<le> length (inb c w)"
    using assms(4) by simp
  with *(4,5) assms(2) have ok: "ok" "length d = length bs"
    by blast+
  moreover have "d = bs \<and> inb c w' = rest"
    using *(3) assms(4) ok(2) by simp
  ultimately show ?thesis
    using *(1,2) by simp
qed

lemma recv_short:
  "safe c \<Longrightarrow> n < cap \<Longrightarrow> length (inb c w) < n \<Longrightarrow>
     \<exists>d w'. recv c n w = Some (False, d, w') \<and> outb c w' = outb c w"
  by (drule (1) recv_law [of _ _ w], elim exE conjE)
    (drule arg_cong [of _ _ length], simp)

end

interpretation tcp: byte_link link_send link_recv lk_in lk_out link_safe link_live "2 ^ 63"
proof
  fix c :: "'a link" and bs :: bytes and w :: 'a
  assume "link_safe c" and len: "length bs < 2 ^ 63"
  then show "\<exists>ok k w'. link_send c bs w = Some (ok, w') \<and> lk_in c w' = lk_in c w \<and>
      lk_out c w' = lk_out c w @ take k bs \<and> ok = (k = length bs) \<and> k \<le> length bs \<and>
      (link_live c \<longrightarrow> ok)"
    using send_loop_safe [of "lk_api c" "lk_sock c" "lk_in c" "lk_out c" bs 0 w]
    by (auto simp: link_safe_def link_live_def link_send_def send_all_def)
next
  fix c :: "'a link" and n :: nat and w :: 'a
  assume "link_safe c" and "n < 2 ^ 63"
  then show "\<exists>ok d w'. link_recv c n w = Some (ok, d, w') \<and> lk_out c w' = lk_out c w \<and>
      lk_in c w = d @ lk_in c w' \<and> ok = (length d = n) \<and> length d \<le> n \<and>
      (link_live c \<and> n \<le> length (lk_in c w) \<longrightarrow> ok)"
    using recv_loop_safe [of "lk_api c" "lk_sock c" "lk_in c" "lk_out c" n 0 "[]" w]
    by (auto simp: link_safe_def link_live_def link_recv_def recv_exact_def)
qed

text \<open>
  A link together with a fixed-width codec: receiving a message means receiving its width
  and decoding. The message functions for chunk headers and hash packets have exactly the
  shape named \<open>receive\<close> here.
\<close>

definition receive_fixed ::
    "('w \<Rightarrow> (bool \<times> bytes \<times> 'w) option) \<Rightarrow> (bytes \<Rightarrow> 'm \<Rightarrow> (bool \<times> 'm) option) \<Rightarrow> 'm \<Rightarrow> 'w \<Rightarrow>
     (bool \<times> 'm \<times> 'w) option" where
  "receive_fixed recv dec m w =
     do {
       (ok, payload, w) \<leftarrow> recv w;
       if \<not> ok then Some (False, m, w)
       else do {
         (ok, m) \<leftarrow> dec payload m;
         Some (ok, m, w)
       }
     }"

locale framed_link =
  byte_link send recv inb outb safe live cap + fixed_codec enc dec wf width
  for send :: "'c \<Rightarrow> bytes \<Rightarrow> 'w \<Rightarrow> (bool \<times> 'w) option" and recv and inb and outb
    and safe and live and cap
    and enc :: "'m \<Rightarrow> bytes" and dec and wf and width +
  assumes width_cap: "width < cap"
begin

lemma receive_returns:
  assumes "safe c"
  shows "\<exists>ok m' w'. receive_fixed (recv c width) dec m0 w = Some (ok, m', w')"
proof -
  obtain ok d w1 where "recv c width w = Some (ok, d, w1)"
    using recv_returns [OF assms width_cap, of w] by blast
  moreover obtain ok' m' where "dec d m0 = Some (ok', m')"
    using dec_total [of d m0] by blast
  ultimately show ?thesis
    by (cases ok) (auto simp: receive_fixed_def)
qed

lemma receive_live:
  assumes "safe c" and "live c" and "wf m" and "inb c w = enc m @ rest"
  shows "\<exists>w'. receive_fixed (recv c width) dec m0 w = Some (True, m, w') \<and> inb c w' = rest \<and>
    outb c w' = outb c w"
  using recv_live [OF assms(1,2) _ assms(4)] length_enc [OF assms(3)] width_cap dec_enc [OF assms(3)]
  by (fastforce simp: receive_fixed_def)

lemma receive_True:
  assumes "safe c" and "receive_fixed (recv c width) dec m0 w = Some (True, m, w')"
  shows "wf m \<and> inb c w = enc m @ inb c w' \<and> outb c w' = outb c w"
proof -
  obtain d where d: "recv c width w = Some (True, d, w')" "dec d m0 = Some (True, m)"
    using assms(2) by (auto simp: receive_fixed_def bind_eq_Some_conv split: if_splits)
  then show ?thesis
    using recv_True [OF assms(1) width_cap d(1)] dec_sound [OF d(2)] by simp
qed

lemma receive_keeps_out:
  assumes "safe c" and "receive_fixed (recv c width) dec m0 w = Some (ok, m, w')"
  shows "outb c w' = outb c w"
  using assms recv_law [OF assms(1) width_cap, of w]
  by (auto simp: receive_fixed_def bind_eq_Some_conv split: if_splits)

end

end
