(* ===== verification/Wire.thy ===== *)
theory Wire
  imports PB_Prelude
begin

text \<open>
  Big-endian integers on the wire: the \<open>append_u16/u32/u64\<close> and \<open>read_u16/u32/u64\<close> helpers
  that the anonymous namespaces of all four codec files repeat. Reading takes and returns the
  offset the code passes by reference; a read beyond the end of the vector is undefined in the
  code and \<^const>\<open>None\<close> here.
\<close>

function append_be :: "'a::len word \<Rightarrow> int \<Rightarrow> bytes \<Rightarrow> bytes" where
  "append_be value shift out =
     (if shift \<ge> 0
      then append_be value (shift - 8) (out @ [ucast (drop_bit (nat shift) value AND 0xff)])
      else out)"
  by pat_completeness auto
termination
  by (relation "measure (\<lambda>(value, shift, out). nat (shift + 8))") auto

declare append_be.simps [simp del]

definition append_u16 :: "bytes \<Rightarrow> u16 \<Rightarrow> bytes" where
  "append_u16 out value =
     out @ [ucast (drop_bit 8 value AND 0xff)] @ [ucast (value AND 0xff)]"

definition append_u32 :: "bytes \<Rightarrow> u32 \<Rightarrow> bytes" where
  "append_u32 out value = append_be value 24 out"

definition append_u64 :: "bytes \<Rightarrow> u64 \<Rightarrow> bytes" where
  "append_u64 out value = append_be value 56 out"

fun read_be :: "nat \<Rightarrow> bytes \<Rightarrow> nat \<Rightarrow> 'a::len word \<Rightarrow> ('a word \<times> nat) option" where
  "read_be 0 input offset value = Some (value, offset)"
| "read_be (Suc n) input offset value =
     (if offset < length input
      then read_be n input (offset + 1) (push_bit 8 value OR ucast (input ! offset))
      else None)"

definition read_u16 :: "bytes \<Rightarrow> nat \<Rightarrow> (u16 \<times> nat) option" where
  "read_u16 input offset =
     (if offset + 1 < length input
      then Some (push_bit 8 (ucast (input ! offset)) OR ucast (input ! (offset + 1)), offset + 2)
      else None)"

definition read_u32 :: "bytes \<Rightarrow> nat \<Rightarrow> (u32 \<times> nat) option" where
  "read_u32 input offset = read_be 4 input offset 0"

definition read_u64 :: "bytes \<Rightarrow> nat \<Rightarrow> (u64 \<times> nat) option" where
  "read_u64 input offset = read_be 8 input offset 0"

text \<open>
  The reference reading: a word is the list of its base-256 digits, most significant first.
\<close>

definition be_bytes :: "nat \<Rightarrow> 'a::len word \<Rightarrow> bytes" where
  "be_bytes n v = map (\<lambda>i. ucast (drop_bit (8 * (n - Suc i)) v)) [0..<n]"

definition be_word :: "bytes \<Rightarrow> 'a::len word" where
  "be_word bs = foldl (\<lambda>v b. push_bit 8 v OR ucast b) 0 bs"

subsection \<open>The digits of a word\<close>

lemma length_be_bytes [simp]: "length (be_bytes n v) = n"
  by (simp add: be_bytes_def)

lemma be_word_Nil [simp]: "be_word [] = 0"
  by (simp add: be_word_def)

lemma be_word_snoc: "be_word (bs @ [b]) = push_bit 8 (be_word bs) OR ucast b"
  by (simp add: be_word_def)

lemma ucast_and_ff: "(ucast (x AND 0xff) :: u8) = ucast (x :: 'a::len word)"
proof -
  have "x AND 0xff = take_bit 8 x"
    by (simp add: take_bit_eq_mask mask_numeral)
  moreover have "(ucast (take_bit 8 x) :: u8) = ucast x"
    by (rule bit_word_eqI) (auto simp: bit_simps dest: bit_imp_le_length)
  ultimately show ?thesis by simp
qed

lemma bit_ucast_byte_high: "8 \<le> i \<Longrightarrow> \<not> bit (ucast (b :: u8) :: 'a::len word) i"
  using bit_imp_le_length [of b i] by (auto simp: bit_simps)

lemma bit_be_word:
  "bit (be_word bs :: 'a::len word) i \<longleftrightarrow>
     i < LENGTH('a) \<and> i div 8 < length bs \<and> bit (bs ! (length bs - Suc (i div 8))) (i mod 8)"
proof (induction bs arbitrary: i rule: rev_induct)
  case Nil
  then show ?case by simp
next
  case (snoc b bs)
  show ?case
  proof (cases "i < 8")
    case True
    then show ?thesis
      by (simp add: be_word_snoc bit_or_iff bit_push_bit_iff bit_unsigned_iff)
  next
    case False
    then obtain j where i: "i = 8 + j"
      using le_Suc_ex by (metis not_less)
    have "bit (be_word (bs @ [b]) :: 'a word) i \<longleftrightarrow>
        i < LENGTH('a) \<and> bit (be_word bs :: 'a word) j"
      using i by (simp add: be_word_snoc bit_or_iff bit_push_bit_iff bit_ucast_byte_high)
    also have "\<dots> \<longleftrightarrow> i < LENGTH('a) \<and> j div 8 < length bs
        \<and> bit (bs ! (length bs - Suc (j div 8))) (j mod 8)"
      using i by (auto simp: snoc.IH)
    finally show ?thesis
      using i div_add_self1 [of 8 j] by (auto simp: nth_append)
  qed
qed

lemma be_word_be_bytes:
  assumes "LENGTH('a) \<le> 8 * n"
  shows "be_word (be_bytes n (v :: 'a::len word)) = v"
proof (rule bit_word_eqI)
  fix i
  assume "i < LENGTH('a)"
  moreover from this assms have lt: "i div 8 < n" by auto
  moreover have "n - Suc (n - Suc (i div 8)) = i div 8"
    using lt by simp
  moreover have "be_bytes n v ! (n - Suc (i div 8)) = ucast (drop_bit (8 * (i div 8)) v)"
    using lt by (simp add: be_bytes_def)
  ultimately show "bit (be_word (be_bytes n v) :: 'a word) i = bit v i"
    by (simp add: bit_be_word bit_simps)
qed

lemma be_bytes_be_word:
  assumes "8 * length bs \<le> LENGTH('a)"
  shows "be_bytes (length bs) (be_word bs :: 'a::len word) = bs"
proof (rule nth_equalityI)
  fix j
  assume "j < length (be_bytes (length bs) (be_word bs :: 'a word))"
  then have j: "j < length bs" by simp
  show "be_bytes (length bs) (be_word bs :: 'a word) ! j = bs ! j"
  proof (rule bit_word_eqI)
    fix i
    assume "i < LENGTH(8)"
    then have i: "i < 8" by simp
    have "(8 * (length bs - Suc j) + i) div 8 = length bs - Suc j"
      and "(8 * (length bs - Suc j) + i) mod 8 = i"
      using i by simp_all
    moreover have "8 * (length bs - Suc j) + i < LENGTH('a)"
      using i j assms by linarith
    moreover have "length bs - Suc (length bs - Suc j) = j" and "length bs - Suc j < length bs"
      using j by simp_all
    ultimately show "bit (be_bytes (length bs) (be_word bs :: 'a word) ! j) i = bit (bs ! j) i"
      using i j by (simp add: be_bytes_def bit_simps bit_be_word)
  qed
qed simp

lemma be_bytes_Suc: "be_bytes (Suc n) v = ucast (drop_bit (8 * n) v) # be_bytes n v"
  by (simp add: be_bytes_def upt_conv_Cons map_Suc_upt [symmetric] del: upt_Suc)

subsection \<open>The loops compute the digits\<close>

lemma append_be_eq: "append_be v (8 * int n - 8) out = out @ be_bytes n v"
proof (induction n arbitrary: out)
  case 0
  then show ?case
    by (simp add: append_be.simps be_bytes_def)
next
  case (Suc n)
  have "append_be v (8 * int (Suc n) - 8) out =
      append_be v (8 * int n - 8) (out @ [ucast (drop_bit (8 * n) v)])"
    by (subst append_be.simps) (simp add: ucast_and_ff nat_mult_distrib)
  then show ?case
    by (simp add: Suc.IH be_bytes_Suc)
qed

lemma append_u16_eq [codec_simps]: "append_u16 out v = out @ be_bytes 2 v"
  by (simp add: append_u16_def ucast_and_ff numeral_2_eq_2 be_bytes_Suc be_bytes_def)

lemma append_u32_eq [codec_simps]: "append_u32 out v = out @ be_bytes 4 v"
  using append_be_eq [of v 4 out] by (simp add: append_u32_def)

lemma append_u64_eq [codec_simps]: "append_u64 out v = out @ be_bytes 8 v"
  using append_be_eq [of v 8 out] by (simp add: append_u64_def)

lemma read_be_eq:
  "read_be n input offset v =
     (if offset + n \<le> length input \<or> n = 0
      then Some (foldl (\<lambda>v b. push_bit 8 v OR ucast b) v (take n (drop offset input)), offset + n)
      else None)"
proof (induction n arbitrary: offset v)
  case 0
  then show ?case by simp
next
  case (Suc n)
  then show ?case
    by (auto simp: Cons_nth_drop_Suc [symmetric])
qed

lemma read_u32_eq [codec_simps]:
  "read_u32 input offset =
     (if offset + 4 \<le> length input then Some (be_word (take 4 (drop offset input)), offset + 4)
      else None)"
  by (simp add: read_u32_def read_be_eq be_word_def)

lemma read_u64_eq [codec_simps]:
  "read_u64 input offset =
     (if offset + 8 \<le> length input then Some (be_word (take 8 (drop offset input)), offset + 8)
      else None)"
  by (simp add: read_u64_def read_be_eq be_word_def)

lemma take2_drop:
  "offset + 1 < length xs \<Longrightarrow> take 2 (drop offset xs) = [xs ! offset, xs ! (offset + 1)]"
  by (simp add: numeral_2_eq_2 take_Suc_conv_app_nth)

lemma read_u16_eq [codec_simps]:
  "read_u16 input offset =
     (if offset + 2 \<le> length input then Some (be_word (take 2 (drop offset input)), offset + 2)
      else None)"
  by (auto simp: read_u16_def be_word_def take2_drop)

text \<open>
  The three widths the protocol uses, as rewrite rules in both directions. Reading a prefix
  of a longer message needs the digits to be cut out first, which \<open>take\<close> and \<open>drop\<close> of
  appended digit lists do by computing lengths.
\<close>

lemma be_word_be_bytes_width [simp]:
  "be_word (be_bytes 2 (a :: u16)) = a"
  "be_word (be_bytes 4 (b :: u32)) = b"
  "be_word (be_bytes 8 (c :: u64)) = c"
  by (simp_all add: be_word_be_bytes)

lemma be_bytes_be_word_width:
  "length bs = 2 \<Longrightarrow> be_bytes 2 (be_word bs :: u16) = bs"
  "length bs = 4 \<Longrightarrow> be_bytes 4 (be_word bs :: u32) = bs"
  "length bs = 8 \<Longrightarrow> be_bytes 8 (be_word bs :: u64) = bs"
  using be_bytes_be_word [of bs, where 'a = 16] be_bytes_be_word [of bs, where 'a = 32]
    be_bytes_be_word [of bs, where 'a = 64]
  by simp_all

lemma be_word_inject:
  "length bs = 4 \<Longrightarrow> (be_word bs :: u32) = v \<longleftrightarrow> bs = be_bytes 4 v"
  using be_bytes_be_word_width(2) [of bs] by auto

text \<open>Cutting one field off the front of the unread part of a message.\<close>

lemma take_drop_join: "j = k + n \<Longrightarrow> take n (drop k bs) @ drop j bs = drop k bs"
  by (metis add.commute append_take_drop_id drop_drop)

lemma take_prefix_join: "take n bs = p \<Longrightarrow> p @ drop n bs = bs"
  by auto

end
