(* ===== verification/Chunk_Codec.thy ===== *)
theory Chunk_Codec
  imports Wire Protocol
begin

text \<open>
  \<open>src/transfer/chunk_codec.cpp\<close>: the chunk header on the wire and its validation against
  the manifest. The functions that also touch the socket are in theory \<open>Messages\<close>.
\<close>

definition kChunkHeaderMagic :: u32 where
  "kChunkHeaderMagic = 0x50424348"

definition kChunkHeaderSize :: nat where
  "kChunkHeaderSize = 4 + 8 + 8 + 8 + 4"

definition serialize_chunk_header :: "ChunkHeader \<Rightarrow> bytes" where
  "serialize_chunk_header header =
     (let payload = append_u32 [] kChunkHeaderMagic;
          payload = append_u64 payload (ch_session_id header);
          payload = append_u64 payload (ch_chunk_index header);
          payload = append_u64 payload (ch_byte_offset header)
      in append_u32 payload (ch_payload_size header))"

definition deserialize_chunk_header ::
    "bytes \<Rightarrow> ChunkHeader \<Rightarrow> (bool \<times> ChunkHeader) option" where
  "deserialize_chunk_header payload header =
     (if length payload \<noteq> kChunkHeaderSize then Some (False, header)
      else do {
        (magic, offset) \<leftarrow> read_u32 payload 0;
        if magic \<noteq> kChunkHeaderMagic then Some (False, header)
        else do {
          (session_id, offset) \<leftarrow> read_u64 payload offset;
          let header = header\<lparr>ch_session_id := session_id\<rparr>;
          (chunk_index, offset) \<leftarrow> read_u64 payload offset;
          let header = header\<lparr>ch_chunk_index := chunk_index\<rparr>;
          (byte_offset, offset) \<leftarrow> read_u64 payload offset;
          let header = header\<lparr>ch_byte_offset := byte_offset\<rparr>;
          (payload_size, offset) \<leftarrow> read_u32 payload offset;
          let header = header\<lparr>ch_payload_size := payload_size\<rparr>;
          Some (True, header)
        }
      })"

definition validate_chunk_header :: "FileManifest \<Rightarrow> ChunkHeader \<Rightarrow> bool" where
  "validate_chunk_header manifest header =
     (if fm_chunk_size manifest = 0 \<or>
         ch_chunk_index header \<ge> fm_chunk_count manifest \<or>
         ch_payload_size header = 0 \<or>
         ch_payload_size header > fm_chunk_size manifest \<or>
         ch_session_id header \<noteq> fm_session_id manifest
      then False
      else
        let expected_offset = ch_chunk_index header * ucast (fm_chunk_size manifest) in
        if ch_byte_offset header \<noteq> expected_offset \<or>
           ch_byte_offset header \<ge> fm_file_size manifest \<or>
           ch_byte_offset header + ucast (ch_payload_size header) > fm_file_size manifest
        then False
        else
          let expected_size =
            (if ch_chunk_index header + 1 = fm_chunk_count manifest
             then fm_file_size manifest - ch_byte_offset header
             else ucast (fm_chunk_size manifest))
          in ucast (ch_payload_size header) = expected_size)"

subsection \<open>The layout of the header\<close>

lemma serialize_chunk_header_eq [codec_simps]:
  "serialize_chunk_header h =
     be_bytes 4 kChunkHeaderMagic @ be_bytes 8 (ch_session_id h) @ be_bytes 8 (ch_chunk_index h) @
     be_bytes 8 (ch_byte_offset h) @ be_bytes 4 (ch_payload_size h)"
  by (simp add: serialize_chunk_header_def codec_simps Let_def)

lemma deserialize_chunk_header_eq:
  "deserialize_chunk_header bs h =
     Some (if length bs \<noteq> 32 \<or> take 4 bs \<noteq> be_bytes 4 kChunkHeaderMagic then (False, h)
           else (True, h\<lparr>ch_session_id := be_word (take 8 (drop 4 bs)),
                         ch_chunk_index := be_word (take 8 (drop 12 bs)),
                         ch_byte_offset := be_word (take 8 (drop 20 bs)),
                         ch_payload_size := be_word (take 4 (drop 28 bs))\<rparr>))"
  by (simp add: deserialize_chunk_header_def kChunkHeaderSize_def codec_simps Let_def be_word_inject)

interpretation chunk: fixed_codec serialize_chunk_header deserialize_chunk_header "\<lambda>_. True" 32
proof
  fix bs m
  show "\<exists>ok m'. deserialize_chunk_header bs m = Some (ok, m')"
    by (auto simp: deserialize_chunk_header_eq)
next
  fix m m0 :: ChunkHeader
  show "deserialize_chunk_header (serialize_chunk_header m) m0 = Some (True, m)"
    by (simp add: deserialize_chunk_header_eq serialize_chunk_header_eq)
next
  fix bs m0 m
  assume "deserialize_chunk_header bs m0 = Some (True, m)"
  then show "True \<and> serialize_chunk_header m = bs"
    by (auto simp: deserialize_chunk_header_eq serialize_chunk_header_eq be_bytes_be_word_width
        take_drop_join take_prefix_join split: if_splits)
next
  fix m
  show "length (serialize_chunk_header m) = 32"
    by (simp add: serialize_chunk_header_eq)
qed

subsection \<open>Property\<close>

text \<open>
  C28: a chunk header survives the wire, and nothing but the 32 bytes that the sender writes for
  a header is accepted as that header; the previous value of the out-parameter is irrelevant.
\<close>

theorem chunk_header_roundtrip:
  "deserialize_chunk_header bs h0 = Some (True, h) \<longleftrightarrow>
     bs = serialize_chunk_header h \<and> length bs = 32"
  using chunk.dec_iff [of bs h0 h] chunk.length_enc [of h] by auto

end
