(* ===== verification/Continuation_Codec.thy ===== *)
theory Continuation_Codec
  imports Wire Protocol
begin

text \<open>
  \<open>src/transfer/continuation_codec.cpp\<close>: the continuation request, the only message whose
  length depends on a count it carries, and its validation by the sender.
\<close>

definition kContinueRequestMagic :: u32 where
  "kContinueRequestMagic = 0x50424352"

definition kMaxChunkIndexes :: u64 where
  "kMaxChunkIndexes = 1000000"

definition continue_fixed_size :: nat where
  "continue_fixed_size = 4 + 3 * 8"

fun append_indexes :: "bytes \<Rightarrow> u64 list \<Rightarrow> bytes" where
  "append_indexes payload [] = payload"
| "append_indexes payload (index # rest) = append_indexes (append_u64 payload index) rest"

definition serialize_continue_request :: "ContinueRequest \<Rightarrow> bytes" where
  "serialize_continue_request request =
     (let payload = append_u32 [] kContinueRequestMagic;
          payload = append_u64 payload (cr_session_id request);
          payload = append_u64 payload (cr_total_chunks request);
          payload = append_u64 payload (of_nat (length (cr_missing_chunk_indexes request)))
      in append_indexes payload (cr_missing_chunk_indexes request))"

fun read_indexes :: "nat \<Rightarrow> bytes \<Rightarrow> nat \<Rightarrow> u64 list \<Rightarrow> u64 list option" where
  "read_indexes 0 payload offset indexes = Some indexes"
| "read_indexes (Suc n) payload offset indexes =
     do {
       (index, offset) \<leftarrow> read_u64 payload offset;
       read_indexes n payload offset (indexes @ [index])
     }"

definition deserialize_continue_request ::
    "bytes \<Rightarrow> ContinueRequest \<Rightarrow> (bool \<times> ContinueRequest) option" where
  "deserialize_continue_request payload request =
     (if length payload < continue_fixed_size then Some (False, request)
      else do {
        (magic, offset) \<leftarrow> read_u32 payload 0;
        if magic \<noteq> kContinueRequestMagic then Some (False, request)
        else do {
          (session_id, offset) \<leftarrow> read_u64 payload offset;
          let request = request\<lparr>cr_session_id := session_id\<rparr>;
          (total_chunks, offset) \<leftarrow> read_u64 payload offset;
          let request = request\<lparr>cr_total_chunks := total_chunks\<rparr>;
          (missing_count, offset) \<leftarrow> read_u64 payload offset;
          if missing_count > kMaxChunkIndexes \<or>
             length payload \<noteq> unat (of_nat continue_fixed_size + missing_count * 8)
          then Some (False, request)
          else do {
            indexes \<leftarrow> read_indexes (unat missing_count) payload offset [];
            Some (True, request\<lparr>cr_missing_chunk_indexes := indexes\<rparr>)
          }
        }
      })"

fun indexes_ascending :: "u64 \<Rightarrow> u64 list \<Rightarrow> u64 \<Rightarrow> bool \<Rightarrow> bool" where
  "indexes_ascending chunk_count [] previous has_previous = True"
| "indexes_ascending chunk_count (index # rest) previous has_previous =
     (if index \<ge> chunk_count \<or> (has_previous \<and> index \<le> previous) then False
      else indexes_ascending chunk_count rest index True)"

definition validate_continue_request :: "FileManifest \<Rightarrow> ContinueRequest \<Rightarrow> bool" where
  "validate_continue_request manifest request =
     (if cr_session_id request \<noteq> fm_session_id manifest \<or>
         cr_total_chunks request \<noteq> fm_chunk_count manifest
      then False
      else indexes_ascending (fm_chunk_count manifest) (cr_missing_chunk_indexes request) 0 False)"

text \<open>The requests the codec can carry.\<close>

definition continue_wf :: "ContinueRequest \<Rightarrow> bool" where
  "continue_wf r \<longleftrightarrow> length (cr_missing_chunk_indexes r) \<le> 1000000"

subsection \<open>The index list on the wire\<close>

fun words_at :: "nat \<Rightarrow> bytes \<Rightarrow> u64 list" where
  "words_at 0 bs = []"
| "words_at (Suc n) bs = be_word (take 8 bs) # words_at n (drop 8 bs)"

abbreviation index_bytes :: "u64 list \<Rightarrow> bytes" where
  "index_bytes ws \<equiv> concat (map (be_bytes 8) ws)"

lemma length_words_at [simp]: "length (words_at n bs) = n"
  by (induction n arbitrary: bs) auto

lemma length_index_bytes [simp]: "length (index_bytes ws) = 8 * length ws"
  by (induction ws) auto

lemma append_indexes_eq: "append_indexes payload ws = payload @ index_bytes ws"
  by (induction ws arbitrary: payload) (auto simp: append_u64_eq)

lemma words_at_index_bytes: "words_at (length ws) (index_bytes ws @ r) = ws"
  by (induction ws) auto

lemma index_bytes_words_at: "length bs = 8 * n \<Longrightarrow> index_bytes (words_at n bs) = bs"
  by (induction n arbitrary: bs) (auto simp: be_bytes_be_word_width)

lemma read_indexes_eq:
  "offset + 8 * n \<le> length payload \<Longrightarrow>
     read_indexes n payload offset acc = Some (acc @ words_at n (drop offset payload))"
  by (induction n arbitrary: offset acc) (auto simp: read_u64_eq add.commute)

subsection \<open>The codec\<close>

lemma serialize_continue_request_eq [codec_simps]:
  "serialize_continue_request r =
     be_bytes 4 kContinueRequestMagic @ be_bytes 8 (cr_session_id r) @
     be_bytes 8 (cr_total_chunks r) @
     be_bytes 8 (of_nat (length (cr_missing_chunk_indexes r)) :: u64) @
     index_bytes (cr_missing_chunk_indexes r)"
  by (simp add: serialize_continue_request_def codec_simps append_indexes_eq Let_def)

lemma unat_request_size:
  "\<not> n > kMaxChunkIndexes \<Longrightarrow> unat (of_nat continue_fixed_size + n * 8 :: u64) = 28 + unat n * 8"
  by (simp add: kMaxChunkIndexes_def continue_fixed_size_def word_less_nat_alt unat_word_ariths)

definition continue_body :: "bytes \<Rightarrow> u64 \<Rightarrow> ContinueRequest \<Rightarrow> bool \<times> ContinueRequest" where
  "continue_body bs n r =
     (if n > kMaxChunkIndexes \<or> length bs \<noteq> 28 + unat n * 8 then (False, r)
      else (True, r\<lparr>cr_missing_chunk_indexes := words_at (unat n) (drop 28 bs)\<rparr>))"

lemma continue_body_eq:
  "(if n > kMaxChunkIndexes \<or> length bs \<noteq> unat (of_nat continue_fixed_size + n * 8)
    then Some (False, r)
    else do {
      indexes \<leftarrow> read_indexes (unat n) bs 28 [];
      Some (True, r\<lparr>cr_missing_chunk_indexes := indexes\<rparr>)
    }) = Some (continue_body bs n r)"
proof (cases "n > kMaxChunkIndexes")
  case True
  then show ?thesis by (simp add: continue_body_def)
next
  case False
  then show ?thesis
    using unat_request_size [of n] by (simp add: continue_body_def read_indexes_eq)
qed

lemma deserialize_continue_request_eq:
  "deserialize_continue_request bs r =
     Some (if length bs < 28 \<or> take 4 bs \<noteq> be_bytes 4 kContinueRequestMagic then (False, r)
           else continue_body bs (be_word (take 8 (drop 20 bs)))
                  (r\<lparr>cr_session_id := be_word (take 8 (drop 4 bs)),
                     cr_total_chunks := be_word (take 8 (drop 12 bs))\<rparr>))"
proof (cases "length bs < 28")
  case True
  then show ?thesis
    by (simp add: deserialize_continue_request_def continue_fixed_size_def)
next
  case len: False
  then have rd: "read_u32 bs 0 = Some (be_word (take 4 bs), 4)"
    "read_u64 bs 4 = Some (be_word (take 8 (drop 4 bs)), 12)"
    "read_u64 bs 12 = Some (be_word (take 8 (drop 12 bs)), 20)"
    "read_u64 bs 20 = Some (be_word (take 8 (drop 20 bs)), 28)"
    by (simp_all add: codec_simps)
  have "\<not> length bs < continue_fixed_size"
    using len by (simp add: continue_fixed_size_def)
  moreover have "be_word (take 4 bs) = kContinueRequestMagic \<longleftrightarrow>
      take 4 bs = be_bytes 4 kContinueRequestMagic"
    using len by (intro be_word_inject) simp
  ultimately show ?thesis
    unfolding deserialize_continue_request_def
    by (simp add: rd len Let_def continue_body_eq)
qed

lemma index_count:
  assumes "length xs \<le> 1000000"
  shows "unat (of_nat (length xs) :: u64) = length xs"
    and "\<not> (of_nat (length xs) :: u64) > kMaxChunkIndexes"
  using assms by (simp_all add: unat_of_nat kMaxChunkIndexes_def word_less_nat_alt)

lemma serialize_continue_request_fields:
  assumes "bs = serialize_continue_request m"
  shows "length bs = 28 + length (cr_missing_chunk_indexes m) * 8"
    and "take 4 bs = be_bytes 4 kContinueRequestMagic"
    and "take 8 (drop 4 bs) = be_bytes 8 (cr_session_id m)"
    and "take 8 (drop 12 bs) = be_bytes 8 (cr_total_chunks m)"
    and "take 8 (drop 20 bs) = be_bytes 8 (of_nat (length (cr_missing_chunk_indexes m)) :: u64)"
    and "drop 28 bs = index_bytes (cr_missing_chunk_indexes m) @ []"
  by (simp_all add: assms serialize_continue_request_eq)

lemma continue_dec_enc:
  assumes "continue_wf m"
  shows "deserialize_continue_request (serialize_continue_request m) m0 = Some (True, m)"
proof -
  define bs where "bs = serialize_continue_request m"
  note fields = serialize_continue_request_fields [OF bs_def]
  note n = index_count [OF assms [unfolded continue_wf_def]]
  have body: "continue_body bs (of_nat (length (cr_missing_chunk_indexes m))) r =
      (True, r\<lparr>cr_missing_chunk_indexes := cr_missing_chunk_indexes m\<rparr>)" for r
    using n(2) by (simp only: continue_body_def n(1) fields words_at_index_bytes simp_thms if_False)
  have len: "\<not> length bs < 28"
    by (simp add: fields(1))
  have "deserialize_continue_request bs m0 = Some (True, m)"
    by (simp only: deserialize_continue_request_eq len fields(2-5) be_word_be_bytes_width body
        simp_thms if_False) simp
  then show ?thesis
    by (simp add: bs_def)
qed

lemma continue_dec_sound:
  assumes "deserialize_continue_request bs m0 = Some (True, m)"
  shows "continue_wf m \<and> serialize_continue_request m = bs"
proof -
  define n where "n = (be_word (take 8 (drop 20 bs)) :: u64)"
  define r where "r = m0\<lparr>cr_session_id := be_word (take 8 (drop 4 bs)),
    cr_total_chunks := be_word (take 8 (drop 12 bs))\<rparr>"
  from assms have "continue_body bs n r = (True, m)"
    and mg: "take 4 bs = be_bytes 4 kContinueRequestMagic"
    by (auto simp: deserialize_continue_request_eq n_def r_def split: if_splits)
  then have len: "length bs = 28 + unat n * 8" and n: "\<not> n > kMaxChunkIndexes"
    and m: "m = r\<lparr>cr_missing_chunk_indexes := words_at (unat n) (drop 28 bs)\<rparr>"
    by (auto simp: continue_body_def split: if_splits)
  have ge: "28 \<le> length bs" and tl: "length (drop 28 bs) = 8 * unat n"
    using len by simp_all
  have "continue_wf m"
    using n by (simp add: m continue_wf_def kMaxChunkIndexes_def word_less_nat_alt)
  moreover have "be_bytes 8 n = take 8 (drop 20 bs)"
    unfolding n_def using ge by (intro be_bytes_be_word_width) simp
  moreover have "index_bytes (words_at (unat n) (drop 28 bs)) = drop 28 bs"
    using tl by (rule index_bytes_words_at)
  moreover have "serialize_continue_request m =
      be_bytes 4 kContinueRequestMagic @ take 8 (drop 4 bs) @ take 8 (drop 12 bs) @
      be_bytes 8 n @ index_bytes (words_at (unat n) (drop 28 bs))"
    using ge by (simp add: m r_def serialize_continue_request_eq be_bytes_be_word_width)
  ultimately show ?thesis
    using mg by (simp add: take_drop_join take_prefix_join)
qed

lemma continue_dec_total: "\<exists>ok m'. deserialize_continue_request bs m = Some (ok, m')"
  by (metis deserialize_continue_request_eq surj_pair)

interpretation continuation: canonical_codec
  serialize_continue_request deserialize_continue_request continue_wf
  by unfold_locales (simp_all add: continue_dec_total continue_dec_enc continue_dec_sound)

subsection \<open>Validation\<close>

lemma indexes_ascending_iff:
  "indexes_ascending c ws p has \<longleftrightarrow>
     (\<forall>i \<in> set ws. i < c) \<and> sorted_wrt (<) ws \<and> (has \<longrightarrow> (\<forall>i \<in> set ws. p < i))"
  by (induction ws arbitrary: p has) (auto simp: not_le intro: less_trans)

lemma validate_continue_request_iff:
  "validate_continue_request m r \<longleftrightarrow>
     cr_session_id r = fm_session_id m \<and> cr_total_chunks r = fm_chunk_count m \<and>
     (\<forall>i \<in> set (cr_missing_chunk_indexes r). i < fm_chunk_count m) \<and>
     sorted_wrt (<) (cr_missing_chunk_indexes r)"
  by (auto simp: validate_continue_request_def indexes_ascending_iff)

subsection \<open>Properties\<close>

text \<open>
  C26: a continuation request is accepted exactly when it is the encoding of a request with at
  most a million indexes, so the count, the length of the message and the index list always
  agree.
\<close>

theorem continue_request_roundtrip:
  "deserialize_continue_request bs r0 = Some (True, r) \<longleftrightarrow>
     length (cr_missing_chunk_indexes r) \<le> 1000000 \<and> bs = serialize_continue_request r"
  using continuation.dec_iff [of bs r0 r] by (simp add: continue_wf_def)

text \<open>
  C27: the sender accepts a request exactly when it belongs to the transfer and lists chunks
  that exist in strictly ascending order, hence each at most once.
\<close>

theorem continue_request_validation:
  "validate_continue_request m r \<longleftrightarrow>
     cr_session_id r = fm_session_id m \<and> cr_total_chunks r = fm_chunk_count m \<and>
     set (cr_missing_chunk_indexes r) \<subseteq> {i. i < fm_chunk_count m} \<and>
     cr_missing_chunk_indexes r = sorted_list_of_set (set (cr_missing_chunk_indexes r))"
proof -
  have "sorted_wrt (<) ws \<longleftrightarrow> ws = sorted_list_of_set (set ws)" for ws :: "u64 list"
    by (metis List.finite_set sorted_list_of_set.idem_if_sorted_distinct strict_sorted_iff
        sorted_list_of_set.strict_sorted_key_list_of_set map_ident)
  then show ?thesis
    by (auto simp: validate_continue_request_iff)
qed

end
