(* ===== verification/Sha256.thy ===== *)
theory Sha256
  imports Wire Text
begin

text \<open>
  The class \<open>Sha256\<close> and \<open>is_sha256_hex\<close> of \<open>src/crypto/sha256.cpp\<close>. The class keeps the
  chaining state, a 64-byte buffer with a fill level, and the bit count; \<open>update\<close> may be called
  any number of times before \<open>final_hex\<close>. Writing the buffer beyond its end would be undefined
  and is \<^const>\<open>None\<close>. \<open>sha256_file\<close>, which reads a file, is in theory \<open>Files\<close>.

  The reference is the hash function of FIPS 180-4 on byte messages: pad, cut into blocks,
  fold the compression function whose schedule is given by its recurrence.
\<close>

definition kRoundConstants :: "u32 list" where
  "kRoundConstants =
    concat
      [[0x428a2f98, 0x71374491, 0xb5c0fbcf, 0xe9b5dba5, 0x3956c25b, 0x59f111f1, 0x923f82a4, 0xab1c5ed5],
       [0xd807aa98, 0x12835b01, 0x243185be, 0x550c7dc3, 0x72be5d74, 0x80deb1fe, 0x9bdc06a7, 0xc19bf174],
       [0xe49b69c1, 0xefbe4786, 0x0fc19dc6, 0x240ca1cc, 0x2de92c6f, 0x4a7484aa, 0x5cb0a9dc, 0x76f988da],
       [0x983e5152, 0xa831c66d, 0xb00327c8, 0xbf597fc7, 0xc6e00bf3, 0xd5a79147, 0x06ca6351, 0x14292967],
       [0x27b70a85, 0x2e1b2138, 0x4d2c6dfc, 0x53380d13, 0x650a7354, 0x766a0abb, 0x81c2c92e, 0x92722c85],
       [0xa2bfe8a1, 0xa81a664b, 0xc24b8b70, 0xc76c51a3, 0xd192e819, 0xd6990624, 0xf40e3585, 0x106aa070],
       [0x19a4c116, 0x1e376c08, 0x2748774c, 0x34b0bcb5, 0x391c0cb3, 0x4ed8aa4a, 0x5b9cca4f, 0x682e6ff3],
       [0x748f82ee, 0x78a5636f, 0x84c87814, 0x8cc70208, 0x90befffa, 0xa4506ceb, 0xbef9a3f7, 0xc67178f2]]"

definition rotate_right :: "u32 \<Rightarrow> nat \<Rightarrow> u32" where
  "rotate_right value bits = drop_bit bits value OR push_bit (32 - bits) value"

definition choose_bits :: "u32 \<Rightarrow> u32 \<Rightarrow> u32 \<Rightarrow> u32" where
  "choose_bits x y z = (x AND y) XOR (NOT x AND z)"

definition majority :: "u32 \<Rightarrow> u32 \<Rightarrow> u32 \<Rightarrow> u32" where
  "majority x y z = (x AND y) XOR (x AND z) XOR (y AND z)"

definition big_sigma0 :: "u32 \<Rightarrow> u32" where
  "big_sigma0 value = rotate_right value 2 XOR rotate_right value 13 XOR rotate_right value 22"

definition big_sigma1 :: "u32 \<Rightarrow> u32" where
  "big_sigma1 value = rotate_right value 6 XOR rotate_right value 11 XOR rotate_right value 25"

definition small_sigma0 :: "u32 \<Rightarrow> u32" where
  "small_sigma0 value = rotate_right value 7 XOR rotate_right value 18 XOR drop_bit 3 value"

definition small_sigma1 :: "u32 \<Rightarrow> u32" where
  "small_sigma1 value = rotate_right value 17 XOR rotate_right value 19 XOR drop_bit 10 value"

record Sha256 =
  sh_state :: "u32 list"
  sh_buffer :: bytes
  sh_buffer_size :: nat
  sh_bit_count :: u64

definition Sha256_initial_state :: "u32 list" where
  "Sha256_initial_state =
    [0x6a09e667, 0xbb67ae85, 0x3c6ef372, 0xa54ff53a,
     0x510e527f, 0x9b05688c, 0x1f83d9ab, 0x5be0cd19]"

definition Sha256_init :: Sha256 where
  "Sha256_init =
     \<lparr>sh_state = Sha256_initial_state, sh_buffer = replicate 64 0, sh_buffer_size = 0,
      sh_bit_count = 0\<rparr>"

subsection \<open>process block\<close>

definition load_word :: "bytes \<Rightarrow> nat \<Rightarrow> u32 list \<Rightarrow> u32 list" where
  "load_word block i words =
     (let offset = i * 4 in
      words[i := push_bit 24 (ucast (block ! offset)) OR
                 push_bit 16 (ucast (block ! (offset + 1))) OR
                 push_bit 8 (ucast (block ! (offset + 2))) OR
                 ucast (block ! (offset + 3))])"

definition extend_word :: "nat \<Rightarrow> u32 list \<Rightarrow> u32 list" where
  "extend_word i words =
     words[i := small_sigma1 (words ! (i - 2)) + words ! (i - 7) +
                small_sigma0 (words ! (i - 15)) + words ! (i - 16)]"

definition message_words :: "bytes \<Rightarrow> u32 list" where
  "message_words block =
     fold extend_word [16..<64] (fold (load_word block) [0..<16] (replicate 64 0))"

type_synonym working = "u32 \<times> u32 \<times> u32 \<times> u32 \<times> u32 \<times> u32 \<times> u32 \<times> u32"

definition sha_round :: "u32 \<Rightarrow> u32 \<Rightarrow> working \<Rightarrow> working" where
  "sha_round k w = (\<lambda>(a, b, c, d, e, f, g, h).
     let temp1 = h + big_sigma1 e + choose_bits e f g + k + w;
         temp2 = big_sigma0 a + majority a b c
     in (temp1 + temp2, a, b, c, d + temp1, e, f, g))"

definition process_block :: "bytes \<Rightarrow> u32 list \<Rightarrow> u32 list" where
  "process_block block st =
     (let words = message_words block;
          (a, b, c, d, e, f, g, h) =
            fold (\<lambda>i. sha_round (kRoundConstants ! i) (words ! i)) [0..<64]
              (st ! 0, st ! 1, st ! 2, st ! 3, st ! 4, st ! 5, st ! 6, st ! 7)
      in [st ! 0 + a, st ! 1 + b, st ! 2 + c, st ! 3 + d,
          st ! 4 + e, st ! 5 + f, st ! 6 + g, st ! 7 + h])"

subsection \<open>update and final\<close>

definition put_byte :: "u8 \<Rightarrow> Sha256 \<Rightarrow> Sha256 option" where
  "put_byte b s =
     (if sh_buffer_size s < 64
      then Some (s\<lparr>sh_buffer := (sh_buffer s)[sh_buffer_size s := b],
                   sh_buffer_size := sh_buffer_size s + 1\<rparr>)
      else None)"

definition run_block :: "Sha256 \<Rightarrow> Sha256" where
  "run_block s = s\<lparr>sh_state := process_block (sh_buffer s) (sh_state s)\<rparr>"

fun update_loop :: "bytes \<Rightarrow> Sha256 \<Rightarrow> Sha256 option" where
  "update_loop [] s = Some s"
| "update_loop (b # data) s =
     do {
       s \<leftarrow> put_byte b s;
       let s = (if sh_buffer_size s = 64 then (run_block s)\<lparr>sh_buffer_size := 0\<rparr> else s);
       update_loop data s
     }"

definition update :: "bytes \<Rightarrow> Sha256 \<Rightarrow> Sha256 option" where
  "update data s =
     update_loop data (s\<lparr>sh_bit_count := sh_bit_count s + of_nat (length data) * 8\<rparr>)"

function pad_to :: "nat \<Rightarrow> Sha256 \<Rightarrow> Sha256 option" where
  "pad_to n s =
     (if sh_buffer_size s < n
      then (case put_byte 0 s of None \<Rightarrow> None | Some s' \<Rightarrow> pad_to n s')
      else Some s)"
  by pat_completeness auto
termination
  by (relation "measure (\<lambda>(n, s). n - sh_buffer_size s)")
    (auto simp: put_byte_def split: if_splits)

declare pad_to.simps [simp del]

function put_bit_count :: "int \<Rightarrow> Sha256 \<Rightarrow> Sha256 option" where
  "put_bit_count shift s =
     (if shift \<ge> 0
      then (case put_byte (ucast (drop_bit (nat shift) (sh_bit_count s) AND 0xff)) s of
              None \<Rightarrow> None
            | Some s' \<Rightarrow> put_bit_count (shift - 8) s')
      else Some s)"
  by pat_completeness auto
termination
  by (relation "measure (\<lambda>(shift, s). nat (shift + 8))") auto

declare put_bit_count.simps [simp del]

definition hex_word :: "u32 \<Rightarrow> string" where
  "hex_word w = pad_left 8 CHR ''0'' (show_base 16 (uint w))"

definition final_hex :: "Sha256 \<Rightarrow> (string \<times> Sha256) option" where
  "final_hex s =
     do {
       s \<leftarrow> put_byte 0x80 s;
       s \<leftarrow> (if sh_buffer_size s > 56
            then do {
              s \<leftarrow> pad_to 64 s;
              Some ((run_block s)\<lparr>sh_buffer_size := 0\<rparr>)
            }
            else Some s);
       s \<leftarrow> pad_to 56 s;
       s \<leftarrow> put_bit_count 56 s;
       let s = run_block s;
       Some (concat (map hex_word (sh_state s)), s)
     }"

definition is_hex_digit :: "char \<Rightarrow> bool" where
  "is_hex_digit ch =
     (let n = of_char ch :: nat in 48 \<le> n \<and> n \<le> 57 \<or> 97 \<le> n \<and> n \<le> 102)"

fun all_hex_digits :: "string \<Rightarrow> bool" where
  "all_hex_digits [] = True"
| "all_hex_digits (ch # value) = (if \<not> is_hex_digit ch then False else all_hex_digits value)"

definition is_sha256_hex :: "string \<Rightarrow> bool" where
  "is_sha256_hex value = (if length value \<noteq> 64 then False else all_hex_digits value)"

end
