(* ===== verification/Hash_Codec.thy ===== *)
theory Hash_Codec
  imports Wire Protocol Sha256
begin

text \<open>\<open>src/transfer/hash_codec.cpp\<close>: the packet that carries the expected digest.\<close>

definition kHashPacketMagic :: u32 where
  "kHashPacketMagic = 0x50424853"

definition kHashPacketSize :: nat where
  "kHashPacketSize = 4 + 8 + 64"

definition serialize_hash_packet :: "HashPacket \<Rightarrow> bytes" where
  "serialize_hash_packet packet =
     (if \<not> is_sha256_hex (hp_sha256_hex packet) then []
      else
        let payload = append_u32 [] kHashPacketMagic;
            payload = append_u64 payload (hp_session_id packet)
        in payload @ bytes_of_string (hp_sha256_hex packet))"

definition deserialize_hash_packet ::
    "bytes \<Rightarrow> HashPacket \<Rightarrow> (bool \<times> HashPacket) option" where
  "deserialize_hash_packet payload packet =
     (if length payload \<noteq> kHashPacketSize then Some (False, packet)
      else do {
        (magic, offset) \<leftarrow> read_u32 payload 0;
        if magic \<noteq> kHashPacketMagic then Some (False, packet)
        else do {
          (session_id, offset) \<leftarrow> read_u64 payload offset;
          let packet = packet\<lparr>hp_session_id := session_id,
                              hp_sha256_hex := string_of_bytes (drop offset payload)\<rparr>;
          Some (is_sha256_hex (hp_sha256_hex packet), packet)
        }
      })"

text \<open>The packets the codec can carry.\<close>

definition hash_wf :: "HashPacket \<Rightarrow> bool" where
  "hash_wf p \<longleftrightarrow> is_sha256_hex (hp_sha256_hex p)"

lemma is_sha256_hex_length: "is_sha256_hex s \<Longrightarrow> length s = 64"
  by (simp add: is_sha256_hex_def split: if_splits)

lemma serialize_hash_packet_eq [codec_simps]:
  "hash_wf p \<Longrightarrow> serialize_hash_packet p =
     be_bytes 4 kHashPacketMagic @ be_bytes 8 (hp_session_id p) @ bytes_of_string (hp_sha256_hex p)"
  by (simp add: serialize_hash_packet_def codec_simps hash_wf_def)

lemma serialize_hash_packet_refuses: "\<not> hash_wf p \<Longrightarrow> serialize_hash_packet p = []"
  by (simp add: serialize_hash_packet_def hash_wf_def)

lemma deserialize_hash_packet_eq:
  "deserialize_hash_packet bs p =
     Some (if length bs \<noteq> 76 \<or> take 4 bs \<noteq> be_bytes 4 kHashPacketMagic then (False, p)
           else
             (is_sha256_hex (string_of_bytes (drop 12 bs)),
              p\<lparr>hp_session_id := be_word (take 8 (drop 4 bs)),
                hp_sha256_hex := string_of_bytes (drop 12 bs)\<rparr>))"
  by (simp add: deserialize_hash_packet_def kHashPacketSize_def codec_simps Let_def be_word_inject)

interpretation hashp: fixed_codec serialize_hash_packet deserialize_hash_packet hash_wf 76
proof
  fix bs m
  show "\<exists>ok m'. deserialize_hash_packet bs m = Some (ok, m')"
    by (auto simp: deserialize_hash_packet_eq)
next
  fix m m0 :: HashPacket
  assume wf: "hash_wf m"
  then have "length (hp_sha256_hex m) = 64"
    by (simp add: hash_wf_def is_sha256_hex_length)
  with wf show "deserialize_hash_packet (serialize_hash_packet m) m0 = Some (True, m)"
    by (simp add: deserialize_hash_packet_eq serialize_hash_packet_eq hash_wf_def)
next
  fix bs m0 m
  assume "deserialize_hash_packet bs m0 = Some (True, m)"
  then have wf: "hash_wf m" and len: "length bs = 76"
    and mg: "take 4 bs = be_bytes 4 kHashPacketMagic"
    and f: "hp_session_id m = be_word (take 8 (drop 4 bs))"
      "hp_sha256_hex m = string_of_bytes (drop 12 bs)"
    by (auto simp: deserialize_hash_packet_eq hash_wf_def split: if_splits)
  then show "hash_wf m \<and> serialize_hash_packet m = bs"
    by (simp add: serialize_hash_packet_eq be_bytes_be_word_width take_drop_join take_prefix_join
        del: map_map)
next
  fix m
  assume wf: "hash_wf m"
  then have "length (hp_sha256_hex m) = 64"
    by (simp add: hash_wf_def is_sha256_hex_length)
  with wf show "length (serialize_hash_packet m) = 76"
    by (simp add: serialize_hash_packet_eq)
qed

subsection \<open>Property\<close>

text \<open>
  C31: a hash packet is accepted exactly when it is the encoding of a packet whose digest is 64
  lower-case hexadecimal digits.
\<close>

theorem hash_packet_roundtrip:
  "deserialize_hash_packet bs p0 = Some (True, p) \<longleftrightarrow>
     is_sha256_hex (hp_sha256_hex p) \<and> bs = serialize_hash_packet p"
  using hashp.dec_iff [of bs p0 p] by (simp add: hash_wf_def)

end
