(* ===== verification/File_Utils.thy ===== *)
theory File_Utils
  imports PB_Prelude
begin

text \<open>
  The pure functions of \<open>src/transfer/file_utils.cpp\<close>: path and file-name handling and the
  chunk count. \<open>file_size\<close>, which opens a file, is in theory \<open>Files\<close>.
  Characters are classified as in the "C" locale.
\<close>

fun find_last_of :: "char list \<Rightarrow> string \<Rightarrow> nat option" where
  "find_last_of cs [] = None"
| "find_last_of cs (x # xs) =
     (case find_last_of cs xs of
        Some pos \<Rightarrow> Some (pos + 1)
      | None \<Rightarrow> if x \<in> set cs then Some 0 else None)"

definition path_separators :: "char list" where
  "path_separators = [CHR ''/'', CHR 0x5C]"

definition basename_from_path :: "string \<Rightarrow> string" where
  "basename_from_path path =
     (case find_last_of path_separators path of
        None \<Rightarrow> path
      | Some pos \<Rightarrow> drop (pos + 1) path)"

definition isalnum :: "char \<Rightarrow> bool" where
  "isalnum ch =
     (let n = of_char ch :: nat in
      48 \<le> n \<and> n \<le> 57 \<or> 65 \<le> n \<and> n \<le> 90 \<or> 97 \<le> n \<and> n \<le> 122)"

fun sanitize_loop :: "string \<Rightarrow> string \<Rightarrow> string" where
  "sanitize_loop [] sanitized = sanitized"
| "sanitize_loop (ch # base) sanitized =
     (if isalnum ch \<or> ch = CHR ''.'' \<or> ch = CHR ''-'' \<or> ch = CHR ''_''
      then sanitize_loop base (sanitized @ [ch])
      else sanitize_loop base (sanitized @ ''_''))"

fun erase_leading_dots :: "string \<Rightarrow> string" where
  "erase_leading_dots [] = []"
| "erase_leading_dots (c # cs) = (if c = CHR ''.'' then erase_leading_dots cs else c # cs)"

definition sanitize_filename :: "string \<Rightarrow> string" where
  "sanitize_filename filename =
     (let base = basename_from_path filename;
          sanitized = erase_leading_dots (sanitize_loop base [])
      in if sanitized = [] then ''file'' else sanitized)"

definition chunk_count :: "u64 \<Rightarrow> u32 \<Rightarrow> u64" where
  "chunk_count sz chunk_size =
     (if chunk_size = 0 then 0 else (sz + ucast chunk_size - 1) div ucast chunk_size)"

definition join_output_path :: "string \<Rightarrow> string \<Rightarrow> string" where
  "join_output_path directory filename =
     (if directory = [] \<or> directory = ''.'' then filename
      else
        let lst = last directory in
        if lst = CHR ''/'' \<or> lst = CHR 0x5C then directory @ filename
        else directory @ ''/'' @ filename)"

text \<open>What may appear in a sanitised name.\<close>

definition safe_char :: "char \<Rightarrow> bool" where
  "safe_char ch = (isalnum ch \<or> ch \<in> set ''.-_'')"

subsection \<open>Base names\<close>

lemma find_last_of_None: "find_last_of cs s = None \<longleftrightarrow> set s \<inter> set cs = {}"
  by (induction s) (auto split: option.splits)

lemma find_last_of_Some:
  "find_last_of cs s = Some p \<Longrightarrow>
     p < length s \<and> s ! p \<in> set cs \<and> set (drop (p + 1) s) \<inter> set cs = {}"
proof (induction s arbitrary: p)
  case Nil
  then show ?case by simp
next
  case (Cons x xs)
  then show ?case
    by (cases "find_last_of cs xs") (auto simp: find_last_of_None split: if_splits)
qed

lemma find_last_of_append:
  "find_last_of cs (s @ t) =
     (case find_last_of cs t of
        Some p \<Rightarrow> Some (length s + p)
      | None \<Rightarrow> find_last_of cs s)"
  by (induction s) (auto split: option.splits)

lemma basename_no_separator:
  "set (basename_from_path p) \<inter> set path_separators = {}"
proof (cases "find_last_of path_separators p")
  case None
  then show ?thesis
    using find_last_of_None [of path_separators p] by (simp add: basename_from_path_def)
next
  case (Some pos)
  then show ?thesis
    using find_last_of_Some [of path_separators p] by (simp add: basename_from_path_def)
qed

lemma basename_plain:
  "set s \<inter> set path_separators = {} \<Longrightarrow> basename_from_path s = s"
  by (simp add: basename_from_path_def find_last_of_None [THEN iffD2])

lemma basename_idem: "basename_from_path (basename_from_path p) = basename_from_path p"
  by (rule basename_plain [OF basename_no_separator])

lemma basename_append_separator:
  assumes "c \<in> set path_separators" and "set s \<inter> set path_separators = {}"
  shows "basename_from_path (d @ c # s) = s"
  using assms
  by (simp add: basename_from_path_def find_last_of_append find_last_of_None [THEN iffD2])

subsection \<open>Sanitised names\<close>

lemma sanitize_loop_eq:
  "sanitize_loop base acc = acc @ map (\<lambda>c. if safe_char c then c else CHR ''_'') base"
  by (induction base arbitrary: acc) (auto simp: safe_char_def)

lemma erase_leading_dots_eq: "erase_leading_dots s = dropWhile (\<lambda>c. c = CHR ''.'') s"
  by (induction s) auto

lemma safe_char_underscore [simp]: "safe_char (CHR ''_'')"
  by (simp add: safe_char_def)

lemma safe_char_not_separator: "safe_char c \<Longrightarrow> c \<notin> set path_separators"
  by (auto simp: safe_char_def path_separators_def isalnum_def)

lemma sanitize_loop_safe: "list_all safe_char (sanitize_loop base [])"
  by (auto simp: sanitize_loop_eq list_all_iff)

lemma sanitize_filename_safe:
  "list_all safe_char (sanitize_filename f) \<and> sanitize_filename f \<noteq> [] \<and>
   hd (sanitize_filename f) \<noteq> CHR ''.''"
proof (cases "erase_leading_dots (sanitize_loop (basename_from_path f) []) = []")
  case True
  then have "sanitize_filename f = ''file''"
    by (simp add: sanitize_filename_def)
  then show ?thesis
    by (simp add: safe_char_def isalnum_def)
next
  case False
  let ?s = "sanitize_loop (basename_from_path f) []"
  have eq: "sanitize_filename f = dropWhile (\<lambda>c. c = CHR ''.'') ?s"
    using False by (auto simp: sanitize_filename_def erase_leading_dots_eq Let_def)
  moreover have "list_all safe_char (dropWhile (\<lambda>c. c = CHR ''.'') ?s)"
    using sanitize_loop_safe [of "basename_from_path f"]
    by (auto simp: list_all_iff dest: set_dropWhileD)
  moreover have "dropWhile (\<lambda>c. c = CHR ''.'') ?s \<noteq> []"
    using False by (simp add: erase_leading_dots_eq)
  ultimately show ?thesis
    using hd_dropWhile [of "\<lambda>c. c = CHR ''.''" ?s] by auto
qed

lemma sanitize_filename_fixes_safe:
  assumes "list_all safe_char s" and "s \<noteq> []" and "hd s \<noteq> CHR ''.''"
  shows "sanitize_filename s = s"
proof -
  have "set s \<inter> set path_separators = {}"
    using assms(1) safe_char_not_separator by (auto simp: list_all_iff)
  then have "basename_from_path s = s"
    by (rule basename_plain)
  moreover have "sanitize_loop s [] = s"
    using assms(1) by (auto simp: sanitize_loop_eq list_all_iff intro: map_idI)
  moreover have "erase_leading_dots s = s"
    using assms(2,3) by (cases s) auto
  ultimately show ?thesis
    using assms(2) by (simp add: sanitize_filename_def Let_def)
qed

lemma sanitize_filename_idem: "sanitize_filename (sanitize_filename f) = sanitize_filename f"
  using sanitize_filename_safe [of f] by (intro sanitize_filename_fixes_safe) auto

lemma sanitize_filename_basename: "sanitize_filename (basename_from_path f) = sanitize_filename f"
  by (simp add: sanitize_filename_def basename_idem)

lemma length_sanitize_filename: "length (sanitize_filename f) \<le> max 4 (length f)"
proof -
  let ?s = "erase_leading_dots (sanitize_loop (basename_from_path f) [])"
  have "length ?s \<le> length (basename_from_path f)"
    using length_dropWhile_le [of _ "sanitize_loop (basename_from_path f) []"]
    by (simp add: erase_leading_dots_eq sanitize_loop_eq)
  also have "\<dots> \<le> length f"
    by (auto simp: basename_from_path_def split: option.splits)
  finally show ?thesis
    by (auto simp: sanitize_filename_def Let_def)
qed

subsection \<open>Output paths\<close>

text \<open>Joining a plain name to any directory keeps the name as the last path component.\<close>

lemma join_output_path_cases:
  obtains "join_output_path d s = s"
  | d' c where "c \<in> set path_separators" and "join_output_path d s = d' @ c # s"
proof (cases "d = [] \<or> d = ''.''")
  case True
  then show ?thesis
    by (intro that(1)) (auto simp: join_output_path_def)
next
  case False
  then have d: "d = butlast d @ [last d]" by simp
  show ?thesis
  proof (cases "last d \<in> set path_separators")
    case True
    with False have "join_output_path d s = butlast d @ last d # s"
      by (subst (3) d) (auto simp: join_output_path_def path_separators_def)
    with True show ?thesis by (rule that(2))
  next
    case nosep: False
    with False have "join_output_path d s = d @ CHR ''/'' # s"
      by (auto simp: join_output_path_def path_separators_def)
    then show ?thesis
      by (intro that(2)) (auto simp: path_separators_def)
  qed
qed

lemma join_output_path_basename:
  assumes "set s \<inter> set path_separators = {}"
  shows "basename_from_path (join_output_path d s) = s"
  by (cases d s rule: join_output_path_cases)
    (simp_all add: basename_plain basename_append_separator assms)

subsection \<open>Property\<close>

text \<open>
  C33: whatever name a peer announces, the sanitised name is not empty, does not start with a
  dot, consists of letters, digits, dots, dashes and underscores only, and is a plain file
  name: joined to the output directory it names an entry of that directory, which is in front of
  it unchanged, with a slash between the two if it needs one. Sanitising again changes nothing.
\<close>

theorem sanitize_filename_plain:
  "sanitize_filename f \<noteq> [] \<and> hd (sanitize_filename f) \<noteq> CHR ''.'' \<and>
   list_all (\<lambda>c. isalnum c \<or> c \<in> set ''.-_'') (sanitize_filename f) \<and>
   basename_from_path (join_output_path d (sanitize_filename f)) = sanitize_filename f \<and>
   (\<exists>sep \<in> {[], ''/''}. join_output_path d (sanitize_filename f) =
      (if d = [] \<or> d = ''.'' then [] else d @ sep) @ sanitize_filename f) \<and>
   sanitize_filename (sanitize_filename f) = sanitize_filename f"
proof -
  have safe: "list_all safe_char (sanitize_filename f)"
    using sanitize_filename_safe by blast
  then have "set (sanitize_filename f) \<inter> set path_separators = {}"
    using safe_char_not_separator by (auto simp: list_all_iff)
  then have "basename_from_path (join_output_path d (sanitize_filename f)) = sanitize_filename f"
    by (rule join_output_path_basename)
  moreover have "list_all (\<lambda>c. isalnum c \<or> c \<in> set ''.-_'') (sanitize_filename f)"
    using safe by (simp add: safe_char_def list_all_iff)
  moreover have "\<exists>sep \<in> {[], ''/''}. join_output_path d (sanitize_filename f) =
      (if d = [] \<or> d = ''.'' then [] else d @ sep) @ sanitize_filename f"
    by (simp add: join_output_path_def Let_def)
  ultimately show ?thesis
    using sanitize_filename_safe [of f] sanitize_filename_idem by blast
qed

end
