(* ===== verification/Chunk_Plan.thy ===== *)
theory Chunk_Plan
  imports Protocol File_Utils Chunk_Codec
begin

text \<open>
  How a file is cut into chunks: \<open>payload_size_for_chunk\<close> and \<open>bytes_for_chunks\<close>, which
  \<open>apps/sender.cpp\<close> and \<open>apps/receiver.cpp\<close> both define, and the arithmetic that connects the
  64-bit computations of the code with the intervals of natural numbers they stand for.
\<close>

definition payload_size_for_chunk :: "FileManifest \<Rightarrow> u64 \<Rightarrow> u32" where
  "payload_size_for_chunk manifest chunk_index =
     (let offset = chunk_index * ucast (fm_chunk_size manifest);
          remaining = fm_file_size manifest - offset
      in ucast (min remaining (ucast (fm_chunk_size manifest))))"

fun bytes_loop :: "FileManifest \<Rightarrow> u64 list \<Rightarrow> u64 \<Rightarrow> u64" where
  "bytes_loop manifest [] acc = acc"
| "bytes_loop manifest (index # chunk_indexes) acc =
     bytes_loop manifest chunk_indexes (acc + ucast (payload_size_for_chunk manifest index))"

definition bytes_for_chunks :: "FileManifest \<Rightarrow> u64 list \<Rightarrow> u64" where
  "bytes_for_chunks manifest chunk_indexes = bytes_loop manifest chunk_indexes 0"

text \<open>
  The manifest in natural numbers. A manifest is consistent when its chunk count is the one
  the receiver recomputes; that computation is done modulo \<open>2 ^ 64\<close>.
\<close>

definition manifest_consistent :: "FileManifest \<Rightarrow> bool" where
  "manifest_consistent m \<longleftrightarrow>
     fm_chunk_size m \<noteq> 0 \<and> fm_chunk_count m = chunk_count (fm_file_size m) (fm_chunk_size m)"

definition fsz :: "FileManifest \<Rightarrow> nat" where
  "fsz m = unat (fm_file_size m)"

definition csz :: "FileManifest \<Rightarrow> nat" where
  "csz m = unat (fm_chunk_size m)"

definition cnt :: "FileManifest \<Rightarrow> nat" where
  "cnt m = unat (fm_chunk_count m)"

definition span_start :: "FileManifest \<Rightarrow> nat \<Rightarrow> nat" where
  "span_start m i = i * csz m"

definition span_len :: "FileManifest \<Rightarrow> nat \<Rightarrow> nat" where
  "span_len m i = min (csz m) (fsz m - i * csz m)"

definition chunk_bytes :: "FileManifest \<Rightarrow> bytes \<Rightarrow> nat \<Rightarrow> bytes" where
  "chunk_bytes m data i = take (span_len m i) (drop (span_start m i) data)"

subsection \<open>Chunk counts\<close>

lemma unat_ucast_u32 [simp]: "unat (ucast (x :: u32) :: u64) = unat x"
  using unat_bound [of x] by (simp add: unsigned_ucast_eq take_bit_nat_eq_self)

lemma ceil_div_bounds:
  fixes f c :: nat
  assumes "0 < c"
  shows "i < (f + c - 1) div c \<longleftrightarrow> i * c < f"
proof -
  have "i < (f + c - 1) div c \<longleftrightarrow> Suc i * c \<le> f + c - 1"
    using assms by (simp add: less_eq_div_iff_mult_less_eq flip: Suc_le_eq)
  also have "\<dots> \<longleftrightarrow> i * c < f"
    using assms by auto
  finally show ?thesis .
qed

lemma unat_ceil_sum:
  assumes "c \<noteq> 0"
  shows "unat (s + ucast (c :: u32) - 1 :: u64) = (unat s + unat c - 1) mod 2 ^ 64"
proof -
  have pos: "0 < unat c"
    using assms by (simp add: unat_gt_0)
  have "s + ucast c - 1 = (of_nat (unat s + unat c - 1) :: u64)"
    using pos by (simp add: of_nat_diff)
  then show ?thesis
    by (simp only: unat_of_nat) simp
qed

lemma unat_chunk_count:
  assumes "c \<noteq> 0"
  shows "unat (chunk_count s c) =
     (if unat s + unat c - 1 < 2 ^ 64 then (unat s + unat c - 1) div unat c else 0)"
proof -
  have pos: "0 < unat c"
    using assms by (simp add: unat_gt_0)
  have eq: "unat (chunk_count s c) = ((unat s + unat c - 1) mod 2 ^ 64) div unat c"
    using assms by (simp add: chunk_count_def unat_div_distrib unat_ceil_sum)
  show ?thesis
  proof (cases "unat s + unat c - 1 < 2 ^ 64")
    case True
    then show ?thesis by (simp add: eq)
  next
    case False
    have "unat s < 2 ^ 64" and "unat c < 2 ^ 32"
      using unat_bound [of s] unat_bound [of c] by simp_all
    then have "unat s + unat c - 1 - 2 ^ 64 < unat c" and "unat s + unat c - 1 < 2 * 2 ^ 64"
      using pos by simp_all
    moreover from this False have "(unat s + unat c - 1) mod 2 ^ 64 = unat s + unat c - 1 - 2 ^ 64"
      by (simp add: mod_if)
    ultimately show ?thesis
      using False eq by simp
  qed
qed

subsection \<open>Spans\<close>

lemma fsz_bound: "fsz m < 2 ^ 64"
  using unat_bound [of "fm_file_size m"] by (simp add: fsz_def)

lemma csz_bound: "csz m < 2 ^ 32"
  using unat_bound [of "fm_chunk_size m"] by (simp add: csz_def)

lemma csz_pos: "manifest_consistent m \<Longrightarrow> 0 < csz m"
  by (simp add: manifest_consistent_def csz_def unat_gt_0)

lemma cnt_eq:
  "manifest_consistent m \<Longrightarrow>
     cnt m = (if fsz m + csz m - 1 < 2 ^ 64 then (fsz m + csz m - 1) div csz m else 0)"
  by (simp add: manifest_consistent_def cnt_def fsz_def csz_def unat_chunk_count)

lemma less_cnt_iff:
  "manifest_consistent m \<Longrightarrow> i < cnt m \<longleftrightarrow> fsz m + csz m - 1 < 2 ^ 64 \<and> i * csz m < fsz m"
  using ceil_div_bounds [OF csz_pos, of m i "fsz m"] by (simp add: cnt_eq)

lemma span_start_less: "manifest_consistent m \<Longrightarrow> i < cnt m \<Longrightarrow> span_start m i < fsz m"
  by (simp add: less_cnt_iff span_start_def)

lemma span_len_bounds:
  assumes "manifest_consistent m" and "i < cnt m"
  shows "0 < span_len m i" and "span_len m i \<le> csz m"
    and "span_start m i + span_len m i \<le> fsz m"
  using span_start_less [OF assms] csz_pos [OF assms(1)]
  by (simp_all add: span_len_def span_start_def)

lemma span_len_cases:
  assumes "manifest_consistent m" and "i < cnt m"
  shows "span_len m i = (if Suc i = cnt m then fsz m - i * csz m else csz m)"
proof (cases "Suc i = cnt m")
  case True
  then have "fsz m \<le> Suc i * csz m"
    using less_cnt_iff [OF assms(1), of "Suc i"] less_cnt_iff [OF assms(1), of i] assms(2) by simp
  then have "fsz m - i * csz m \<le> csz m" by simp
  with True show ?thesis
    by (simp add: span_len_def)
next
  case False
  then have "Suc i < cnt m"
    using assms(2) by simp
  then have "Suc i * csz m < fsz m"
    using less_cnt_iff [OF assms(1), of "Suc i"] by simp
  with False show ?thesis
    by (simp add: span_len_def)
qed

lemma unat_offset:
  assumes "manifest_consistent m" and "unat i < cnt m"
  shows "unat (i * ucast (fm_chunk_size m) :: u64) = span_start m (unat i)"
proof -
  have "unat i * csz m < 2 ^ 64"
    using span_start_less [OF assms] fsz_bound [of m] by (simp add: span_start_def)
  then show ?thesis
    by (simp add: unat_word_ariths span_start_def csz_def)
qed

lemma unat_payload_size:
  assumes "manifest_consistent m" and "unat i < cnt m"
  shows "unat (payload_size_for_chunk m i) = span_len m (unat i)"
proof -
  let ?off = "i * ucast (fm_chunk_size m)"
  have "unat ?off < unat (fm_file_size m)"
    using span_start_less [OF assms] by (simp add: unat_offset [OF assms] fsz_def)
  then have "unat (fm_file_size m - ?off) = fsz m - span_start m (unat i)"
    by (simp add: unat_sub word_le_nat_alt unat_offset [OF assms] fsz_def)
  then have mn: "unat (min (fm_file_size m - ?off) (ucast (fm_chunk_size m))) = span_len m (unat i)"
    by (auto simp: min_def word_le_nat_alt span_len_def csz_def span_start_def)
  moreover have "span_len m (unat i) < 2 ^ 32"
    using csz_bound [of m] by (simp add: span_len_def)
  ultimately show ?thesis
    by (simp add: payload_size_for_chunk_def Let_def unsigned_ucast_eq take_bit_nat_eq_self)
qed

subsection \<open>Header validation against the spans\<close>

lemma unat_Suc_index:
  assumes "unat i < cnt m"
  shows "unat (i + 1 :: u64) = Suc (unat i)"
proof -
  have "Suc (unat i) < 2 ^ 64"
    using assms unat_bound [of "fm_chunk_count m"] by (simp add: cnt_def)
  then show ?thesis
    by (simp add: unat_word_ariths)
qed

lemma unat_expected_size:
  assumes "manifest_consistent m" and "unat i < cnt m"
    and "ofs = i * ucast (fm_chunk_size m)"
  shows "unat (if i + 1 = fm_chunk_count m then fm_file_size m - ofs
               else ucast (fm_chunk_size m)) = span_len m (unat i)"
proof -
  have "i + 1 = fm_chunk_count m \<longleftrightarrow> Suc (unat i) = cnt m"
    by (simp add: word_unat_eq_iff unat_Suc_index [OF assms(2)] cnt_def)
  moreover have "unat (fm_file_size m - ofs) = fsz m - unat i * csz m"
    using span_start_less [OF assms(1,2)] unat_offset [OF assms(1,2)] assms(3)
    by (simp add: unat_sub word_le_nat_alt fsz_def span_start_def)
  ultimately show ?thesis
    by (simp add: span_len_cases [OF assms(1,2)] csz_def)
qed

lemma validate_chunk_header_iff:
  assumes "manifest_consistent m"
  shows "validate_chunk_header m h \<longleftrightarrow>
     ch_session_id h = fm_session_id m \<and> unat (ch_chunk_index h) < cnt m \<and>
     unat (ch_byte_offset h) = span_start m (unat (ch_chunk_index h)) \<and>
     unat (ch_payload_size h) = span_len m (unat (ch_chunk_index h))"
proof (cases "unat (ch_chunk_index h) < cnt m")
  case False
  then show ?thesis
    by (simp add: validate_chunk_header_def word_le_nat_alt cnt_def not_less)
next
  case True
  let ?i = "unat (ch_chunk_index h)"
  let ?off = "ch_chunk_index h * ucast (fm_chunk_size m) :: u64"
  note start = unat_offset [OF assms True] and sz = unat_expected_size [OF assms True refl]
  note bounds = span_len_bounds [OF assms True] span_start_less [OF assms True]
  have off: "ch_byte_offset h = ?off \<longleftrightarrow> unat (ch_byte_offset h) = span_start m ?i"
    by (simp add: word_unat_eq_iff start)
  have len: "ucast (ch_payload_size h) =
      (if ch_chunk_index h + 1 = fm_chunk_count m then fm_file_size m - ?off
       else ucast (fm_chunk_size m)) \<longleftrightarrow> unat (ch_payload_size h) = span_len m ?i"
    by (subst word_unat_eq_iff) (simp only: sz unat_ucast_u32)
  have nowrap: "unat (?off + ucast (ch_payload_size h)) = span_start m ?i + span_len m ?i"
    if "unat (ch_payload_size h) = span_len m ?i"
    using that bounds(3) fsz_bound [of m] by (simp add: unat_word_ariths(1) start)
  show ?thesis
  proof (cases "ch_byte_offset h = ?off \<and> unat (ch_payload_size h) = span_len m ?i")
    case True
    then have "ch_payload_size h \<noteq> 0" and "\<not> ch_payload_size h > fm_chunk_size m"
      using bounds(1,2) by (auto simp: word_less_nat_alt csz_def unat_eq_0)
    moreover have "\<not> ?off \<ge> fm_file_size m"
      and "\<not> ?off + ucast (ch_payload_size h) > fm_file_size m"
      using bounds(3,4) nowrap True by (auto simp: word_less_nat_alt word_le_nat_alt start fsz_def)
    moreover have "fm_chunk_size m \<noteq> 0" and "\<not> ch_chunk_index h \<ge> fm_chunk_count m"
      using assms \<open>?i < cnt m\<close> by (auto simp: manifest_consistent_def word_le_nat_alt cnt_def)
    ultimately show ?thesis
      using True len off \<open>?i < cnt m\<close> by (simp add: validate_chunk_header_def Let_def)
  next
    case False
    then show ?thesis
      using len off by (auto simp: validate_chunk_header_def Let_def split: if_splits)
  qed
qed

subsection \<open>The chunks tile the file\<close>

lemma chunk_bytes_eq:
  "length data = fsz m \<Longrightarrow> chunk_bytes m data i = take (csz m) (drop (i * csz m) data)"
  by (simp add: chunk_bytes_def span_len_def span_start_def min_def)

lemma length_chunk_bytes:
  "length data = fsz m \<Longrightarrow> length (chunk_bytes m data i) = span_len m i"
  by (simp add: chunk_bytes_eq span_len_def min.commute)

lemma concat_chunk_bytes:
  assumes "length data = fsz m"
  shows "concat (map (chunk_bytes m data) [0..<k]) = take (k * csz m) data"
  by (induction k) (simp_all add: chunk_bytes_eq [OF assms] take_add [symmetric] add.commute)

lemma chunks_tile:
  assumes "manifest_consistent m" and "fsz m + csz m - 1 < 2 ^ 64" and "length data = fsz m"
  shows "concat (map (chunk_bytes m data) [0..<cnt m]) = data"
proof -
  have "\<not> cnt m * csz m < fsz m"
    using less_cnt_iff [OF assms(1), of "cnt m"] assms(2) by simp
  then show ?thesis
    using assms(3) by (simp add: concat_chunk_bytes)
qed

lemma sum_span_len:
  assumes "manifest_consistent m" and "fsz m + csz m - 1 < 2 ^ 64"
  shows "(\<Sum>i<cnt m. span_len m i) = fsz m"
proof -
  let ?data = "replicate (fsz m) (0 :: u8)"
  have "fsz m = length (concat (map (chunk_bytes m ?data) [0..<cnt m]))"
    using chunks_tile [OF assms, of ?data] by simp
  also have "\<dots> = sum_list (map (span_len m) [0..<cnt m])"
    by (simp add: length_concat comp_def length_chunk_bytes)
  finally show ?thesis
    by (simp add: interv_sum_list_conv_sum_set_nat atLeast0LessThan)
qed

lemma sum_span_len_le:
  assumes "manifest_consistent m" and "\<forall>i \<in> A. i < cnt m"
  shows "(\<Sum>i\<in>A. span_len m i) \<le> fsz m"
proof (cases "A = {}")
  case False
  then obtain i where "i < cnt m"
    using assms(2) by auto
  then have "fsz m + csz m - 1 < 2 ^ 64"
    using less_cnt_iff [OF assms(1)] by simp
  moreover have "(\<Sum>i\<in>A. span_len m i) \<le> (\<Sum>i<cnt m. span_len m i)"
    using assms(2) by (intro sum_mono2) auto
  ultimately show ?thesis
    by (simp add: sum_span_len [OF assms(1)])
qed simp

subsection \<open>Byte totals\<close>

lemma unat_bytes_loop:
  assumes "manifest_consistent m" and "\<forall>i \<in> set idxs. unat i < cnt m" and "distinct idxs"
    and "unat acc + (\<Sum>i\<leftarrow>idxs. span_len m (unat i)) < 2 ^ 64"
  shows "unat (bytes_loop m idxs acc) = unat acc + (\<Sum>i\<leftarrow>idxs. span_len m (unat i))"
  using assms(2-4)
proof (induction idxs arbitrary: acc)
  case Nil
  then show ?case by simp
next
  case (Cons i idxs)
  have sz: "unat (payload_size_for_chunk m i) = span_len m (unat i)"
    using Cons.prems(1) by (intro unat_payload_size [OF assms(1)]) simp
  then have "unat (acc + ucast (payload_size_for_chunk m i)) = unat acc + span_len m (unat i)"
    using Cons.prems(3) by (simp add: unat_word_ariths(1))
  then show ?case
    using Cons by simp
qed

lemma unat_bytes_for_chunks:
  assumes "manifest_consistent m" and "\<forall>i \<in> set idxs. unat i < cnt m" and "distinct idxs"
  shows "unat (bytes_for_chunks m idxs) = (\<Sum>i\<leftarrow>idxs. span_len m (unat i))"
    and "unat (bytes_for_chunks m idxs) \<le> fsz m"
proof -
  have "inj_on unat (set idxs)"
    by (simp add: inj_on_def word_unat_eq_iff)
  then have eq: "(\<Sum>i\<leftarrow>idxs. span_len m (unat i)) = (\<Sum>i\<in>unat ` set idxs. span_len m i)"
    using assms(3) by (simp add: sum_list_distinct_conv_sum_set sum.reindex)
  then have le: "(\<Sum>i\<leftarrow>idxs. span_len m (unat i)) \<le> fsz m"
    using assms(2) sum_span_len_le [OF assms(1), of "unat ` set idxs"] by simp
  then have "(\<Sum>i\<leftarrow>idxs. span_len m (unat i)) < 2 ^ 64"
    using fsz_bound [of m] by simp
  then show "unat (bytes_for_chunks m idxs) = (\<Sum>i\<leftarrow>idxs. span_len m (unat i))"
    using unat_bytes_loop [OF assms, of 0] by (simp add: bytes_for_chunks_def)
  with le show "unat (bytes_for_chunks m idxs) \<le> fsz m" by simp
qed

subsection \<open>Chunks on the wire\<close>

text \<open>
  The header that describes a chunk, and the requested chunks in the order of the request:
  the stream that the sender has to produce and the receiver to consume.
\<close>

definition chunk_header_for :: "FileManifest \<Rightarrow> u64 \<Rightarrow> ChunkHeader" where
  "chunk_header_for m i =
     \<lparr>ch_session_id = fm_session_id m, ch_chunk_index = i,
      ch_byte_offset = i * ucast (fm_chunk_size m), ch_payload_size = payload_size_for_chunk m i\<rparr>"

definition chunk_stream :: "FileManifest \<Rightarrow> bytes \<Rightarrow> u64 list \<Rightarrow> bytes" where
  "chunk_stream m data is =
     concat (map (\<lambda>i. serialize_chunk_header (chunk_header_for m i) @ chunk_bytes m data (unat i)) is)"

lemma chunk_stream_simps [simp]:
  "chunk_stream m data [] = []"
  "chunk_stream m data (i # is) =
     serialize_chunk_header (chunk_header_for m i) @ chunk_bytes m data (unat i) @
     chunk_stream m data is"
  by (simp_all add: chunk_stream_def)

lemma validated_header:
  assumes "manifest_consistent m" and "validate_chunk_header m h"
  shows "h = chunk_header_for m (ch_chunk_index h)" and "unat (ch_chunk_index h) < cnt m"
proof -
  note v = assms(2) [unfolded validate_chunk_header_iff [OF assms(1)]]
  then show i: "unat (ch_chunk_index h) < cnt m"
    by simp
  have "ch_byte_offset h = ch_chunk_index h * ucast (fm_chunk_size m)"
    and "ch_payload_size h = payload_size_for_chunk m (ch_chunk_index h)"
    using v unat_offset [OF assms(1) i] unat_payload_size [OF assms(1) i]
    by (simp_all add: word_unat_eq_iff)
  then show "h = chunk_header_for m (ch_chunk_index h)"
    using v by (simp add: chunk_header_for_def)
qed

lemma validate_chunk_header_for:
  assumes "manifest_consistent m" and "unat i < cnt m"
  shows "validate_chunk_header m (chunk_header_for m i)"
  using assms by (simp add: validate_chunk_header_iff chunk_header_for_def unat_offset unat_payload_size)

subsection \<open>Properties\<close>

text \<open>
  C13: the receiver's validation accepts a header for a consistent manifest exactly when it is
  the header the sender builds for an existing chunk: the offset arithmetic on 64 bits neither
  wraps nor leaves another header acceptable.
\<close>

theorem chunk_header_validation:
  assumes "manifest_consistent m"
  shows "validate_chunk_header m h \<longleftrightarrow>
    ch_chunk_index h < fm_chunk_count m \<and> h = chunk_header_for m (ch_chunk_index h) \<and>
    unat (ch_byte_offset h) + unat (ch_payload_size h) \<le> unat (fm_file_size m)"
  (is "?l \<longleftrightarrow> ?r")
proof
  assume ?l
  then show ?r
    using validated_header [OF assms] assms span_len_bounds(3) [OF assms, of "unat (ch_chunk_index h)"]
    by (simp add: validate_chunk_header_iff cnt_def fsz_def word_less_nat_alt)
next
  assume ?r
  then show ?l
    using validate_chunk_header_for [OF assms, of "ch_chunk_index h"]
    by (simp add: cnt_def word_less_nat_alt)
qed

theorem chunk_header_validation_witness:
  "validate_chunk_header
     (FileManifest_init\<lparr>fm_file_size := 65537, fm_chunk_count := 2\<rparr>)
     \<lparr>ch_session_id = 0, ch_chunk_index = 1, ch_byte_offset = 65536, ch_payload_size = 1\<rparr>"
  using chunk_header_validation [of "FileManifest_init\<lparr>fm_file_size := 65537, fm_chunk_count := 2\<rparr>"
      "\<lparr>ch_session_id = 0, ch_chunk_index = 1, ch_byte_offset = 65536, ch_payload_size = 1\<rparr>"]
  by (simp add: manifest_consistent_def chunk_count_def FileManifest_init_def kDefaultChunkSize_def
      chunk_header_for_def payload_size_for_chunk_def)

text \<open>
  C14: the chunks of a file, taken in order, are the file: no byte is lost, repeated or out of
  place, and each chunk has the size that both applications compute for it.
\<close>

theorem chunks_are_the_file:
  fixes data :: bytes
  assumes "manifest_consistent m" and "unat (fm_file_size m) + unat (fm_chunk_size m) - 1 < 2 ^ 64"
    and "length data = unat (fm_file_size m)"
  shows "concat (map (\<lambda>i. take (unat (payload_size_for_chunk m i))
      (drop (unat (i * ucast (fm_chunk_size m))) data)) (map of_nat [0..<unat (fm_chunk_count m)])) = data"
proof -
  have chunk: "take (unat (payload_size_for_chunk m (of_nat k)))
      (drop (unat (of_nat k * ucast (fm_chunk_size m) :: u64)) data) = chunk_bytes m data k"
    if "k < cnt m" for k
  proof -
    have "unat (of_nat k :: u64) = k"
      using that unat_bound [of "fm_chunk_count m"] by (simp add: cnt_def unat_of_nat)
    then show ?thesis
      using that unat_payload_size [OF assms(1), of "of_nat k"] unat_offset [OF assms(1), of "of_nat k"]
      by (simp add: chunk_bytes_def)
  qed
  have "concat (map (chunk_bytes m data) [0..<cnt m]) = data"
    using chunks_tile [OF assms(1)] assms(2,3) by (simp add: fsz_def csz_def)
  moreover have "map (\<lambda>k. take (unat (payload_size_for_chunk m (of_nat k)))
      (drop (unat (of_nat k * ucast (fm_chunk_size m) :: u64)) data)) [0..<cnt m] =
      map (chunk_bytes m data) [0..<cnt m]"
    by (intro map_cong refl) (simp only: chunk atLeastLessThan_iff set_upt)
  ultimately show ?thesis
    unfolding cnt_def map_map comp_def by (simp only:)
qed

theorem chunks_are_the_file_witness:
  "concat (map (\<lambda>i. take (unat (payload_size_for_chunk
      (FileManifest_init\<lparr>fm_file_size := 5, fm_chunk_size := 2, fm_chunk_count := 3\<rparr>) i))
      (drop (unat (i * ucast (2 :: u32))) [1, 2, 3, 4, 5])) [0, 1, 2]) = [1, 2, 3, 4, 5 :: u8]"
  using chunks_are_the_file [of "FileManifest_init\<lparr>fm_file_size := 5, fm_chunk_size := 2,
      fm_chunk_count := 3\<rparr>" "[1, 2, 3, 4, 5]"]
  by (simp add: manifest_consistent_def chunk_count_def FileManifest_init_def upt_rec)

text \<open>
  The byte total shown by the progress display is the exact sum of the sizes of the
  requested chunks, computed without overflow, and never more than the file.
\<close>

lemma bytes_for_chunks_exact:
  assumes "manifest_consistent m" and "distinct idxs" and "set idxs \<subseteq> {i. i < fm_chunk_count m}"
  shows "unat (bytes_for_chunks m idxs) = (\<Sum>i\<leftarrow>idxs. unat (payload_size_for_chunk m i)) \<and>
    unat (bytes_for_chunks m idxs) \<le> unat (fm_file_size m)"
proof -
  have i: "\<forall>i \<in> set idxs. unat i < cnt m"
    using assms(3) by (auto simp: cnt_def word_less_nat_alt)
  have "(\<Sum>i\<leftarrow>idxs. unat (payload_size_for_chunk m i)) = (\<Sum>i\<leftarrow>idxs. span_len m (unat i))"
    using i unat_payload_size [OF assms(1)] by (intro arg_cong [of _ _ sum_list] map_cong) auto
  then show ?thesis
    using unat_bytes_for_chunks [OF assms(1) i assms(2)] by (simp_all add: fsz_def)
qed

lemma bytes_for_chunks_example:
  "unat (bytes_for_chunks (FileManifest_init\<lparr>fm_file_size := 65537, fm_chunk_count := 2\<rparr>) [0, 1]) = 65537"
  using bytes_for_chunks_exact [of "FileManifest_init\<lparr>fm_file_size := 65537, fm_chunk_count := 2\<rparr>" "[0, 1]"]
  by (simp add: manifest_consistent_def chunk_count_def FileManifest_init_def kDefaultChunkSize_def
      payload_size_for_chunk_def)

end
