(* ===== verification/Manifest_Codec.thy ===== *)
theory Manifest_Codec
  imports Wire Protocol Chunk_Plan
begin

text \<open>
  \<open>src/transfer/manifest_codec.cpp\<close>: the file manifest, a length-prefixed frame with a
  variable-length file name at the end. The two flag bytes are written as zero and ignored
  when read, and the digest field of the struct is not transmitted at all.
\<close>

definition kManifestMagic :: u32 where
  "kManifestMagic = 0x5042464d"

definition kManifestHeaderSize :: nat where
  "kManifestHeaderSize = 4 + 2 + 2 + 8 + 4 + 8 + 8 + 2"

definition serialize_file_manifest :: "FileManifest \<Rightarrow> bytes" where
  "serialize_file_manifest manifest =
     (if length (fm_filename manifest) > kMaxFilenameLength then []
      else
        let payload = append_u32 [] kManifestMagic;
            payload = append_u16 payload (fm_protocol_version manifest);
            payload = append_u16 payload (of_nat (length (fm_filename manifest)));
            payload = append_u64 payload (fm_file_size manifest);
            payload = append_u32 payload (fm_chunk_size manifest);
            payload = append_u64 payload (fm_chunk_count manifest);
            payload = append_u64 payload (fm_session_id manifest);
            payload = append_u16 payload 0;
            payload = payload @ bytes_of_string (fm_filename manifest);
            payload_size = of_nat (length payload) :: u32;
            frame = append_u32 [] payload_size
        in frame @ payload)"

definition deserialize_file_manifest ::
    "bytes \<Rightarrow> FileManifest \<Rightarrow> (bool \<times> FileManifest) option" where
  "deserialize_file_manifest frame manifest =
     (if length frame < 4 then Some (False, manifest)
      else do {
        (payload_size, offset) \<leftarrow> read_u32 frame 0;
        if unat payload_size < kManifestHeaderSize \<or>
           unat payload_size > kManifestHeaderSize + kMaxFilenameLength \<or>
           length frame \<noteq> 4 + unat payload_size
        then Some (False, manifest)
        else do {
          let payload = drop 4 frame;
          (magic, offset) \<leftarrow> read_u32 payload 0;
          if magic \<noteq> kManifestMagic then Some (False, manifest)
          else do {
            (protocol_version, offset) \<leftarrow> read_u16 payload offset;
            let manifest = manifest\<lparr>fm_protocol_version := protocol_version\<rparr>;
            (filename_size, offset) \<leftarrow> read_u16 payload offset;
            (file_size, offset) \<leftarrow> read_u64 payload offset;
            let manifest = manifest\<lparr>fm_file_size := file_size\<rparr>;
            (chunk_size, offset) \<leftarrow> read_u32 payload offset;
            let manifest = manifest\<lparr>fm_chunk_size := chunk_size\<rparr>;
            (chunk_count, offset) \<leftarrow> read_u64 payload offset;
            let manifest = manifest\<lparr>fm_chunk_count := chunk_count\<rparr>;
            (session_id, offset) \<leftarrow> read_u64 payload offset;
            let manifest = manifest\<lparr>fm_session_id := session_id\<rparr>;
            (flags, offset) \<leftarrow> read_u16 payload offset;
            if fm_protocol_version manifest \<noteq> kProtocolVersion \<or>
               filename_size = 0 \<or>
               unat filename_size > kMaxFilenameLength \<or>
               offset + unat filename_size \<noteq> length payload \<or>
               fm_chunk_size manifest = 0
            then Some (False, manifest)
            else
              let expected_chunks =
                    (fm_file_size manifest + ucast (fm_chunk_size manifest) - 1) div
                    ucast (fm_chunk_size manifest)
              in if fm_chunk_count manifest \<noteq> expected_chunks then Some (False, manifest)
                 else Some (True, manifest\<lparr>fm_filename := string_of_bytes (drop offset payload),
                                           fm_file_sha256 := replicate kSha256DigestSize 0\<rparr>)
          }
        }
      })"

text \<open>The manifests the codec can carry, and what of a manifest arrives.\<close>

definition manifest_wf :: "FileManifest \<Rightarrow> bool" where
  "manifest_wf m \<longleftrightarrow>
     manifest_consistent m \<and> fm_protocol_version m = kProtocolVersion \<and>
     0 < length (fm_filename m) \<and> length (fm_filename m) \<le> kMaxFilenameLength"

definition manifest_received :: "FileManifest \<Rightarrow> FileManifest" where
  "manifest_received m = m\<lparr>fm_file_sha256 := replicate kSha256DigestSize 0\<rparr>"

text \<open>
  The frame as the reader sees it: \<open>manifest_frame m flags\<close> is the encoding of \<open>m\<close> with
  the given flag field.
\<close>

definition manifest_frame :: "FileManifest \<Rightarrow> u16 \<Rightarrow> bytes" where
  "manifest_frame m flags =
     be_bytes 4 (of_nat (38 + length (fm_filename m)) :: u32) @ be_bytes 4 kManifestMagic @
     be_bytes 2 (fm_protocol_version m) @ be_bytes 2 (of_nat (length (fm_filename m)) :: u16) @
     be_bytes 8 (fm_file_size m) @ be_bytes 4 (fm_chunk_size m) @ be_bytes 8 (fm_chunk_count m) @
     be_bytes 8 (fm_session_id m) @ be_bytes 2 flags @ bytes_of_string (fm_filename m)"

lemma serialize_file_manifest_eq [codec_simps]:
  "length (fm_filename m) \<le> 255 \<Longrightarrow> serialize_file_manifest m = manifest_frame m 0"
  by (simp add: serialize_file_manifest_def manifest_frame_def kMaxFilenameLength_def codec_simps
      Let_def)

lemma serialize_file_manifest_refuses:
  "255 < length (fm_filename m) \<Longrightarrow> serialize_file_manifest m = []"
  by (simp add: serialize_file_manifest_def kMaxFilenameLength_def)

lemma length_manifest_frame: "length (manifest_frame m flags) = 42 + length (fm_filename m)"
  by (simp add: manifest_frame_def)

subsection \<open>Decoding, field by field\<close>

definition manifest_fields :: "bytes \<Rightarrow> FileManifest \<Rightarrow> FileManifest" where
  "manifest_fields frame m = m
     \<lparr>fm_protocol_version := be_word (take 2 (drop 8 frame)),
      fm_file_size := be_word (take 8 (drop 12 frame)),
      fm_chunk_size := be_word (take 4 (drop 20 frame)),
      fm_chunk_count := be_word (take 8 (drop 24 frame)),
      fm_session_id := be_word (take 8 (drop 32 frame))\<rparr>"

definition manifest_body :: "bytes \<Rightarrow> u16 \<Rightarrow> FileManifest \<Rightarrow> bool \<times> FileManifest" where
  "manifest_body frame n m =
     (if fm_protocol_version m \<noteq> kProtocolVersion \<or> n = 0 \<or> unat n > 255 \<or>
         42 + unat n \<noteq> length frame \<or> \<not> manifest_consistent m
      then (False, m)
      else (True, m\<lparr>fm_filename := string_of_bytes (drop 42 frame),
                    fm_file_sha256 := replicate kSha256DigestSize 0\<rparr>))"

lemma manifest_body_eq:
  assumes "42 \<le> length frame"
  shows "(if fm_protocol_version m \<noteq> kProtocolVersion \<or> n = 0 \<or>
            unat n > kMaxFilenameLength \<or> 38 + unat n \<noteq> length (drop 4 frame) \<or> fm_chunk_size m = 0
         then Some (False, m)
         else
           let expected_chunks = (fm_file_size m + ucast (fm_chunk_size m) - 1) div ucast (fm_chunk_size m)
           in if fm_chunk_count m \<noteq> expected_chunks then Some (False, m)
              else Some (True, m\<lparr>fm_filename := string_of_bytes (drop 38 (drop 4 frame)),
                                 fm_file_sha256 := replicate kSha256DigestSize 0\<rparr>)) =
    Some (manifest_body frame n m)"
proof (cases "fm_chunk_size m = 0")
  case True
  then show ?thesis
    by (simp add: manifest_body_def manifest_consistent_def)
next
  case False
  have "38 + unat n = length (drop 4 frame) \<longleftrightarrow> 42 + unat n = length frame"
    using assms by auto
  with False show ?thesis
    by (simp add: manifest_body_def manifest_consistent_def chunk_count_def kMaxFilenameLength_def
        Let_def)
qed

lemma read_payload_fields:
  assumes "42 \<le> length frame"
  shows "read_u32 (drop 4 frame) 0 = Some (be_word (take 4 (drop 4 frame)), 4)"
    and "read_u16 (drop 4 frame) 4 = Some (be_word (take 2 (drop 8 frame)), 6)"
    and "read_u16 (drop 4 frame) 6 = Some (be_word (take 2 (drop 10 frame)), 8)"
    and "read_u64 (drop 4 frame) 8 = Some (be_word (take 8 (drop 12 frame)), 16)"
    and "read_u32 (drop 4 frame) 16 = Some (be_word (take 4 (drop 20 frame)), 20)"
    and "read_u64 (drop 4 frame) 20 = Some (be_word (take 8 (drop 24 frame)), 28)"
    and "read_u64 (drop 4 frame) 28 = Some (be_word (take 8 (drop 32 frame)), 36)"
    and "read_u16 (drop 4 frame) 36 = Some (be_word (take 2 (drop 40 frame)), 38)"
  using assms by (simp_all add: codec_simps)

definition frame_ok :: "bytes \<Rightarrow> bool" where
  "frame_ok frame \<longleftrightarrow>
     42 \<le> length frame \<and> length frame \<le> 297 \<and>
     length frame = 4 + unat (be_word (take 4 frame) :: u32)"

lemma deserialize_file_manifest_eq:
  "deserialize_file_manifest frame m =
     Some (if \<not> frame_ok frame \<or> take 4 (drop 4 frame) \<noteq> be_bytes 4 kManifestMagic then (False, m)
           else manifest_body frame (be_word (take 2 (drop 10 frame))) (manifest_fields frame m))"
proof (cases "length frame < 4")
  case True
  then show ?thesis
    by (simp add: deserialize_file_manifest_def frame_ok_def)
next
  case False
  let ?ps = "be_word (take 4 frame) :: u32"
  have rd: "read_u32 frame 0 = Some (?ps, 4)"
    using False by (simp add: codec_simps)
  have ok: "(unat ?ps < kManifestHeaderSize \<or> unat ?ps > kManifestHeaderSize + kMaxFilenameLength \<or>
      length frame \<noteq> 4 + unat ?ps) = (\<not> frame_ok frame)"
    by (auto simp: frame_ok_def kManifestHeaderSize_def kMaxFilenameLength_def)
  show ?thesis
  proof (cases "frame_ok frame")
    case bad: False
    then show ?thesis
      using False rd unfolding deserialize_file_manifest_def by (simp add: ok)
  next
    case True
    then have len: "42 \<le> length frame"
      by (simp add: frame_ok_def)
    have mg: "be_word (take 4 (drop 4 frame)) = kManifestMagic \<longleftrightarrow>
        take 4 (drop 4 frame) = be_bytes 4 kManifestMagic"
      using len by (intro be_word_inject) simp
    note body = manifest_body_eq [OF len, of "manifest_fields frame m"
        "be_word (take 2 (drop 10 frame))", symmetric]
    show ?thesis
    proof (cases "take 4 (drop 4 frame) = be_bytes 4 kManifestMagic")
      case magic: True
      have "deserialize_file_manifest frame m =
          Some (manifest_body frame (be_word (take 2 (drop 10 frame))) (manifest_fields frame m))"
        using False True rd magic unfolding deserialize_file_manifest_def body
        by (simp add: ok read_payload_fields [OF len] mg manifest_fields_def Let_def
            del: drop_drop length_drop)
      with True magic show ?thesis by simp
    next
      case nomagic: False
      then show ?thesis
        unfolding deserialize_file_manifest_def
        using False True rd by (simp add: ok read_payload_fields(1) [OF len] mg del: drop_drop)
    qed
  qed
qed

subsection \<open>Round trip\<close>

lemma frame_numbers:
  assumes "n \<le> 255"
  shows "unat (of_nat (38 + n) :: u32) = 38 + n" and "unat (of_nat n :: u16) = n"
    and "0 < n \<Longrightarrow> (of_nat n :: u16) \<noteq> 0"
proof -
  show "unat (of_nat (38 + n) :: u32) = 38 + n" and u: "unat (of_nat n :: u16) = n"
    using assms by (simp_all add: unat_of_nat del: of_nat_add)
  assume "0 < n"
  with u show "(of_nat n :: u16) \<noteq> 0"
    by (metis less_irrefl unat_0)
qed

lemma manifest_frame_fields:
  assumes "frame = manifest_frame m flags"
  shows "take 4 frame = be_bytes 4 (of_nat (38 + length (fm_filename m)) :: u32)"
    and "take 4 (drop 4 frame) = be_bytes 4 kManifestMagic"
    and "take 2 (drop 8 frame) = be_bytes 2 (fm_protocol_version m)"
    and "take 2 (drop 10 frame) = be_bytes 2 (of_nat (length (fm_filename m)) :: u16)"
    and "take 8 (drop 12 frame) = be_bytes 8 (fm_file_size m)"
    and "take 4 (drop 20 frame) = be_bytes 4 (fm_chunk_size m)"
    and "take 8 (drop 24 frame) = be_bytes 8 (fm_chunk_count m)"
    and "take 8 (drop 32 frame) = be_bytes 8 (fm_session_id m)"
    and "drop 42 frame = bytes_of_string (fm_filename m)"
  by (simp_all add: assms manifest_frame_def)

lemma deserialize_manifest_frame:
  assumes "manifest_wf m"
  shows "deserialize_file_manifest (manifest_frame m flags) m0 = Some (True, manifest_received m)"
proof -
  let ?n = "length (fm_filename m)"
  define frame where "frame = manifest_frame m flags"
  note fields = manifest_frame_fields [OF frame_def]
  have n: "0 < ?n" "?n \<le> 255"
    using assms by (simp_all add: manifest_wf_def kMaxFilenameLength_def)
  note num = frame_numbers [OF n(2)]
  have len: "length frame = 42 + ?n"
    by (simp add: frame_def length_manifest_frame)
  have ok: "frame_ok frame"
    unfolding frame_ok_def fields(1) be_word_be_bytes_width num(1) len using n(2) by simp
  have mf: "manifest_fields frame m0 =
      m\<lparr>fm_filename := fm_filename m0, fm_file_sha256 := fm_file_sha256 m0\<rparr>"
    unfolding manifest_fields_def fields be_word_be_bytes_width by simp
  have "manifest_consistent (m\<lparr>fm_filename := f, fm_file_sha256 := h\<rparr>)" for f h
    using assms by (simp add: manifest_wf_def manifest_consistent_def)
  then have "manifest_body frame (of_nat ?n) (manifest_fields frame m0) =
      (True, manifest_received m)"
    unfolding manifest_body_def mf fields(9) len num(2)
    using assms n num(3) by (simp add: manifest_received_def manifest_wf_def)
  then have "deserialize_file_manifest frame m0 = Some (True, manifest_received m)"
    unfolding deserialize_file_manifest_eq fields(2,4) be_word_be_bytes_width using ok by simp
  then show ?thesis
    by (simp add: frame_def)
qed

text \<open>
  Conversely a frame is accepted only if it is the frame of a well-formed manifest, with
  whatever flags.
\<close>

lemma deserialize_file_manifest_sound:
  assumes "deserialize_file_manifest frame m0 = Some (True, m)"
  shows "manifest_wf m \<and> manifest_received m = m \<and> (\<exists>flags. frame = manifest_frame m flags)"
proof -
  define n where "n = (be_word (take 2 (drop 10 frame)) :: u16)"
  from assms have ok: "frame_ok frame" and mg: "take 4 (drop 4 frame) = be_bytes 4 kManifestMagic"
    and body: "manifest_body frame n (manifest_fields frame m0) = (True, m)"
    by (auto simp: deserialize_file_manifest_eq n_def split: if_splits)
  have m: "m = (manifest_fields frame m0)\<lparr>fm_filename := string_of_bytes (drop 42 frame),
      fm_file_sha256 := replicate kSha256DigestSize 0\<rparr>"
    and n0: "n \<noteq> 0" "unat n \<le> 255" "42 + unat n = length frame"
    and vc: "fm_protocol_version (manifest_fields frame m0) = kProtocolVersion"
      "manifest_consistent (manifest_fields frame m0)"
    using body by (auto simp: manifest_body_def split: if_splits)
  have len: "42 \<le> length frame"
    using ok by (simp add: frame_ok_def)
  have "0 < unat n"
    using n0(1) by (simp add: unat_gt_0)
  moreover have name: "length (fm_filename m) = unat n"
    using n0(3) by (simp add: m)
  ultimately have wf: "manifest_wf m"
    using vc n0(2) by (simp add: manifest_wf_def m manifest_consistent_def kMaxFilenameLength_def)
  define ps where "ps = (be_word (take 4 frame) :: u32)"
  have "38 + unat n = unat ps"
    using ok n0(3) unfolding frame_ok_def ps_def by linarith
  then have size: "of_nat (38 + unat n) = ps"
    by (simp only: word_of_nat_unat_id)
  have "of_nat (unat n) = n"
    by (rule word_of_nat_unat_id)
  then have "manifest_frame m (be_word (take 2 (drop 40 frame))) =
      take 4 frame @ take 4 (drop 4 frame) @ take 2 (drop 8 frame) @ take 2 (drop 10 frame) @
      take 8 (drop 12 frame) @ take 4 (drop 20 frame) @ take 8 (drop 24 frame) @
      take 8 (drop 32 frame) @ take 2 (drop 40 frame) @ drop 42 frame"
    unfolding manifest_frame_def name size
    using len mg by (simp add: m manifest_fields_def n_def ps_def be_bytes_be_word_width)
  also have "\<dots> = frame"
    by (simp add: take_drop_join)
  finally have "frame = manifest_frame m (be_word (take 2 (drop 40 frame)))" ..
  with wf show ?thesis
    by (auto simp: m manifest_received_def)
qed

interpretation manifest: message_codec
  serialize_file_manifest deserialize_file_manifest manifest_wf manifest_received
proof
  fix bs m
  show "\<exists>ok m'. deserialize_file_manifest bs m = Some (ok, m')"
    by (metis deserialize_file_manifest_eq surj_pair)
next
  fix m m0
  assume wf: "manifest_wf m"
  then have "length (fm_filename m) \<le> 255"
    by (simp add: manifest_wf_def kMaxFilenameLength_def)
  with wf show "deserialize_file_manifest (serialize_file_manifest m) m0 =
      Some (True, manifest_received m)"
    by (simp add: serialize_file_manifest_eq deserialize_manifest_frame)
qed

subsection \<open>Properties\<close>

text \<open>
  C25: a frame is accepted as a manifest exactly when it is the frame of a well-formed manifest
  (supported version, file name of 1 to 255 bytes, chunk count as computed from size and chunk
  size), with any value in the flag field, and the digest field is then all zero.
\<close>

theorem manifest_accepted_iff:
  "deserialize_file_manifest frame m0 = Some (True, m) \<longleftrightarrow>
     manifest_wf m \<and> fm_file_sha256 m = replicate 32 0 \<and> (\<exists>flags. frame = manifest_frame m flags)"
proof
  assume "deserialize_file_manifest frame m0 = Some (True, m)"
  then show "manifest_wf m \<and> fm_file_sha256 m = replicate 32 0 \<and> (\<exists>flags. frame = manifest_frame m flags)"
    using deserialize_file_manifest_sound [of frame m0 m]
    by (metis FileManifest.select_convs(5) FileManifest.surjective FileManifest.update_convs(5)
        kSha256DigestSize_def manifest_received_def)
next
  assume *: "manifest_wf m \<and> fm_file_sha256 m = replicate 32 0 \<and> (\<exists>flags. frame = manifest_frame m flags)"
  then have "manifest_received m = m"
    by (simp add: manifest_received_def kSha256DigestSize_def)
  with * show "deserialize_file_manifest frame m0 = Some (True, m)"
    using deserialize_manifest_frame by metis
qed

text \<open>
  What the sender serialises is accepted by the receiver and gives back every field that is
  transmitted; a file name of more than 255 bytes is refused by the sender instead.
\<close>

lemma manifest_roundtrip:
  assumes "manifest_consistent m" and "fm_protocol_version m = kProtocolVersion"
    and "fm_filename m \<noteq> []"
  shows "if length (fm_filename m) \<le> 255
    then deserialize_file_manifest (serialize_file_manifest m) m0 =
           Some (True, m\<lparr>fm_file_sha256 := replicate 32 0\<rparr>)
    else serialize_file_manifest m = []"
proof (cases "length (fm_filename m) \<le> 255")
  case True
  then have "manifest_wf m"
    using assms by (simp add: manifest_wf_def kMaxFilenameLength_def)
  from manifest.dec_enc [OF this, of m0] True show ?thesis
    by (simp add: manifest_received_def kSha256DigestSize_def)
qed (simp add: serialize_file_manifest_refuses)

end
