(* ===== verification/Messages.thy ===== *)
theory Messages
  imports Links Chunk_Codec Continuation_Codec Hash_Codec Manifest_Codec
begin

text \<open>
  The functions of the four codec files that move a message over a \<open>TcpSocket\<close>. The two
  messages of fixed width go through the contract of theory \<open>Links\<close>; the manifest and the
  continuation request carry their own length, so their readers first take a fixed part, check
  the length it announces against the limits, and only then take the rest.
\<close>

subsection \<open>Chunk headers and hash packets\<close>

definition send_chunk_header ::
    "'w sock_api \<Rightarrow> socket_t \<Rightarrow> ChunkHeader \<Rightarrow> 'w \<Rightarrow> (bool \<times> 'w) option" where
  "send_chunk_header api s header w = send_all api s (serialize_chunk_header header) w"

definition receive_chunk_header ::
    "'w sock_api \<Rightarrow> socket_t \<Rightarrow> ChunkHeader \<Rightarrow> 'w \<Rightarrow> (bool \<times> ChunkHeader \<times> 'w) option" where
  "receive_chunk_header api s header w =
     do {
       (ok, payload, w) \<leftarrow> recv_exact api s kChunkHeaderSize w;
       if \<not> ok then Some (False, header, w)
       else do {
         (ok, header) \<leftarrow> deserialize_chunk_header payload header;
         Some (ok, header, w)
       }
     }"

definition send_hash_packet ::
    "'w sock_api \<Rightarrow> socket_t \<Rightarrow> HashPacket \<Rightarrow> 'w \<Rightarrow> (bool \<times> 'w) option" where
  "send_hash_packet api s packet w =
     (let payload = serialize_hash_packet packet
      in if payload = [] then Some (False, w) else send_all api s payload w)"

definition receive_hash_packet ::
    "'w sock_api \<Rightarrow> socket_t \<Rightarrow> HashPacket \<Rightarrow> 'w \<Rightarrow> (bool \<times> HashPacket \<times> 'w) option" where
  "receive_hash_packet api s packet w =
     do {
       (ok, payload, w) \<leftarrow> recv_exact api s kHashPacketSize w;
       if \<not> ok then Some (False, packet, w)
       else do {
         (ok, packet) \<leftarrow> deserialize_hash_packet payload packet;
         Some (ok, packet, w)
       }
     }"

subsection \<open>Manifest and continuation request\<close>

definition send_file_manifest ::
    "'w sock_api \<Rightarrow> socket_t \<Rightarrow> FileManifest \<Rightarrow> 'w \<Rightarrow> (bool \<times> 'w) option" where
  "send_file_manifest api s manifest w =
     (let payload = serialize_file_manifest manifest
      in if payload = [] then Some (False, w) else send_all api s payload w)"

definition receive_file_manifest ::
    "'w sock_api \<Rightarrow> socket_t \<Rightarrow> FileManifest \<Rightarrow> 'w \<Rightarrow> (bool \<times> FileManifest \<times> 'w) option" where
  "receive_file_manifest api s manifest w =
     do {
       (ok, size_frame, w) \<leftarrow> recv_exact api s 4 w;
       if \<not> ok then Some (False, manifest, w)
       else do {
         (payload_size, offset) \<leftarrow> read_u32 size_frame 0;
         if unat payload_size < kManifestHeaderSize \<or>
            unat payload_size > kManifestHeaderSize + kMaxFilenameLength
         then Some (False, manifest, w)
         else do {
           (ok, rest, w) \<leftarrow> recv_exact api s (unat payload_size) w;
           if \<not> ok then Some (False, manifest, w)
           else do {
             (ok, manifest) \<leftarrow> deserialize_file_manifest (size_frame @ rest) manifest;
             Some (ok, manifest, w)
           }
         }
       }
     }"

definition send_continue_request ::
    "'w sock_api \<Rightarrow> socket_t \<Rightarrow> ContinueRequest \<Rightarrow> 'w \<Rightarrow> (bool \<times> 'w) option" where
  "send_continue_request api s request w = send_all api s (serialize_continue_request request) w"

definition receive_continue_request ::
    "'w sock_api \<Rightarrow> socket_t \<Rightarrow> ContinueRequest \<Rightarrow> 'w \<Rightarrow> (bool \<times> ContinueRequest \<times> 'w) option"
  where
  "receive_continue_request api s request w =
     do {
       (ok, fixed_payload, w) \<leftarrow> recv_exact api s continue_fixed_size w;
       if \<not> ok then Some (False, request, w)
       else do {
         (missing_count, offset) \<leftarrow> read_u64 fixed_payload 20;
         if missing_count > kMaxChunkIndexes then Some (False, request, w)
         else do {
           let index_size = unat (missing_count * 8);
           (ok, rest, w) \<leftarrow> (if index_size > 0 then recv_exact api s index_size w
                             else Some (True, [], w));
           if \<not> ok then Some (False, request, w)
           else do {
             (ok, request) \<leftarrow> deserialize_continue_request (fixed_payload @ rest) request;
             Some (ok, request, w)
           }
         }
       }
     }"

subsection \<open>Messages of fixed width\<close>

lemma receive_chunk_header_eq:
  "receive_chunk_header (lk_api c) (lk_sock c) h w =
     receive_fixed (link_recv c 32) deserialize_chunk_header h w"
  by (simp add: receive_chunk_header_def receive_fixed_def link_recv_def kChunkHeaderSize_def)

lemma receive_hash_packet_eq:
  "receive_hash_packet (lk_api c) (lk_sock c) p w =
     receive_fixed (link_recv c 76) deserialize_hash_packet p w"
  by (simp add: receive_hash_packet_def receive_fixed_def link_recv_def kHashPacketSize_def)

interpretation chunk_link: framed_link link_send link_recv lk_in lk_out link_safe link_live "2 ^ 63"
  serialize_chunk_header deserialize_chunk_header "\<lambda>_. True" 32
  by unfold_locales simp

interpretation hash_link: framed_link link_send link_recv lk_in lk_out link_safe link_live "2 ^ 63"
  serialize_hash_packet deserialize_hash_packet hash_wf 76
  by unfold_locales simp

lemmas receive_chunk_header_returns = chunk_link.receive_returns [folded receive_chunk_header_eq]
lemmas receive_chunk_header_live = chunk_link.receive_live [folded receive_chunk_header_eq]
lemmas receive_chunk_header_True = chunk_link.receive_True [folded receive_chunk_header_eq]
lemmas receive_chunk_header_out = chunk_link.receive_keeps_out [folded receive_chunk_header_eq]
lemmas receive_hash_packet_returns = hash_link.receive_returns [folded receive_hash_packet_eq]
lemmas receive_hash_packet_live = hash_link.receive_live [folded receive_hash_packet_eq]
lemmas receive_hash_packet_True = hash_link.receive_True [folded receive_hash_packet_eq]
lemmas receive_hash_packet_out = hash_link.receive_keeps_out [folded receive_hash_packet_eq]

lemmas tcp_send_live = tcp.send_live [unfolded link_send_def]
lemmas tcp_send_True = tcp.send_True [unfolded link_send_def]
lemmas tcp_send_prefix = tcp.send_prefix [unfolded link_send_def]
lemmas tcp_send_returns = tcp.send_returns [unfolded link_send_def]
lemmas tcp_recv_live = tcp.recv_live [unfolded link_recv_def]
lemmas tcp_recv_True = tcp.recv_True [unfolded link_recv_def]
lemmas tcp_recv_law = tcp.recv_law [unfolded link_recv_def]

lemma send_chunk_header_live:
  assumes "link_safe c" and "link_live c"
  shows "\<exists>w'. send_chunk_header (lk_api c) (lk_sock c) h w = Some (True, w') \<and>
    lk_in c w' = lk_in c w \<and> lk_out c w' = lk_out c w @ serialize_chunk_header h"
  using tcp_send_live [OF assms, of "serialize_chunk_header h" w] chunk.length_enc [of h]
  by (simp add: send_chunk_header_def)

lemma send_hash_packet_live:
  assumes "link_safe c" and "link_live c" and "hash_wf p"
  shows "\<exists>w'. send_hash_packet (lk_api c) (lk_sock c) p w = Some (True, w') \<and>
    lk_in c w' = lk_in c w \<and> lk_out c w' = lk_out c w @ serialize_hash_packet p"
proof -
  have "length (serialize_hash_packet p) = 76"
    using assms(3) by (rule hashp.length_enc)
  then show ?thesis
    using tcp_send_live [OF assms(1,2), of "serialize_hash_packet p" w]
    by (auto simp: send_hash_packet_def Let_def)
qed

subsection \<open>The manifest\<close>

lemma length_serialize_file_manifest:
  "length (serialize_file_manifest m) \<le> 297"
proof (cases "length (fm_filename m) \<le> 255")
  case True
  then show ?thesis by (simp add: serialize_file_manifest_eq length_manifest_frame)
next
  case False
  then show ?thesis by (simp add: serialize_file_manifest_refuses)
qed

lemma send_file_manifest_live:
  assumes "link_safe c" and "link_live c" and "length (fm_filename m) \<le> 255"
  shows "\<exists>w'. send_file_manifest (lk_api c) (lk_sock c) m w = Some (True, w') \<and>
    lk_in c w' = lk_in c w \<and> lk_out c w' = lk_out c w @ serialize_file_manifest m"
proof -
  have "serialize_file_manifest m \<noteq> []" "length (serialize_file_manifest m) < 2 ^ 63"
    using length_serialize_file_manifest [of m] length_manifest_frame [of m 0] assms(3)
    by (auto simp: serialize_file_manifest_eq)
  then show ?thesis
    using tcp_send_live [OF assms(1,2), of "serialize_file_manifest m" w]
    by (auto simp: send_file_manifest_def Let_def)
qed

lemma receive_file_manifest_cases:
  assumes safe: "link_safe c"
  obtains (short) w' where "receive_file_manifest (lk_api c) (lk_sock c) m0 w = Some (False, m0, w')"
      "lk_out c w' = lk_out c w"
  | (frame) frame ok m w' where "42 \<le> length frame" "length frame \<le> 297"
      "length frame = 4 + unat (be_word (take 4 frame) :: u32)"
      "lk_in c w = frame @ lk_in c w'" "lk_out c w' = lk_out c w"
      "deserialize_file_manifest frame m0 = Some (ok, m)"
      "receive_file_manifest (lk_api c) (lk_sock c) m0 w = Some (ok, m, w')"
proof -
  obtain ok1 d1 w1 where r1: "recv_exact (lk_api c) (lk_sock c) 4 w = Some (ok1, d1, w1)"
    "lk_out c w1 = lk_out c w" "lk_in c w = d1 @ lk_in c w1" "ok1 = (length d1 = 4)"
    using tcp_recv_law [OF safe, of 4 w] by auto
  show thesis
  proof (cases "length d1 = 4")
    case False
    with r1 show thesis
      by (intro short [of w1]) (auto simp: receive_file_manifest_def)
  next
    case len1: True
    define ps where "ps = (be_word d1 :: u32)"
    have rd: "read_u32 d1 0 = Some (ps, 4)"
      using len1 by (simp add: codec_simps ps_def)
    show thesis
    proof (cases "unat ps < 38 \<or> unat ps > 293")
      case True
      with r1 len1 rd show thesis
        by (intro short [of w1]) (auto simp: receive_file_manifest_def kManifestHeaderSize_def
            kMaxFilenameLength_def)
    next
      case ps: False
      obtain ok2 d2 w2 where r2:
        "recv_exact (lk_api c) (lk_sock c) (unat ps) w1 = Some (ok2, d2, w2)"
        "lk_out c w2 = lk_out c w1" "lk_in c w1 = d2 @ lk_in c w2" "ok2 = (length d2 = unat ps)"
        using tcp_recv_law [OF safe, of "unat ps" w1] ps by auto
      show thesis
      proof (cases "length d2 = unat ps")
        case False
        with r1 len1 rd ps r2 show thesis
          by (intro short [of w2]) (auto simp: receive_file_manifest_def kManifestHeaderSize_def
              kMaxFilenameLength_def)
      next
        case True
        obtain ok m where dec: "deserialize_file_manifest (d1 @ d2) m0 = Some (ok, m)"
          using manifest.dec_total by blast
        then have "receive_file_manifest (lk_api c) (lk_sock c) m0 w = Some (ok, m, w2)"
          using r1 len1 rd ps r2 True by (simp add: receive_file_manifest_def
              kManifestHeaderSize_def kMaxFilenameLength_def)
        with True ps len1 r1 r2 dec show thesis
          by (intro frame [of "d1 @ d2" w2 ok m]) (simp_all add: ps_def)
      qed
    qed
  qed
qed

lemma receive_file_manifest_returns:
  "link_safe c \<Longrightarrow> \<exists>ok m w'. receive_file_manifest (lk_api c) (lk_sock c) m0 w = Some (ok, m, w') \<and>
     lk_out c w' = lk_out c w"
  by (rule receive_file_manifest_cases [of c m0 w]) auto

lemma receive_file_manifest_True:
  assumes "link_safe c" and "receive_file_manifest (lk_api c) (lk_sock c) m0 w = Some (True, m, w')"
  shows "manifest_wf m \<and> manifest_received m = m \<and>
    (\<exists>flags. lk_in c w = manifest_frame m flags @ lk_in c w') \<and> lk_out c w' = lk_out c w"
  using assms(1)
proof (rule receive_file_manifest_cases [of c m0 w])
  fix frame ok m1 w1
  assume "lk_in c w = frame @ lk_in c w1" "lk_out c w1 = lk_out c w"
    "deserialize_file_manifest frame m0 = Some (ok, m1)"
    "receive_file_manifest (lk_api c) (lk_sock c) m0 w = Some (ok, m1, w1)"
  then show ?thesis
    using assms(2) deserialize_file_manifest_sound [of frame m0 m] by auto
qed (use assms(2) in simp)

lemma receive_file_manifest_live:
  assumes safe: "link_safe c" and live: "link_live c" and wf: "manifest_wf m"
    and inb: "lk_in c w = serialize_file_manifest m @ rest"
  shows "\<exists>w'. receive_file_manifest (lk_api c) (lk_sock c) m0 w = Some (True, manifest_received m, w') \<and>
    lk_in c w' = rest \<and> lk_out c w' = lk_out c w"
proof -
  have n: "length (fm_filename m) \<le> 255"
    using wf by (simp add: manifest_wf_def kMaxFilenameLength_def)
  define ps where "ps = (of_nat (38 + length (fm_filename m)) :: u32)"
  define d1 where "d1 = be_bytes 4 ps"
  define d2 where "d2 = drop 4 (manifest_frame m 0)"
  have ps: "unat ps = 38 + length (fm_filename m)"
    unfolding ps_def using n by (rule frame_numbers)
  have frame: "manifest_frame m 0 = d1 @ d2" and len2: "length d2 = unat ps"
    by (simp_all add: d1_def d2_def manifest_frame_def ps_def [symmetric] ps del: of_nat_add)
  have rd: "read_u32 d1 0 = Some (ps, 4)"
    by (simp add: d1_def codec_simps)
  have in1: "lk_in c w = d1 @ (d2 @ rest)"
    using inb n frame by (simp add: serialize_file_manifest_eq)
  obtain w1 where r1: "recv_exact (lk_api c) (lk_sock c) 4 w = Some (True, d1, w1)"
    "lk_in c w1 = d2 @ rest" "lk_out c w1 = lk_out c w"
    using tcp_recv_live [OF safe live _ in1] by (auto simp: d1_def)
  obtain w2 where r2: "recv_exact (lk_api c) (lk_sock c) (unat ps) w1 = Some (True, d2, w2)"
    "lk_in c w2 = rest" "lk_out c w2 = lk_out c w1"
    using tcp_recv_live [OF safe live _ r1(2)] n by (auto simp: len2 ps)
  have "deserialize_file_manifest (d1 @ d2) m0 = Some (True, manifest_received m)"
    unfolding frame [symmetric] using wf by (rule deserialize_manifest_frame)
  then show ?thesis
    using r1 r2 rd n ps by (simp add: receive_file_manifest_def kManifestHeaderSize_def
        kMaxFilenameLength_def)
qed

subsection \<open>The continuation request\<close>

lemma length_serialize_continue_request:
  "length (serialize_continue_request r) = 28 + length (cr_missing_chunk_indexes r) * 8"
  by (rule serialize_continue_request_fields(1)) (rule refl)

lemma send_continue_request_live:
  assumes "link_safe c" and "link_live c" and "length (cr_missing_chunk_indexes r) < 2 ^ 59"
  shows "\<exists>w'. send_continue_request (lk_api c) (lk_sock c) r w = Some (True, w') \<and>
    lk_in c w' = lk_in c w \<and> lk_out c w' = lk_out c w @ serialize_continue_request r"
  using tcp_send_live [OF assms(1,2), of "serialize_continue_request r" w] assms(3)
  by (simp add: send_continue_request_def length_serialize_continue_request)

lemma index_size_eq: "\<not> n > kMaxChunkIndexes \<Longrightarrow> unat (n * 8 :: u64) = unat n * 8"
  by (simp add: kMaxChunkIndexes_def word_less_nat_alt unat_word_ariths)

lemma read_count: "length d = 28 \<Longrightarrow> read_u64 d 20 = Some (be_word (drop 20 d), 28)"
  by (simp add: codec_simps)

text \<open>The tail of the reader, with the case of an empty index list folded in.\<close>

definition recv_tail ::
    "'w sock_api \<Rightarrow> socket_t \<Rightarrow> nat \<Rightarrow> 'w \<Rightarrow> (bool \<times> bytes \<times> 'w) option" where
  "recv_tail api s n w = (if n > 0 then recv_exact api s n w else Some (True, [], w))"

lemma recv_tail_law:
  assumes "link_safe c" and "n < 2 ^ 63"
  shows "\<exists>ok d w'. recv_tail (lk_api c) (lk_sock c) n w = Some (ok, d, w') \<and>
    lk_out c w' = lk_out c w \<and> lk_in c w = d @ lk_in c w' \<and> ok = (length d = n)"
  using tcp_recv_law [OF assms, of w] by (auto simp: recv_tail_def)

lemma recv_tail_live:
  assumes "link_safe c" and "link_live c" and "length d < 2 ^ 63" and "lk_in c w = d @ rest"
  shows "\<exists>w'. recv_tail (lk_api c) (lk_sock c) (length d) w = Some (True, d, w') \<and>
    lk_in c w' = rest \<and> lk_out c w' = lk_out c w"
  using tcp_recv_live [OF assms] assms(4) by (auto simp: recv_tail_def)

lemma receive_continue_request_step:
  assumes "recv_exact api s 28 w = Some (True, d, w1)" and "length d = 28"
  shows "receive_continue_request api s r w =
    (let n = be_word (drop 20 d) :: u64
     in if n > kMaxChunkIndexes then Some (False, r, w1)
        else do {
          (ok, rest, w2) \<leftarrow> recv_tail api s (unat n * 8) w1;
          if \<not> ok then Some (False, r, w2)
          else do {
            (ok, r) \<leftarrow> deserialize_continue_request (d @ rest) r;
            Some (ok, r, w2)
          }
        })"
proof -
  have "recv_exact api s continue_fixed_size w = Some (True, d, w1)"
    using assms(1) by (simp add: continue_fixed_size_def)
  then show ?thesis
    unfolding receive_continue_request_def Let_def
    by (simp add: read_count [OF assms(2)] index_size_eq recv_tail_def cong: if_cong)
qed

lemma receive_continue_request_cases:
  assumes safe: "link_safe c"
  obtains (short) w' where
      "receive_continue_request (lk_api c) (lk_sock c) r0 w = Some (False, r0, w')"
      "lk_out c w' = lk_out c w"
  | (frame) frame ok r w' where "lk_in c w = frame @ lk_in c w'" "lk_out c w' = lk_out c w"
      "deserialize_continue_request frame r0 = Some (ok, r)"
      "receive_continue_request (lk_api c) (lk_sock c) r0 w = Some (ok, r, w')"
proof -
  let ?recv = "recv_exact (lk_api c) (lk_sock c)"
  obtain ok1 d1 w1 where r1: "?recv 28 w = Some (ok1, d1, w1)"
    "lk_out c w1 = lk_out c w" "lk_in c w = d1 @ lk_in c w1" "ok1 = (length d1 = 28)"
    using tcp_recv_law [OF safe, of 28 w] by auto
  show thesis
  proof (cases "length d1 = 28")
    case False
    with r1 show thesis
      by (intro short [of w1]) (auto simp: receive_continue_request_def continue_fixed_size_def)
  next
    case len1: True
    define n where "n = (be_word (drop 20 d1) :: u64)"
    note step = receive_continue_request_step [OF r1(1) [unfolded r1(4) len1 simp_thms] len1,
        of r0, folded n_def, unfolded Let_def]
    show thesis
    proof (cases "n > kMaxChunkIndexes")
      case True
      with step r1 show thesis
        by (intro short [of w1]) simp_all
    next
      case n: False
      then have "unat n * 8 < 2 ^ 63"
        by (simp add: kMaxChunkIndexes_def word_less_nat_alt)
      then obtain ok2 d2 w2 where r2:
        "recv_tail (lk_api c) (lk_sock c) (unat n * 8) w1 = Some (ok2, d2, w2)"
        "lk_out c w2 = lk_out c w1" "lk_in c w1 = d2 @ lk_in c w2"
        using recv_tail_law [OF safe, of "unat n * 8" w1] by blast
      obtain ok r where dec: "deserialize_continue_request (d1 @ d2) r0 = Some (ok, r)"
        using continuation.dec_total by blast
      show thesis
      proof (cases ok2)
        case False
        with step n r1 r2 show thesis
          by (intro short [of w2]) simp_all
      next
        case True
        with step n r2 dec have
          "receive_continue_request (lk_api c) (lk_sock c) r0 w = Some (ok, r, w2)"
          by simp
        with r1 r2 dec show thesis
          by (intro frame [of "d1 @ d2" w2 ok r]) simp_all
      qed
    qed
  qed
qed

lemma receive_continue_request_returns:
  "link_safe c \<Longrightarrow>
     \<exists>ok r w'. receive_continue_request (lk_api c) (lk_sock c) r0 w = Some (ok, r, w') \<and>
       lk_out c w' = lk_out c w"
  by (rule receive_continue_request_cases [of c r0 w]) auto

lemma receive_continue_request_True:
  assumes "link_safe c"
    and "receive_continue_request (lk_api c) (lk_sock c) r0 w = Some (True, r, w')"
  shows "continue_wf r \<and> lk_in c w = serialize_continue_request r @ lk_in c w' \<and>
    lk_out c w' = lk_out c w"
  using assms(1)
proof (rule receive_continue_request_cases [of c r0 w])
  fix frame ok r1 w1
  assume "lk_in c w = frame @ lk_in c w1" "lk_out c w1 = lk_out c w"
    "deserialize_continue_request frame r0 = Some (ok, r1)"
    "receive_continue_request (lk_api c) (lk_sock c) r0 w = Some (ok, r1, w1)"
  then show ?thesis
    using assms(2) continuation.dec_sound [of frame r0 r] by auto
qed (use assms(2) in simp)

lemma receive_continue_request_live:
  assumes safe: "link_safe c" and live: "link_live c" and wf: "continue_wf r"
    and inb: "lk_in c w = serialize_continue_request r @ rest"
  shows "\<exists>w'. receive_continue_request (lk_api c) (lk_sock c) r0 w = Some (True, r, w') \<and>
    lk_in c w' = rest \<and> lk_out c w' = lk_out c w"
proof -
  define bs where "bs = serialize_continue_request r"
  define d1 where "d1 = take 28 bs"
  define d2 where "d2 = drop 28 bs"
  define n where "n = (of_nat (length (cr_missing_chunk_indexes r)) :: u64)"
  note fields = serialize_continue_request_fields [OF bs_def]
  note count = index_count [OF wf [unfolded continue_wf_def], folded n_def]
  have len: "length d1 = 28" "length d2 = unat n * 8" and split: "bs = d1 @ d2"
    by (simp_all add: d1_def d2_def fields(1) count(1))
  have "drop 20 d1 = be_bytes 8 n"
    using fields(5) by (simp add: d1_def n_def take_drop)
  then have n: "be_word (drop 20 d1) = n"
    by simp
  have in1: "lk_in c w = d1 @ (d2 @ rest)"
    using inb split by (simp add: bs_def)
  obtain w1 where r1: "recv_exact (lk_api c) (lk_sock c) 28 w = Some (True, d1, w1)"
    "lk_in c w1 = d2 @ rest" "lk_out c w1 = lk_out c w"
    using tcp_recv_live [OF safe live _ in1] len(1) by auto
  have "length d2 < 2 ^ 63"
    using wf by (simp add: len(2) count(1) continue_wf_def)
  then obtain w2 where r2:
    "recv_tail (lk_api c) (lk_sock c) (unat n * 8) w1 = Some (True, d2, w2)"
    "lk_in c w2 = rest" "lk_out c w2 = lk_out c w1"
    using recv_tail_live [OF safe live _ r1(2)] by (auto simp: len(2))
  have "deserialize_continue_request (d1 @ d2) r0 = Some (True, r)"
    unfolding split [symmetric] bs_def using wf by (rule continue_dec_enc)
  then show ?thesis
    using r1 r2 count(2)
    by (simp add: receive_continue_request_step [OF r1(1) len(1), of r0] n Let_def)
qed

subsection \<open>Sending on a link that may break\<close>

text \<open>
  \<open>sends c bs w ok w'\<close>: a prefix of \<open>bs\<close> went out, all of it if the operation reports
  success, and it does on a live link.
\<close>

definition sends :: "'w link \<Rightarrow> bytes \<Rightarrow> 'w \<Rightarrow> bool \<Rightarrow> 'w \<Rightarrow> bool" where
  "sends c bs w ok w' \<longleftrightarrow>
     lk_in c w' = lk_in c w \<and> (\<exists>k. lk_out c w' = lk_out c w @ take k bs) \<and>
     (ok \<longrightarrow> lk_out c w' = lk_out c w @ bs) \<and> (link_live c \<longrightarrow> ok)"

lemma sends_all:
  assumes "link_safe c" and "length bs < 2 ^ 63"
  shows "\<exists>ok w'. send_all (lk_api c) (lk_sock c) bs w = Some (ok, w') \<and> sends c bs w ok w'"
proof -
  obtain ok k w' where *: "send_all (lk_api c) (lk_sock c) bs w = Some (ok, w')"
    "lk_in c w' = lk_in c w" "lk_out c w' = lk_out c w @ take k bs" "ok = (k = length bs)"
    "link_live c \<longrightarrow> ok"
    using tcp.send_law [OF assms, of w] unfolding link_send_def by blast
  moreover from *(3,4) have "ok \<longrightarrow> lk_out c w' = lk_out c w @ bs"
    by simp
  ultimately show ?thesis
    unfolding sends_def by blast
qed

lemma sends_refl: "sends c [] w True w"
  by (simp add: sends_def)

lemma sends_then:
  assumes "sends c a w True w1" and "sends c b w1 ok w2"
  shows "sends c (a @ b) w ok w2"
proof -
  have w1: "lk_in c w1 = lk_in c w" "lk_out c w1 = lk_out c w @ a"
    using assms(1) by (simp_all add: sends_def)
  obtain k where k: "lk_out c w2 = lk_out c w1 @ take k b"
    using assms(2) unfolding sends_def by blast
  have "lk_out c w2 = lk_out c w @ take (length a + k) (a @ b)"
    by (simp add: k w1(2))
  moreover have "lk_in c w2 = lk_in c w" "ok \<longrightarrow> lk_out c w2 = lk_out c w @ (a @ b)"
    "link_live c \<longrightarrow> ok"
    using assms(2) w1 by (simp_all add: sends_def)
  ultimately show ?thesis
    unfolding sends_def by blast
qed

lemma sends_stop:
  assumes "sends c a w False w1"
  shows "sends c (a @ b) w False w1"
proof -
  obtain k where k: "lk_out c w1 = lk_out c w @ take k a"
    using assms unfolding sends_def by blast
  have "lk_out c w1 = lk_out c w @ take (min k (length a)) (a @ b)"
    by (simp add: k min_def)
  moreover have "lk_in c w1 = lk_in c w" "\<not> link_live c"
    using assms by (simp_all add: sends_def)
  ultimately show ?thesis
    unfolding sends_def by blast
qed

lemma sends_bind:
  assumes "\<exists>ok w1. f w = Some (ok, w1) \<and> sends c a w ok w1"
    and "\<And>w1. f w = Some (True, w1) \<Longrightarrow> sends c a w True w1 \<Longrightarrow>
      \<exists>ok p' w2. g w1 = Some (ok, p', w2) \<and> sends c b w1 ok w2"
  shows "\<exists>ok p' w2. do { (ok, w1) \<leftarrow> f w; if \<not> ok then Some (False, p, w1) else g w1 } =
      Some (ok, p', w2) \<and> sends c (a @ b) w ok w2"
proof -
  obtain ok w1 where f: "f w = Some (ok, w1)" "sends c a w ok w1"
    using assms(1) by blast
  show ?thesis
  proof (cases ok)
    case True
    then obtain ok' p' w2 where "g w1 = Some (ok', p', w2)" "sends c b w1 ok' w2"
      using assms(2) [of w1] f by auto
    then show ?thesis
      using f True sends_then by fastforce
  next
    case False
    then show ?thesis
      using f sends_stop by fastforce
  qed
qed

end
