(* ===== verification/Sha256_Constants.thy ===== *)
theory Sha256_Constants
  imports Sha256
begin

text \<open>
  Where the numbers of the hash function come from: the standard defines the round constants as
  the first 32 bits of the fractional parts of the cube roots of the first 64 primes, and the
  initial state likewise from the square roots of the first eight. Both tables of the program
  are computed from that definition.
\<close>

definition fips_primes :: "nat list" where
  "fips_primes =
    [2, 3, 5, 7, 11, 13, 17, 19, 23, 29, 31, 37, 41, 43, 47, 53, 59, 61, 67, 71, 73, 79, 83, 89, 97,
     101, 103, 107, 109, 113, 127, 131, 137, 139, 149, 151, 157, 163, 167, 173, 179, 181, 191, 193,
     197, 199, 211, 223, 227, 229, 233, 239, 241, 251, 257, 263, 269, 271, 277, 281, 283, 293, 307, 311]"

text \<open>The bits of a \<open>k\<close>-th root, found from the highest to the lowest.\<close>

fun root_bits :: "nat \<Rightarrow> nat \<Rightarrow> nat \<Rightarrow> nat \<Rightarrow> nat" where
  "root_bits k n 0 r = r"
| "root_bits k n (Suc b) r = root_bits k n b (if (r + 2 ^ b) ^ k \<le> n then r + 2 ^ b else r)"

lemma root_bits_floor:
  assumes "r ^ k \<le> n" and "n < (r + 2 ^ b) ^ k"
  shows "root_bits k n b r ^ k \<le> n \<and> n < (root_bits k n b r + 1) ^ k"
  using assms
proof (induction b arbitrary: r)
  case (Suc b)
  have double: "r + 2 ^ Suc b = (r + 2 ^ b) + 2 ^ b"
    by simp
  show ?case
  proof (cases "(r + 2 ^ b) ^ k \<le> n")
    case True
    then show ?thesis
      using Suc.IH [OF True] Suc.prems(2) unfolding double by simp
  next
    case False
    then show ?thesis
      using Suc.IH [OF Suc.prems(1)] by simp
  qed
qed simp

text \<open>The first 32 bits of the fractional part of the \<open>k\<close>-th root of \<open>p\<close>, for \<open>p < 8 ^ k\<close>.\<close>

definition fips_fraction :: "nat \<Rightarrow> nat \<Rightarrow> u32" where
  "fips_fraction k p = of_nat (root_bits k (p * 2 ^ (32 * k)) 35 0)"

lemma fips_fraction_spec:
  assumes "p < 8 ^ k" and "0 < k"
  shows "\<exists>r. r ^ k \<le> p * (2 ^ 32) ^ k \<and> p * (2 ^ 32) ^ k < (r + 1) ^ k \<and> fips_fraction k p = of_nat r"
proof -
  let ?n = "p * 2 ^ (32 * k)"
  have "?n < 8 ^ k * 2 ^ (32 * k)"
    using assms(1) by simp
  also have "\<dots> = (2 ^ 35) ^ k"
    by (simp add: power_mult flip: power_mult_distrib)
  finally have "root_bits k ?n 35 0 ^ k \<le> ?n \<and> ?n < (root_bits k ?n 35 0 + 1) ^ k"
    using assms(2) by (intro root_bits_floor) (simp_all add: zero_power)
  then show ?thesis
    unfolding fips_fraction_def by (intro exI [of _ "root_bits k ?n 35 0"]) (simp add: power_mult)
qed

definition fips_K :: "nat \<Rightarrow> u32" where
  "fips_K t = fips_fraction 3 (fips_primes ! t)"

definition fips_H0 :: "u32 list" where
  "fips_H0 = map (fips_fraction 2) (take 8 fips_primes)"

text \<open>A fraction is recognised without searching for the root.\<close>

lemma floor_root_unique:
  fixes r s n :: nat
  assumes "r ^ k \<le> n" "n < (r + 1) ^ k" "s ^ k \<le> n" "n < (s + 1) ^ k"
  shows "r = s"
proof -
  have "\<not> r + 1 \<le> s" "\<not> s + 1 \<le> r"
    using assms power_mono [of "r + 1" s k] power_mono [of "s + 1" r k] by auto
  then show ?thesis by simp
qed

definition is_fraction :: "nat \<Rightarrow> nat \<Rightarrow> nat \<Rightarrow> u32 \<Rightarrow> bool" where
  "is_fraction k p i K \<longleftrightarrow>
     (i * 2 ^ 32 + unat K) ^ k \<le> p * (2 ^ 32) ^ k \<and> p * (2 ^ 32) ^ k < (i * 2 ^ 32 + unat K + 1) ^ k"

lemma is_fraction_eq:
  assumes "p < 8 ^ k" and "0 < k" and "is_fraction k p i K"
  shows "fips_fraction k p = K"
proof -
  obtain r where r: "r ^ k \<le> p * (2 ^ 32) ^ k" "p * (2 ^ 32) ^ k < (r + 1) ^ k" "fips_fraction k p = of_nat r"
    using fips_fraction_spec [OF assms(1,2)] by blast
  have "r = i * 2 ^ 32 + unat K"
    using r(1,2) assms(3) floor_root_unique unfolding is_fraction_def by blast
  then have "fips_fraction k p = of_nat (i * 2 ^ 32) + K"
    using r(3) by simp
  moreover have "(of_nat (i * 2 ^ 32) :: u32) = 0"
    unfolding word_unat_eq_iff unat_of_nat by simp
  ultimately show ?thesis by simp
qed

definition small_root :: "nat \<Rightarrow> nat \<Rightarrow> nat" where
  "small_root k p = (if p < 2 ^ k then 1 else if p < 3 ^ k then 2 else if p < 4 ^ k then 3
     else if p < 5 ^ k then 4 else if p < 6 ^ k then 5 else 6)"

lemma fractions:
  "list_all2 (\<lambda>p. is_fraction 3 p (small_root 3 p)) fips_primes kRoundConstants"
  "list_all2 (\<lambda>p. is_fraction 2 p (small_root 2 p)) (take 8 fips_primes) Sha256_initial_state"
  by (simp_all add: fips_primes_def kRoundConstants_def Sha256_initial_state_def is_fraction_def
      small_root_def)

lemma primes_small: "list_all (\<lambda>p. p < 8 ^ 3) fips_primes" "list_all (\<lambda>p. p < 8 ^ 2) (take 8 fips_primes)"
  by (simp_all add: fips_primes_def)

lemma map_fractions:
  assumes "list_all2 (\<lambda>p. is_fraction k p (f p)) ps Ks" and "list_all (\<lambda>p. p < 8 ^ k) ps" and "0 < k"
  shows "map (fips_fraction k) ps = Ks"
  using assms(1,2) by (induction rule: list_all2_induct) (auto intro: is_fraction_eq assms(3))

lemma fips_K_table: "map (fips_fraction 3) fips_primes = kRoundConstants"
  by (rule map_fractions [OF fractions(1) primes_small(1)]) simp

lemma fips_H0_table: "fips_H0 = Sha256_initial_state"
  unfolding fips_H0_def by (rule map_fractions [OF fractions(2) primes_small(2)]) simp

lemma fips_K_eq: "t < 64 \<Longrightarrow> kRoundConstants ! t = fips_K t"
  unfolding fips_K_table [symmetric] fips_K_def by (rule nth_map) (simp add: fips_primes_def)

text \<open>
  C32: the two tables of constants are the numbers that the standard defines: the round constants
  are the first 32 bits of the fractional parts of the cube roots of the first 64 primes, and
  the initial state those of the square roots of the first eight.
\<close>

theorem sha256_constants_derived:
  "kRoundConstants = map (fips_fraction 3) fips_primes \<and>
   Sha256_initial_state = map (fips_fraction 2) (take 8 fips_primes) \<and> length kRoundConstants = 64"
  using fips_K_table fips_H0_table by (simp add: fips_H0_def) (simp add: kRoundConstants_def)

end
