(* ===== verification/Sha256_Spec.thy ===== *)
theory Sha256_Spec
  imports Sha256_Constants
begin

text \<open>
  The reference hash function on byte messages, and the proof that the class \<open>Sha256\<close>
  computes it for every message and every way of splitting it into \<open>update\<close> calls, as long
  as the bit length fits the 64-bit counter that both use modulo \<open>2 ^ 64\<close>.
\<close>

definition fips_Sigma0 :: "u32 \<Rightarrow> u32" where
  "fips_Sigma0 x = word_rotr 2 x XOR word_rotr 13 x XOR word_rotr 22 x"

definition fips_Sigma1 :: "u32 \<Rightarrow> u32" where
  "fips_Sigma1 x = word_rotr 6 x XOR word_rotr 11 x XOR word_rotr 25 x"

definition fips_sigma0 :: "u32 \<Rightarrow> u32" where
  "fips_sigma0 x = word_rotr 7 x XOR word_rotr 18 x XOR drop_bit 3 x"

definition fips_sigma1 :: "u32 \<Rightarrow> u32" where
  "fips_sigma1 x = word_rotr 17 x XOR word_rotr 19 x XOR drop_bit 10 x"

text \<open>The two bitwise selections, written with disjunctions instead of exclusive ones.\<close>

definition fips_Ch :: "u32 \<Rightarrow> u32 \<Rightarrow> u32 \<Rightarrow> u32" where
  "fips_Ch x y z = (x AND y) OR (NOT x AND z)"

definition fips_Maj :: "u32 \<Rightarrow> u32 \<Rightarrow> u32 \<Rightarrow> u32" where
  "fips_Maj x y z = (x AND y) OR (x AND z) OR (y AND z)"

fun fips_W :: "bytes \<Rightarrow> nat \<Rightarrow> u32" where
  "fips_W M t =
     (if t < 16 then be_word (take 4 (drop (4 * t) M))
      else fips_sigma1 (fips_W M (t - 2)) + fips_W M (t - 7) +
           fips_sigma0 (fips_W M (t - 15)) + fips_W M (t - 16))"

declare fips_W.simps [simp del]

fun fips_rounds :: "bytes \<Rightarrow> nat \<Rightarrow> working \<Rightarrow> working" where
  "fips_rounds M 0 v = v"
| "fips_rounds M (Suc t) v =
     (let (a, b, c, d, e, f, g, h) = fips_rounds M t v;
          T1 = h + fips_Sigma1 e + fips_Ch e f g + fips_K t + fips_W M t;
          T2 = fips_Sigma0 a + fips_Maj a b c
      in (T1 + T2, a, b, c, d + T1, e, f, g))"

definition fips_compress :: "bytes \<Rightarrow> u32 list \<Rightarrow> u32 list" where
  "fips_compress M H =
     (let (a, b, c, d, e, f, g, h) =
            fips_rounds M 64 (H ! 0, H ! 1, H ! 2, H ! 3, H ! 4, H ! 5, H ! 6, H ! 7)
      in [H ! 0 + a, H ! 1 + b, H ! 2 + c, H ! 3 + d, H ! 4 + e, H ! 5 + f, H ! 6 + g, H ! 7 + h])"

definition fips_pad :: "bytes \<Rightarrow> bytes" where
  "fips_pad m =
     m @ [0x80] @ replicate ((119 - length m mod 64) mod 64) 0 @
     be_bytes 8 (of_nat (8 * length m) :: u64)"

function fips_blocks :: "bytes \<Rightarrow> bytes list" where
  "fips_blocks bs = (if bs = [] then [] else take 64 bs # fips_blocks (drop 64 bs))"
  by pat_completeness auto
termination
  by (relation "measure length") auto

declare fips_blocks.simps [simp del]

definition sha256_reference :: "bytes \<Rightarrow> string" where
  "sha256_reference m =
     concat (map hex_word
       (fold fips_compress (fips_blocks (fips_pad m)) fips_H0))"

subsection \<open>The bit functions\<close>

lemma rotate_right_rotr:
  assumes "0 < n" and "n < 32"
  shows "rotate_right x n = word_rotr n x"
proof (rule bit_word_eqI)
  fix i
  assume "i < LENGTH(32)"
  then have i: "i < 32" by simp
  then have rot: "bit (word_rotr n x) i = bit x ((i + n) mod 32)"
    by (simp add: bit_word_rotr_iff)
  have ror: "bit (rotate_right x n) i = (bit x (i + n) \<or> 32 - n \<le> i \<and> bit x (i - (32 - n)))"
    using i by (simp add: rotate_right_def bit_or_iff bit_drop_bit_eq bit_push_bit_iff add.commute)
  show "bit (rotate_right x n) i = bit (word_rotr n x) i"
  proof (cases "i + n < 32")
    case True
    then have "\<not> 32 - n \<le> i" by simp
    with True show ?thesis
      by (simp add: rot ror)
  next
    case False
    then have "(i + n) mod 32 = i - (32 - n)"
      using i assms by (simp add: mod_if)
    moreover have "\<not> bit x (i + n)"
      using False bit_imp_le_length [of x "i + n"] by auto
    ultimately show ?thesis
      using False assms by (auto simp: rot ror)
  qed
qed

lemma sigma_eq:
  "big_sigma0 x = fips_Sigma0 x" "big_sigma1 x = fips_Sigma1 x"
  "small_sigma0 x = fips_sigma0 x" "small_sigma1 x = fips_sigma1 x"
  by (simp_all add: big_sigma0_def fips_Sigma0_def big_sigma1_def fips_Sigma1_def
      small_sigma0_def fips_sigma0_def small_sigma1_def fips_sigma1_def rotate_right_rotr)

lemma choose_eq: "choose_bits x y z = fips_Ch x y z"
  by (rule bit_word_eqI) (auto simp: choose_bits_def fips_Ch_def bit_simps)

lemma majority_eq: "majority x y z = fips_Maj x y z"
  by (rule bit_word_eqI) (auto simp: majority_def fips_Maj_def bit_simps)

subsection \<open>The message schedule\<close>

lemma take4_drop:
  "k + 4 \<le> length xs \<Longrightarrow> take 4 (drop k xs) = [xs ! k, xs ! (k + 1), xs ! (k + 2), xs ! (k + 3)]"
  by (simp add: eval_nat_numeral take_Suc_conv_app_nth)

lemma be_word4:
  "be_word [a, b, c, d] =
     push_bit 24 (ucast a) OR push_bit 16 (ucast b) OR push_bit 8 (ucast c) OR (ucast d :: u32)"
  by (simp add: be_word_def push_bit_or or.assoc)

lemma length_fold_load [simp]: "length (fold (load_word blk) is ws) = length ws"
  by (induction "is" arbitrary: ws) (auto simp: load_word_def Let_def)

lemma length_fold_extend [simp]: "length (fold extend_word is ws) = length ws"
  by (induction "is" arbitrary: ws) (auto simp: extend_word_def)

lemma load_words_nth:
  assumes "length blk = 64" and "k \<le> 16" and "j < 64"
  shows "fold (load_word blk) [0..<k] (replicate 64 0) ! j = (if j < k then fips_W blk j else 0)"
  using assms(2)
proof (induction k)
  case 0
  then show ?case using assms(3) by simp
next
  case (Suc k)
  have "be_word (take 4 (drop (4 * k) blk)) =
      push_bit 24 (ucast (blk ! (k * 4))) OR push_bit 16 (ucast (blk ! (k * 4 + 1))) OR
      push_bit 8 (ucast (blk ! (k * 4 + 2))) OR (ucast (blk ! (k * 4 + 3)) :: u32)"
    using Suc.prems assms(1) by (simp add: take4_drop be_word4 mult.commute)
  then have "load_word blk k ws = ws[k := fips_W blk k]" for ws
    using Suc.prems by (simp add: load_word_def Let_def fips_W.simps [of blk k])
  then show ?case
    using Suc assms(3) by (auto simp: nth_list_update less_Suc_eq)
qed

lemma extend_words_nth:
  assumes "length blk = 64" and "16 \<le> k" and "k \<le> 64" and "j < 64"
  shows "fold extend_word [16..<k] (fold (load_word blk) [0..<16] (replicate 64 0)) ! j =
    (if j < k then fips_W blk j else 0)"
  using assms(2-4)
proof (induction k arbitrary: j rule: dec_induct)
  case base
  then show ?case using load_words_nth [OF assms(1), of 16 j] by simp
next
  case (step k)
  let ?ws = "fold extend_word [16..<k] (fold (load_word blk) [0..<16] (replicate 64 0))"
  have prev: "?ws ! i = fips_W blk i" if "i < k" for i
    using that step by simp
  have "extend_word k ?ws = ?ws[k := fips_W blk k]"
    using step.hyps prev by (simp add: extend_word_def fips_W.simps [of blk k] sigma_eq)
  then show ?case
    using step by (auto simp: nth_list_update less_Suc_eq)
qed

lemma message_words_nth: "length blk = 64 \<Longrightarrow> t < 64 \<Longrightarrow> message_words blk ! t = fips_W blk t"
  using extend_words_nth [of blk 64 t] by (simp add: message_words_def)

subsection \<open>The compression function\<close>

lemma sha_rounds_eq:
  assumes "length blk = 64" and "n \<le> 64"
  shows "fold (\<lambda>i. sha_round (kRoundConstants ! i) (message_words blk ! i)) [0..<n] v =
    fips_rounds blk n v"
  using assms(2)
proof (induction n)
  case 0
  then show ?case by simp
next
  case (Suc n)
  then show ?case
    using message_words_nth [OF assms(1), of n] fips_K_eq [of n]
    by (simp add: sha_round_def sigma_eq choose_eq majority_eq Let_def split: prod.splits)
qed

lemma process_block_eq: "length blk = 64 \<Longrightarrow> process_block blk st = fips_compress blk st"
  by (simp add: process_block_def fips_compress_def sha_rounds_eq)

subsection \<open>The buffer\<close>

definition filled :: "Sha256 \<Rightarrow> bytes \<Rightarrow> bool" where
  "filled s r \<longleftrightarrow>
     length (sh_buffer s) = 64 \<and> sh_buffer_size s = length r \<and> take (length r) (sh_buffer s) = r"

definition same_hash :: "Sha256 \<Rightarrow> Sha256 \<Rightarrow> bool" where
  "same_hash s s' \<longleftrightarrow> sh_state s' = sh_state s \<and> sh_bit_count s' = sh_bit_count s"

lemma put_byte_filled:
  assumes "filled s r" and "length r < 64"
  shows "\<exists>s'. put_byte b s = Some s' \<and> filled s' (r @ [b]) \<and> same_hash s s'"
  using assms by (auto simp: filled_def put_byte_def same_hash_def take_Suc_conv_app_nth)

lemma filled_full: "filled s r \<Longrightarrow> length r = 64 \<Longrightarrow> sh_buffer s = r"
  by (auto simp: filled_def)

lemma filled_Nil: "length (sh_buffer s) = 64 \<Longrightarrow> filled (s\<lparr>sh_buffer_size := 0\<rparr>) []"
  by (simp add: filled_def)

lemma pad_to_filled:
  assumes "filled s r" and "length r + k \<le> 64"
  shows "\<exists>s'. pad_to (length r + k) s = Some s' \<and> filled s' (r @ replicate k 0) \<and> same_hash s s'"
  using assms
proof (induction k arbitrary: s r)
  case 0
  then show ?case
    by (subst pad_to.simps) (simp add: filled_def same_hash_def)
next
  case (Suc k)
  then obtain s1 where s1: "put_byte 0 s = Some s1" "filled s1 (r @ [0])" "same_hash s s1"
    using put_byte_filled [of s r 0] by auto
  with Suc obtain s2 where "pad_to (length (r @ [0]) + k) s1 = Some s2"
    "filled s2 ((r @ [0]) @ replicate k 0)" "same_hash s1 s2"
    using Suc.IH [of s1 "r @ [0]"] by auto
  moreover have "pad_to (length r + Suc k) s = pad_to (length (r @ [0]) + k) s1"
    using s1(1) Suc.prems(1) by (subst pad_to.simps) (simp add: filled_def)
  ultimately show ?case
    using s1(3) by (auto simp: same_hash_def)
qed

lemma put_bit_count_filled:
  assumes "filled s r" and "length r + k \<le> 64"
  shows "\<exists>s'. put_bit_count (8 * int k - 8) s = Some s' \<and>
    filled s' (r @ be_bytes k (sh_bit_count s)) \<and> same_hash s s'"
  using assms
proof (induction k arbitrary: s r)
  case 0
  then show ?case
    by (subst put_bit_count.simps) (simp add: same_hash_def be_bytes_def)
next
  case (Suc k)
  let ?b = "ucast (drop_bit (8 * k) (sh_bit_count s)) :: u8"
  obtain s1 where s1: "put_byte ?b s = Some s1" "filled s1 (r @ [?b])" "same_hash s s1"
    using put_byte_filled [of s r ?b] Suc.prems by auto
  with Suc obtain s2 where s2: "put_bit_count (8 * int k - 8) s1 = Some s2"
    "filled s2 ((r @ [?b]) @ be_bytes k (sh_bit_count s1))" "same_hash s1 s2"
    using Suc.IH [of s1 "r @ [?b]"] by auto
  have "put_bit_count (8 * int (Suc k) - 8) s = put_bit_count (8 * int k - 8) s1"
    using s1(1) by (subst put_bit_count.simps) (simp add: ucast_and_ff nat_mult_distrib)
  with s1(3) s2 show ?case
    by (auto simp: same_hash_def be_bytes_Suc)
qed

subsection \<open>Absorbing a message\<close>

definition absorbed :: "Sha256 \<Rightarrow> bytes \<Rightarrow> bool" where
  "absorbed s m \<longleftrightarrow>
     (\<exists>bl r. m = concat bl @ r \<and> (\<forall>b \<in> set bl. length b = 64) \<and> length r < 64 \<and> filled s r \<and>
       sh_state s = fold fips_compress bl Sha256_initial_state)"

lemma absorbed_init: "absorbed Sha256_init []"
  by (auto simp: absorbed_def filled_def Sha256_init_def intro!: exI [of _ "[]"])

lemma absorbed_bit_count [simp]: "absorbed (s\<lparr>sh_bit_count := n\<rparr>) m = absorbed s m"
  by (simp add: absorbed_def filled_def)

lemma update_byte:
  assumes "absorbed s m"
  shows "\<exists>s'. update_loop (b # data) s = update_loop data s' \<and> absorbed s' (m @ [b]) \<and>
    sh_bit_count s' = sh_bit_count s"
proof -
  obtain bl r where m: "m = concat bl @ r" and bl: "\<forall>b \<in> set bl. length b = 64"
    and r: "length r < 64" "filled s r"
    and st: "sh_state s = fold fips_compress bl Sha256_initial_state"
    using assms by (auto simp: absorbed_def)
  obtain s1 where s1: "put_byte b s = Some s1" "filled s1 (r @ [b])" "same_hash s s1"
    using put_byte_filled [OF r(2,1)] by blast
  show ?thesis
  proof (cases "length r = 63")
    case True
    let ?s = "(run_block s1)\<lparr>sh_buffer_size := 0\<rparr>"
    have "sh_buffer s1 = r @ [b]" and sz: "sh_buffer_size s1 = 64"
      using True s1(2) filled_full [OF s1(2)] by (simp_all add: filled_def)
    then have "sh_state ?s = fold fips_compress (bl @ [r @ [b]]) Sha256_initial_state"
      and "filled ?s []"
      using True s1(2,3) st
      by (simp_all add: run_block_def process_block_eq same_hash_def filled_def)
    then have "absorbed ?s (m @ [b])"
      using bl True m unfolding absorbed_def by (intro exI [of _ "bl @ [r @ [b]]"] exI [of _ "[]"]) simp
    moreover have "update_loop (b # data) s = update_loop data ?s"
      using s1(1) sz by simp
    ultimately show ?thesis
      using s1(3) by (auto simp: run_block_def same_hash_def)
  next
    case False
    then have "absorbed s1 (m @ [b])"
      using bl r m st s1(2,3) unfolding absorbed_def
      by (intro exI [of _ bl] exI [of _ "r @ [b]"]) (simp add: same_hash_def)
    moreover have "update_loop (b # data) s = update_loop data s1"
      using s1(1,2) False by (simp add: filled_def)
    ultimately show ?thesis
      using s1(3) by (auto simp: same_hash_def)
  qed
qed

lemma update_loop_absorbed:
  assumes "absorbed s m"
  shows "\<exists>s'. update_loop data s = Some s' \<and> absorbed s' (m @ data) \<and>
    sh_bit_count s' = sh_bit_count s"
  using assms
proof (induction data arbitrary: s m)
  case Nil
  then show ?case by simp
next
  case (Cons b data)
  obtain s1 where "update_loop (b # data) s = update_loop data s1" "absorbed s1 (m @ [b])"
    "sh_bit_count s1 = sh_bit_count s"
    using update_byte [OF Cons.prems] by blast
  with Cons.IH [of s1 "m @ [b]"] show ?case by auto
qed

text \<open>
  What the class guarantees between calls: the state after absorbing \<open>m\<close>, bit count included.
\<close>

definition hashing :: "Sha256 \<Rightarrow> bytes \<Rightarrow> bool" where
  "hashing s m \<longleftrightarrow> absorbed s m \<and> sh_bit_count s = of_nat (8 * length m)"

lemma hashing_init: "hashing Sha256_init []"
  using absorbed_init by (simp add: hashing_def Sha256_init_def)

lemma update_hashing:
  assumes "hashing s m"
  shows "\<exists>s'. update data s = Some s' \<and> hashing s' (m @ data)"
  using assms update_loop_absorbed
    [of "s\<lparr>sh_bit_count := sh_bit_count s + of_nat (length data) * 8\<rparr>" m data]
  by (auto simp: hashing_def update_def algebra_simps)

subsection \<open>Padding and the digest\<close>

lemma fips_blocks_concat: "\<forall>b \<in> set bl. length b = 64 \<Longrightarrow> fips_blocks (concat bl) = bl"
proof (induction bl)
  case Nil
  then show ?case by (simp add: fips_blocks.simps)
next
  case (Cons b bl)
  then have "b @ concat bl \<noteq> []" by auto
  then have "fips_blocks (concat (b # bl)) = take 64 (b @ concat bl) # fips_blocks (drop 64 (b @ concat bl))"
    by (simp add: fips_blocks.simps [of "b @ concat bl"])
  then show ?case
    using Cons by simp
qed

lemma length_concat_blocks: "\<forall>b \<in> set bl. length b = 64 \<Longrightarrow> length (concat bl) mod 64 = 0"
  by (induction bl) auto

lemma run_block_full:
  assumes "filled s r" and "length r = 64"
  shows "sh_state (run_block s) = fips_compress r (sh_state s)"
  using assms filled_full [OF assms] by (simp add: run_block_def process_block_eq)

text \<open>The block that carries the length, and the block before it when the length does not fit.\<close>

definition tail_blocks :: "bytes \<Rightarrow> u64 \<Rightarrow> bytes list" where
  "tail_blocks r n =
     (if length r < 56 then [r @ [0x80] @ replicate (55 - length r) 0 @ be_bytes 8 n]
      else [r @ [0x80] @ replicate (63 - length r) 0, replicate 56 0 @ be_bytes 8 n])"

lemma length_tail_blocks: "length r < 64 \<Longrightarrow> \<forall>b \<in> set (tail_blocks r n). length b = 64"
  by (auto simp: tail_blocks_def)

lemma pad_zeros:
  fixes k :: nat
  shows "k < 56 \<Longrightarrow> (119 - k) mod 64 = 55 - k"
    and "56 \<le> k \<Longrightarrow> k < 64 \<Longrightarrow> (119 - k) mod 64 = (63 - k) + 56"
proof -
  assume "k < 56"
  then have "119 - k = (55 - k) + 64" and "55 - k < 64" by simp_all
  then show "(119 - k) mod 64 = 55 - k"
    by (metis mod_add_self2 mod_less)
next
  assume "56 \<le> k" and "k < 64"
  then have "119 - k = (63 - k) + 56" and "(63 - k) + 56 < 64" by simp_all
  then show "(119 - k) mod 64 = (63 - k) + 56"
    by (metis mod_less)
qed

lemma concat_tail_blocks:
  assumes "length r < 64" and "length m mod 64 = length r"
  shows "r @ [0x80] @ replicate ((119 - length m mod 64) mod 64) 0 @ be_bytes 8 n =
    concat (tail_blocks r n)"
proof (cases "length r < 56")
  case True
  then show ?thesis
    by (simp only: tail_blocks_def assms(2) pad_zeros(1) if_True concat.simps append_Nil2)
next
  case False
  then have "56 \<le> length r" by simp
  from pad_zeros(2) [OF this assms(1)] False show ?thesis
    by (simp only: tail_blocks_def assms(2) if_False concat.simps append_Nil2 replicate_add
        append_assoc)
qed

lemma final_length_block:
  assumes "filled s r" and "length r \<le> 56"
  shows "\<exists>s1 s2. pad_to 56 s = Some s1 \<and> put_bit_count 56 s1 = Some s2 \<and>
    sh_state (run_block s2) =
      fips_compress (r @ replicate (56 - length r) 0 @ be_bytes 8 (sh_bit_count s)) (sh_state s)"
proof -
  obtain s1 where s1: "pad_to 56 s = Some s1" "filled s1 (r @ replicate (56 - length r) 0)"
    "same_hash s s1"
    using pad_to_filled [OF assms(1), of "56 - length r"] assms(2) by auto
  obtain s2 where s2: "put_bit_count 56 s1 = Some s2"
    "filled s2 ((r @ replicate (56 - length r) 0) @ be_bytes 8 (sh_bit_count s1))" "same_hash s1 s2"
    using put_bit_count_filled [OF s1(2), of 8] assms(2) by auto
  have "sh_state (run_block s2) =
      fips_compress ((r @ replicate (56 - length r) 0) @ be_bytes 8 (sh_bit_count s1)) (sh_state s2)"
    using assms(2) by (intro run_block_full [OF s2(2)]) simp
  with s1 s2 show ?thesis
    by (auto simp: same_hash_def)
qed

lemma final_hex_tail:
  assumes "filled s r" and "length r < 64"
  shows "\<exists>s'. final_hex s = Some (concat (map hex_word
    (fold fips_compress (tail_blocks r (sh_bit_count s)) (sh_state s))), s')"
proof -
  obtain s1 where s1: "put_byte 0x80 s = Some s1" "filled s1 (r @ [0x80])" "same_hash s s1"
    using put_byte_filled [OF assms] by blast
  have sz: "sh_buffer_size s1 = length r + 1"
    using s1(2) by (simp add: filled_def)
  show ?thesis
  proof (cases "length r < 56")
    case True
    obtain s2 s3 where "pad_to 56 s1 = Some s2" "put_bit_count 56 s2 = Some s3"
      "sh_state (run_block s3) = fips_compress ((r @ [0x80]) @ replicate (56 - length (r @ [0x80])) 0 @
         be_bytes 8 (sh_bit_count s1)) (sh_state s1)"
      using final_length_block [OF s1(2)] True by auto
    then show ?thesis
      using s1 sz True by (simp add: final_hex_def tail_blocks_def same_hash_def Let_def)
  next
    case False
    obtain s2 where s2: "pad_to 64 s1 = Some s2" "filled s2 ((r @ [0x80]) @ replicate (63 - length r) 0)"
      "same_hash s1 s2"
      using pad_to_filled [OF s1(2), of "63 - length r"] assms(2) by auto
    let ?s3 = "(run_block s2)\<lparr>sh_buffer_size := 0\<rparr>"
    have "filled ?s3 []"
      using s2(2) by (intro filled_Nil) (simp add: run_block_def filled_def)
    then obtain s4 s5 where s5: "pad_to 56 ?s3 = Some s4" "put_bit_count 56 s4 = Some s5"
      "sh_state (run_block s5) =
         fips_compress (replicate 56 0 @ be_bytes 8 (sh_bit_count ?s3)) (sh_state ?s3)"
      using final_length_block [of ?s3 "[]"] by auto
    moreover have "sh_state (run_block s2) =
        fips_compress (r @ [0x80] @ replicate (63 - length r) 0) (sh_state s)"
      using run_block_full [OF s2(2)] assms(2) s1(3) s2(3) by (simp add: same_hash_def)
    moreover have "sh_bit_count ?s3 = sh_bit_count s"
      using s1(3) s2(3) by (simp add: same_hash_def run_block_def)
    ultimately show ?thesis
      using s1(1) s2(1) sz False by (simp add: final_hex_def tail_blocks_def Let_def)
  qed
qed

lemma mod_add_zero: "a mod n = 0 \<Longrightarrow> b < n \<Longrightarrow> (a + b) mod n = (b :: nat)"
  by (metis add_0 mod_add_left_eq mod_less)

lemma blocks_of_padded:
  assumes "m = concat bl @ r" and "\<forall>b \<in> set bl. length b = 64" and "length r < 64"
  shows "fips_blocks (fips_pad m) = bl @ tail_blocks r (of_nat (8 * length m))"
proof -
  let ?t = "tail_blocks r (of_nat (8 * length m))"
  have len: "length m mod 64 = length r"
    unfolding assms(1) length_append
    by (rule mod_add_zero [OF length_concat_blocks [OF assms(2)] assms(3)])
  have "fips_pad m = concat bl @ concat ?t"
    unfolding concat_tail_blocks [OF assms(3) len, symmetric] fips_pad_def
    by (subst (1) assms(1)) (simp only: append_assoc)
  then have "fips_pad m = concat (bl @ ?t)"
    by (simp only: concat_append)
  moreover have "\<forall>b \<in> set (bl @ ?t). length b = 64"
    using assms(2) length_tail_blocks [OF assms(3), of "of_nat (8 * length m)"]
    by (simp only: set_append ball_Un)
  ultimately show ?thesis
    by (simp only: fips_blocks_concat)
qed

lemma final_hex_hashing:
  assumes "hashing s m"
  shows "\<exists>s'. final_hex s = Some (sha256_reference m, s')"
proof -
  obtain bl r where m: "m = concat bl @ r" and bl: "\<forall>b \<in> set bl. length b = 64"
    and r: "length r < 64" "filled s r"
    and st: "sh_state s = fold fips_compress bl Sha256_initial_state"
    using assms unfolding hashing_def absorbed_def by blast
  have "sh_bit_count s = of_nat (8 * length m)"
    using assms by (simp only: hashing_def)
  then have "sha256_reference m = concat (map hex_word
      (fold fips_compress (tail_blocks r (sh_bit_count s)) (sh_state s)))"
    by (simp only: sha256_reference_def fips_H0_table blocks_of_padded [OF m bl r(1)] fold_append comp_apply st)
  with final_hex_tail [OF r(2,1)] show ?thesis
    by (simp only:)
qed

text \<open>
  The contract the file hasher relies on: a state, a way to feed it any piece of the message,
  and a final operation whose result depends on the concatenation alone.
\<close>

locale streaming_hash =
  fixes start :: 's
    and feed :: "bytes \<Rightarrow> 's \<Rightarrow> 's option"
    and finish :: "'s \<Rightarrow> (string \<times> 's) option"
    and fed :: "'s \<Rightarrow> bytes \<Rightarrow> bool"
    and digest :: "bytes \<Rightarrow> string"
  assumes fed_start: "fed start []"
    and fed_feed: "fed s m \<Longrightarrow> \<exists>s'. feed d s = Some s' \<and> fed s' (m @ d)"
    and finish_digest: "fed s m \<Longrightarrow> \<exists>s'. finish s = Some (digest m, s')"
begin

lemma feed_all:
  "fed s m \<Longrightarrow> \<exists>s'. fold (\<lambda>d r. Option.bind r (feed d)) ds (Some s) = Some s' \<and> fed s' (m @ concat ds)"
proof (induction ds arbitrary: s m)
  case Nil
  then show ?case by simp
next
  case (Cons d ds)
  then obtain s1 where "feed d s = Some s1" and "fed s1 (m @ d)"
    using fed_feed [of s m d] by blast
  then show ?case
    using Cons.IH [of s1 "m @ d"] by simp
qed

lemma digest_of_pieces:
  "map_option fst (Option.bind (fold (\<lambda>d r. Option.bind r (feed d)) ds (Some start)) finish) =
     Some (digest (concat ds))"
proof -
  obtain s where "fold (\<lambda>d r. Option.bind r (feed d)) ds (Some start) = Some s" "fed s (concat ds)"
    using feed_all [OF fed_start, of ds] by auto
  then show ?thesis
    using finish_digest [of s "concat ds"] by auto
qed

end

interpretation sha: streaming_hash Sha256_init update final_hex hashing sha256_reference
  by unfold_locales (simp_all add: hashing_init update_hashing final_hex_hashing)

subsection \<open>The shape of a digest\<close>

lemma all_hex_digits_iff: "all_hex_digits s \<longleftrightarrow> (\<forall>c \<in> set s. is_hex_digit c)"
  by (induction s) auto

lemma is_sha256_hex_iff: "is_sha256_hex s \<longleftrightarrow> length s = 64 \<and> (\<forall>c \<in> set s. is_hex_digit c)"
  by (simp add: is_sha256_hex_def all_hex_digits_iff)

lemma nat_of_int_char: "(of_char c :: int) = int (of_char c)"
  by (simp add: of_nat_of_char)

lemma hex_digit_char: "0 \<le> d \<Longrightarrow> d < 16 \<Longrightarrow> is_hex_digit (digit_char d)"
proof -
  assume d: "0 \<le> d" "d < 16"
  then have "(of_char (digit_char d) :: int) = (if d < 10 then 48 + d else 87 + d)"
    by (simp add: digit_char_def)
  then show ?thesis
    using d by (auto simp: is_hex_digit_def Let_def nat_of_int_char split: if_splits)
qed

lemma hex_word_shape: "length (hex_word w) = 8" "c \<in> set (hex_word w) \<Longrightarrow> is_hex_digit c"
proof -
  have "uint w < 16 ^ Suc 7"
    using uint_lt2p [of w] by simp
  then have "length (show_base 16 (uint w)) \<le> 8"
    using length_show_base [of 16 "uint w" 7] by simp
  then show "length (hex_word w) = 8"
    by (simp add: hex_word_def pad_left_def)
  assume "c \<in> set (hex_word w)"
  then have "c = CHR ''0'' \<or> c \<in> set (show_base 16 (uint w))"
    by (auto simp: hex_word_def pad_left_def)
  moreover have "is_hex_digit (CHR ''0'')"
    by (simp add: is_hex_digit_def)
  ultimately show "is_hex_digit c"
    using set_show_base [of 16 "uint w"] hex_digit_char by auto
qed

lemma length_fips_compress: "length (fips_compress M H) = 8"
  by (simp add: fips_compress_def split: prod.splits)

lemma length_fold_compress: "length H = 8 \<Longrightarrow> length (fold fips_compress bl H) = 8"
  by (induction bl arbitrary: H) (simp_all add: length_fips_compress)

lemma sha256_reference_shape: "is_sha256_hex (sha256_reference m)"
proof -
  let ?H = "fold fips_compress (fips_blocks (fips_pad m)) Sha256_initial_state"
  have "length ?H = 8"
    by (rule length_fold_compress) (simp add: Sha256_initial_state_def)
  moreover have "length (concat (map hex_word H)) = 8 * length H" for H
    by (induction H) (simp_all add: hex_word_shape(1))
  ultimately show ?thesis
    by (auto simp: is_sha256_hex_iff sha256_reference_def fips_H0_table dest: hex_word_shape(2))
qed

subsection \<open>Property\<close>

text \<open>
  C8: feeding a message in any pieces and finishing gives the digest that the standard defines
  for the concatenation, as 64 lower-case hexadecimal digits; no access leaves the block
  buffer.
\<close>

theorem sha256_implements_standard:
  "map_option fst
     (Option.bind (fold (\<lambda>d r. Option.bind r (update d)) ds (Some Sha256_init)) final_hex) =
   Some (sha256_reference (concat ds)) \<and> is_sha256_hex (sha256_reference (concat ds))"
  using sha.digest_of_pieces [of ds] sha256_reference_shape by blast

end
