(* ===== verification/Files.thy ===== *)
theory Files
  imports Sha256_Spec
begin

text \<open>
  Files and the iostream classes as far as the program uses them: \<open>ifstream\<close> (open, \<open>seekg\<close>,
  \<open>read\<close>, the state bits), \<open>ofstream\<close> with truncation, \<open>fstream\<close> opened for update, and
  \<open>std::remove\<close> and \<open>std::rename\<close>; then the two functions that read a whole file,
  \<open>file_size\<close> and \<open>sha256_file\<close>.

  A file system maps paths to contents. What may go wrong is part of it: opening for reading or
  writing and removing an entry can be forbidden, one byte of a file can be unreadable, and a
  file can hold only so many bytes; that number belongs to the file, so files do not compete for
  the room of one device. No other process changes the files during a run. An update
  stream keeps small writes in its buffer until the next seek or until it is closed, and
  closing reports nothing; the capacity of that buffer is a field of the file system.
\<close>

record fs =
  fs_files :: "string \<Rightarrow> bytes option"
  fs_may_read :: "string \<Rightarrow> bool"
  fs_may_write :: "string \<Rightarrow> bool"
  fs_may_unlink :: "string \<Rightarrow> bool"
  fs_bad :: "string \<Rightarrow> nat option"
  fs_room :: "string \<Rightarrow> nat"
  fs_buffer :: nat

definition fs_put :: "string \<Rightarrow> bytes option \<Rightarrow> fs \<Rightarrow> fs" where
  "fs_put path c fs = fs\<lparr>fs_files := (fs_files fs)(path := c)\<rparr>"

lemma fs_put_simps [fs_simps]:
  "fs_files (fs_put p c fs) q = (if q = p then c else fs_files fs q)"
  "fs_may_read (fs_put p c fs) = fs_may_read fs"
  "fs_may_write (fs_put p c fs) = fs_may_write fs"
  "fs_may_unlink (fs_put p c fs) = fs_may_unlink fs"
  "fs_bad (fs_put p c fs) = fs_bad fs"
  "fs_room (fs_put p c fs) = fs_room fs"
  "fs_buffer (fs_put p c fs) = fs_buffer fs"
  by (simp_all add: fs_put_def)

subsection \<open>Reading\<close>

record ifstream =
  is_path :: string
  is_pos :: nat
  is_eof :: bool
  is_fail :: bool
  is_bad :: bool

definition can_open :: "string \<Rightarrow> fs \<Rightarrow> bool" where
  "can_open path fs \<longleftrightarrow> fs_files fs path \<noteq> None \<and> fs_may_read fs path"

definition ifstream_open :: "string \<Rightarrow> fs \<Rightarrow> ifstream" where
  "ifstream_open path fs =
     \<lparr>is_path = path, is_pos = 0, is_eof = False, is_fail = \<not> can_open path fs, is_bad = False\<rparr>"

definition istream_ok :: "ifstream \<Rightarrow> bool" where
  "istream_ok s \<longleftrightarrow> \<not> is_fail s \<and> \<not> is_bad s"

definition ifstream_content :: "fs \<Rightarrow> ifstream \<Rightarrow> bytes" where
  "ifstream_content fs s = (case fs_files fs (is_path s) of None \<Rightarrow> [] | Some c \<Rightarrow> c)"

definition unreadable :: "fs \<Rightarrow> string \<Rightarrow> nat \<Rightarrow> nat \<Rightarrow> bool" where
  "unreadable fs path lo hi =
     (case fs_bad fs path of None \<Rightarrow> False | Some b \<Rightarrow> lo \<le> b \<and> b < hi)"

text \<open>\<open>read\<close> returns the characters it stored; their number is \<open>gcount\<close>.\<close>

definition istream_read :: "fs \<Rightarrow> nat \<Rightarrow> ifstream \<Rightarrow> bytes \<times> ifstream" where
  "istream_read fs n s =
     (if is_eof s \<or> \<not> istream_ok s then ([], s\<lparr>is_fail := True\<rparr>)
      else
        let c = ifstream_content fs s
        in if unreadable fs (is_path s) (is_pos s) (min (is_pos s + n) (length c))
           then ([], s\<lparr>is_bad := True\<rparr>)
           else
             let data = take n (drop (is_pos s) c);
                 s = s\<lparr>is_pos := is_pos s + length data\<rparr>
             in (data, if length data < n then s\<lparr>is_eof := True, is_fail := True\<rparr> else s))"

definition istream_seekg :: "u64 \<Rightarrow> ifstream \<Rightarrow> ifstream" where
  "istream_seekg off s =
     (let s = s\<lparr>is_eof := False\<rparr>
      in if \<not> istream_ok s then s
         else if sint off < 0 then s\<lparr>is_fail := True\<rparr>
         else s\<lparr>is_pos := unat off\<rparr>)"

definition file_exists :: "string \<Rightarrow> fs \<Rightarrow> bool" where
  "file_exists path fs = istream_ok (ifstream_open path fs)"

definition file_size :: "string \<Rightarrow> fs \<Rightarrow> cpp_exception + u64" where
  "file_size path fs =
     (let file = ifstream_open path fs
      in if \<not> istream_ok file then Inl (Runtime_error (''unable to open file: '' @ path))
         else if length (ifstream_content fs file) \<ge> 2 ^ 63
         then Inl (Runtime_error (''unable to read file size: '' @ path))
         else Inr (of_nat (length (ifstream_content fs file))))"

partial_function (option) sha256_loop ::
    "fs \<Rightarrow> ifstream \<Rightarrow> Sha256 \<Rightarrow> (ifstream \<times> Sha256) option" where
  "sha256_loop fs file sha =
     (if istream_ok file then
        let (data, file) = istream_read fs (64 * 1024) file
        in do {
          sha \<leftarrow> (if length data > 0 then update data sha else Some sha);
          sha256_loop fs file sha
        }
      else Some (file, sha))"

definition sha256_file :: "string \<Rightarrow> fs \<Rightarrow> (cpp_exception + string) option" where
  "sha256_file path fs =
     (let file = ifstream_open path fs
      in if \<not> istream_ok file
         then Some (Inl (Runtime_error (''unable to open file for SHA-256: '' @ path)))
         else do {
           (file, sha) \<leftarrow> sha256_loop fs file Sha256_init;
           if \<not> is_eof file
           then Some (Inl (Runtime_error (''unable to read file for SHA-256: '' @ path)))
           else do {
             (hex, sha) \<leftarrow> final_hex sha;
             Some (Inr hex)
           }
         })"

subsection \<open>Writing\<close>

definition overwrite :: "nat \<Rightarrow> bytes \<Rightarrow> bytes \<Rightarrow> bytes" where
  "overwrite pos bs c =
     (if bs = [] then c
      else take pos (c @ replicate (pos - length c) 0) @ bs @ drop (pos + length bs) c)"

definition device_write :: "string \<Rightarrow> nat \<Rightarrow> bytes \<Rightarrow> fs \<Rightarrow> bool \<times> fs" where
  "device_write path pos bs fs =
     (case fs_files fs path of
        None \<Rightarrow> (True, fs)
      | Some c \<Rightarrow>
          let fitting = take (fs_room fs path - pos) bs
          in (length fitting = length bs, fs_put path (Some (overwrite pos fitting c)) fs))"

text \<open>
  A text file written through an \<open>ofstream\<close> whose state is only looked at after opening: the
  insertions end up in the file as far as they fit.
\<close>

definition ofstream_create :: "string \<Rightarrow> bytes \<Rightarrow> fs \<Rightarrow> bool \<times> fs" where
  "ofstream_create path text fs =
     (if \<not> fs_may_write fs path then (False, fs)
      else (True, snd (device_write path 0 text (fs_put path (Some []) fs))))"

definition fs_remove :: "string \<Rightarrow> fs \<Rightarrow> bool \<times> fs" where
  "fs_remove path fs =
     (if fs_files fs path \<noteq> None \<and> fs_may_unlink fs path then (True, fs_put path None fs)
      else (False, fs))"

definition fs_rename :: "string \<Rightarrow> string \<Rightarrow> fs \<Rightarrow> bool \<times> fs" where
  "fs_rename from_path to_path fs =
     (if fs_files fs from_path \<noteq> None \<and> fs_may_unlink fs from_path \<and> fs_may_unlink fs to_path
      then (True, if from_path = to_path then fs
                  else fs_put to_path (fs_files fs from_path) (fs_put from_path None fs))
      else (False, fs))"

record fstream =
  fo_path :: string
  fo_pos :: nat
  fo_pending :: bytes
  fo_fail :: bool

definition fstream_open :: "string \<Rightarrow> fs \<Rightarrow> fstream" where
  "fstream_open path fs =
     \<lparr>fo_path = path, fo_pos = 0, fo_pending = [],
      fo_fail = \<not> (can_open path fs \<and> fs_may_write fs path)\<rparr>"

definition fstream_flush :: "fstream \<Rightarrow> fs \<Rightarrow> bool \<times> fstream \<times> fs" where
  "fstream_flush s fs =
     (let (ok, fs) = device_write (fo_path s) (fo_pos s) (fo_pending s) fs
      in (ok, s\<lparr>fo_pos := fo_pos s + length (fo_pending s), fo_pending := []\<rparr>, fs))"

definition fstream_seekp :: "u64 \<Rightarrow> fstream \<Rightarrow> fs \<Rightarrow> fstream \<times> fs" where
  "fstream_seekp off s fs =
     (if fo_fail s then (s, fs)
      else
        let (ok, s, fs) = fstream_flush s fs
        in if \<not> ok \<or> sint off < 0 then (s\<lparr>fo_fail := True\<rparr>, fs)
           else (s\<lparr>fo_pos := unat off\<rparr>, fs))"

definition fstream_write :: "bytes \<Rightarrow> fstream \<Rightarrow> fs \<Rightarrow> fstream \<times> fs" where
  "fstream_write bs s fs =
     (if fo_fail s then (s, fs)
      else
        let s = s\<lparr>fo_pending := fo_pending s @ bs\<rparr>
        in if length (fo_pending s) < fs_buffer fs then (s, fs)
           else
             let (ok, s, fs) = fstream_flush s fs
             in (s\<lparr>fo_fail := \<not> ok\<rparr>, fs))"

definition fstream_close :: "fstream \<Rightarrow> fs \<Rightarrow> fs" where
  "fstream_close s fs = snd (snd (fstream_flush s fs))"

subsection \<open>Hashing a file\<close>

lemma sint_offset:
  fixes x :: u64
  assumes "unat x < 2 ^ 63"
  shows "sint x = int (unat x)"
proof -
  have u: "uint x = int (unat x)"
    by simp
  have "int (unat x) < int (2 ^ 63)"
    using assms by (simp only: of_nat_less_iff)
  then have "uint x < 2 ^ 63"
    by (simp only: u of_nat_power of_nat_numeral)
  moreover have "- (2 ^ 63) \<le> uint x"
    unfolding u by (rule order_trans [of _ 0]) simp_all
  ultimately have "signed_take_bit 63 (uint x) = uint x"
    by (intro signed_take_bit_int_eq_self)
  then show ?thesis
    by (simp add: sint_uint)
qed

lemma file_exists_iff: "file_exists path fs = can_open path fs"
  by (simp add: file_exists_def istream_ok_def ifstream_open_def)

lemma sha256_loop_result:
  assumes "fs_files fs (is_path s) = Some c" and "istream_ok s" and "\<not> is_eof s"
    and "hashing sha (take (is_pos s) c)" and "is_pos s \<le> length c"
  shows "\<exists>s' sha'. sha256_loop fs s sha = Some (s', sha') \<and>
    (if unreadable fs (is_path s) (is_pos s) (length c) then \<not> is_eof s'
     else is_eof s' \<and> hashing sha' c)"
  using assms
proof (induction "length c - is_pos s" arbitrary: s sha rule: less_induct)
  case less
  define n where "n = (64 * 1024 :: nat)"
  have content: "ifstream_content fs s = c"
    using less.prems(1) by (simp add: ifstream_content_def)
  note step = sha256_loop.simps [of fs s sha, folded n_def]
  have n0: "0 < n"
    by (simp add: n_def)
  show ?case
  proof (cases "unreadable fs (is_path s) (is_pos s) (min (is_pos s + n) (length c))")
    case True
    then have "istream_read fs n s = ([], s\<lparr>is_bad := True\<rparr>)"
      using less.prems(2,3) by (simp add: istream_read_def content Let_def)
    then have "sha256_loop fs s sha = sha256_loop fs (s\<lparr>is_bad := True\<rparr>) sha"
      using less.prems(2) by (simp add: step)
    also have "\<dots> = Some (s\<lparr>is_bad := True\<rparr>, sha)"
      by (subst sha256_loop.simps) (simp add: istream_ok_def)
    moreover have "unreadable fs (is_path s) (is_pos s) (length c)"
      using True by (auto simp: unreadable_def split: option.splits)
    ultimately show ?thesis
      using less.prems(3) by simp
  next
    case ok: False
    define data where "data = take n (drop (is_pos s) c)"
    define s1 where "s1 = s\<lparr>is_pos := is_pos s + length data\<rparr>"
    have read: "istream_read fs n s =
        (data, if length data < n then s1\<lparr>is_eof := True, is_fail := True\<rparr> else s1)"
      using less.prems(2,3) ok by (simp add: istream_read_def content Let_def data_def s1_def)
    obtain sha1 where sha1: "(if length data > 0 then update data sha else Some sha) = Some sha1"
      "hashing sha1 (take (is_pos s) c @ data)"
      using update_hashing [OF less.prems(4), of data] less.prems(4) by (cases "data = []") auto
    have joined: "take (is_pos s) c @ data = take (is_pos s + length data) c"
      using less.prems(5) by (simp add: data_def take_add min_def)
    show ?thesis
    proof (cases "length data < n")
      case True
      then have len: "length c < is_pos s + n"
        by (simp add: data_def min_def split: if_splits)
      then have all: "take (is_pos s) c @ data = c"
        by (simp add: data_def)
      have "sha256_loop fs s sha = sha256_loop fs (s1\<lparr>is_eof := True, is_fail := True\<rparr>) sha1"
        using less.prems(2) sha1(1) by (simp add: step read True)
      also have "\<dots> = Some (s1\<lparr>is_eof := True, is_fail := True\<rparr>, sha1)"
        by (subst sha256_loop.simps) (simp add: istream_ok_def)
      moreover have "\<not> unreadable fs (is_path s) (is_pos s) (length c)"
        using ok len by (simp add: min_def split: if_splits)
      ultimately show ?thesis
        using sha1(2) all by simp
    next
      case False
      then have len: "length data = n" "is_pos s + n \<le> length c"
        using less.prems(5) by (auto simp: data_def min_def split: if_splits)
      have "sha256_loop fs s sha = sha256_loop fs s1 sha1"
        using less.prems(2) sha1(1) by (simp add: step read False)
      moreover have "length c - is_pos s1 < length c - is_pos s"
        using len n0 by (simp add: s1_def)
      moreover have "unreadable fs (is_path s1) (is_pos s1) (length c) \<longleftrightarrow>
          unreadable fs (is_path s) (is_pos s) (length c)"
        using ok len by (auto simp: s1_def unreadable_def min_def split: option.splits)
      moreover have "istream_ok s1" "\<not> is_eof s1" "fs_files fs (is_path s1) = Some c"
        "is_pos s1 \<le> length c" "hashing sha1 (take (is_pos s1) c)"
        using less.prems len sha1(2) joined by (simp_all add: s1_def istream_ok_def)
      ultimately show ?thesis
        using less.hyps [of s1 sha1] by simp
    qed
  qed
qed

text \<open>
  The file hasher returns on every file: with the exception for a file that cannot be opened or
  read, and otherwise with the digest of the whole content.
\<close>

lemma sha256_file_eq:
  "sha256_file path fs =
     Some (case fs_files fs path of
             None \<Rightarrow> Inl (Runtime_error (''unable to open file for SHA-256: '' @ path))
           | Some c \<Rightarrow>
               if \<not> fs_may_read fs path
               then Inl (Runtime_error (''unable to open file for SHA-256: '' @ path))
               else if unreadable fs path 0 (length c)
               then Inl (Runtime_error (''unable to read file for SHA-256: '' @ path))
               else Inr (sha256_reference c))"
proof (cases "can_open path fs")
  case False
  then show ?thesis
    by (auto simp: sha256_file_def ifstream_open_def istream_ok_def can_open_def split: option.splits)
next
  case True
  let ?s = "ifstream_open path fs"
  obtain c where c: "fs_files fs path = Some c" "fs_may_read fs path"
    using True by (auto simp: can_open_def)
  have ok: "istream_ok ?s" "\<not> is_eof ?s" and s: "is_path ?s = path" "is_pos ?s = 0"
    using True by (simp_all add: ifstream_open_def istream_ok_def)
  obtain s' sha' where loop: "sha256_loop fs ?s Sha256_init = Some (s', sha')"
    "if unreadable fs path 0 (length c) then \<not> is_eof s' else is_eof s' \<and> hashing sha' c"
    using sha256_loop_result [of fs ?s c Sha256_init] ok s c hashing_init by auto
  then show ?thesis
    using ok(1) c final_hex_hashing [of sha' c]
    by (auto simp: sha256_file_def Let_def split: if_splits)
qed

subsection \<open>Replacing a file\<close>

text \<open>
  What a program that replaces a file by writing a temporary one relies on: creating cuts the
  text to what fits, removing and renaming either succeed or change nothing, and no operation
  touches a path it is not given.
\<close>

locale file_store =
  fixes content :: "'f \<Rightarrow> string \<Rightarrow> bytes option"
    and create :: "string \<Rightarrow> bytes \<Rightarrow> 'f \<Rightarrow> bool \<times> 'f"
    and unlink :: "string \<Rightarrow> 'f \<Rightarrow> bool \<times> 'f"
    and move :: "string \<Rightarrow> string \<Rightarrow> 'f \<Rightarrow> bool \<times> 'f"
    and same_env :: "'f \<Rightarrow> 'f \<Rightarrow> bool"
    and room :: "'f \<Rightarrow> string \<Rightarrow> nat"
  assumes create_law: "create p text f = (ok, f') \<Longrightarrow>
      content f' = (if ok then (content f)(p \<mapsto> take (room f p) text) else content f) \<and> same_env f f'"
    and unlink_law: "unlink p f = (ok, f') \<Longrightarrow>
      content f' = (if ok then (content f)(p := None) else content f) \<and> same_env f f'"
    and move_law: "p \<noteq> q \<Longrightarrow> move p q f = (ok, f') \<Longrightarrow>
      content f' = (if ok then (content f)(q := content f p, p := None) else content f) \<and>
      same_env f f'"
    and same_env_trans: "same_env f g \<Longrightarrow> same_env g h \<Longrightarrow> same_env f h"
    and same_env_refl: "same_env f f"
begin

definition replace :: "string \<Rightarrow> string \<Rightarrow> bytes \<Rightarrow> 'f \<Rightarrow> bool \<times> 'f" where
  "replace tmp p text f =
     (let (ok, f) = create tmp text f
      in if \<not> ok then (False, f) else let (_, f) = unlink p f in move tmp p f)"

lemma replace_result:
  assumes "tmp \<noteq> p" and "replace tmp p text f = (ok, f')"
  shows "same_env f f' \<and> (\<forall>q. q \<noteq> p \<longrightarrow> q \<noteq> tmp \<longrightarrow> content f' q = content f q) \<and>
    (ok \<longrightarrow> content f' p = Some (take (room f tmp) text) \<and> content f' tmp = None) \<and>
    (\<not> ok \<longrightarrow> content f' p = content f p \<or>
       content f' p = None \<and> content f' tmp = Some (take (room f tmp) text))"
proof -
  obtain ok1 f1 where c: "create tmp text f = (ok1, f1)"
    by (cases "create tmp text f")
  obtain ok2 f2 where u: "unlink p f1 = (ok2, f2)"
    by (cases "unlink p f1")
  obtain ok3 f3 where m: "move tmp p f2 = (ok3, f3)"
    by (cases "move tmp p f2")
  have res: "ok = (ok1 \<and> ok3)" "f' = (if ok1 then f3 else f1)"
    using assms(2) c u m by (auto simp: replace_def split: if_splits)
  show ?thesis
  proof (cases ok1)
    case False
    with create_law [OF c] res show ?thesis
      by simp
  next
    case True
    have "same_env f f3"
      using create_law [OF c] unlink_law [OF u] move_law [OF assms(1) m] same_env_trans by blast
    with True create_law [OF c] unlink_law [OF u] move_law [OF assms(1) m] res assms(1)
    show ?thesis
      by (cases ok2; cases ok3) auto
  qed
qed

end

definition fs_env :: "fs \<Rightarrow> fs \<Rightarrow> bool" where
  "fs_env f g \<longleftrightarrow> g\<lparr>fs_files := fs_files f\<rparr> = f"

lemma fs_env_put [fs_simps]: "fs_env f (fs_put p c g) = fs_env f g"
  by (simp add: fs_env_def fs_put_def)

lemma fs_env_refl [simp]: "fs_env f f"
  by (simp add: fs_env_def)

lemma fs_env_iff:
  "fs_env f g \<longleftrightarrow> fs_may_read g = fs_may_read f \<and> fs_may_write g = fs_may_write f \<and>
     fs_may_unlink g = fs_may_unlink f \<and> fs_bad g = fs_bad f \<and> fs_room g = fs_room f \<and>
     fs_buffer g = fs_buffer f"
  by (cases f; cases g) (auto simp: fs_env_def)

lemma fs_env_fields:
  assumes "fs_env f g"
  shows "fs_may_read g = fs_may_read f" and "fs_may_write g = fs_may_write f"
    and "fs_may_unlink g = fs_may_unlink f" and "fs_bad g = fs_bad f"
    and "fs_room g = fs_room f" and "fs_buffer g = fs_buffer f"
  using assms by (simp_all add: fs_env_iff)

lemma fs_env_trans [trans]: "fs_env f g \<Longrightarrow> fs_env g h \<Longrightarrow> fs_env f h"
  by (simp add: fs_env_iff)

lemma overwrite_start: "overwrite 0 bs [] = bs"
  by (simp add: overwrite_def)

lemma ofstream_create_eq:
  "ofstream_create p text fs =
     (if fs_may_write fs p then (True, fs_put p (Some (take (fs_room fs p) text)) fs) else (False, fs))"
  by (simp add: ofstream_create_def device_write_def fs_simps Let_def overwrite_start)
    (simp add: fs_put_def)

interpretation files: file_store fs_files ofstream_create fs_remove fs_rename fs_env fs_room
proof
  fix p tx f ok f'
  assume "ofstream_create p tx f = (ok, f')"
  then show "fs_files f' = (if ok then (fs_files f)(p \<mapsto> take (fs_room f p) tx) else fs_files f) \<and>
      fs_env f f'"
    by (auto simp: ofstream_create_eq fs_put_def fs_env_def split: if_splits)
next
  fix p f ok f'
  assume "fs_remove p f = (ok, f')"
  then show "fs_files f' = (if ok then (fs_files f)(p := None) else fs_files f) \<and> fs_env f f'"
    by (auto simp: fs_remove_def fs_put_def fs_env_def split: if_splits)
next
  fix p q f ok f'
  assume "p \<noteq> q" and "fs_rename p q f = (ok, f')"
  then show "fs_files f' = (if ok then (fs_files f)(q := fs_files f p, p := None) else fs_files f) \<and>
      fs_env f f'"
    by (auto simp: fs_rename_def fs_put_def fs_env_def split: if_splits)
qed (auto intro: fs_env_trans)

subsection \<open>Writing at an offset\<close>

lemma length_overwrite:
  "length (overwrite pos bs c) = (if bs = [] then length c else max (length c) (pos + length bs))"
  by (auto simp: overwrite_def min_def max_def)

text \<open>The bytes from \<open>pos\<close> on, as far as \<open>n\<close>.\<close>

definition slice :: "nat \<Rightarrow> nat \<Rightarrow> bytes \<Rightarrow> bytes" where
  "slice pos n c = take n (drop pos c)"

lemma slice_overwrite_same: "slice pos (length bs) (overwrite pos bs c) = bs"
  by (simp add: slice_def overwrite_def)

lemma nth_overwrite:
  "i < length c \<Longrightarrow> i < pos \<or> pos + length bs \<le> i \<Longrightarrow> overwrite pos bs c ! i = c ! i"
  by (auto simp: overwrite_def nth_append min_def)

lemma slice_overwrite_other:
  assumes "length (slice p n c) = n" and "p + n \<le> pos \<or> pos + length bs \<le> p"
  shows "slice p n (overwrite pos bs c) = slice p n c"
proof (cases "n = 0")
  case False
  then have len: "p + n \<le> length c"
    using assms(1) by (simp add: slice_def)
  show ?thesis
  proof (rule nth_equalityI)
    show "length (slice p n (overwrite pos bs c)) = length (slice p n c)"
      using len by (simp add: slice_def length_overwrite)
    fix i
    assume "i < length (slice p n (overwrite pos bs c))"
    then have "i < n"
      by (simp add: slice_def)
    moreover have "p \<le> length (overwrite pos bs c)"
      using len by (simp add: length_overwrite max_def)
    ultimately show "slice p n (overwrite pos bs c) ! i = slice p n c ! i"
      using len assms(2) nth_overwrite [of "p + i" c pos bs] by (auto simp: slice_def)
  qed
qed (simp add: slice_def)

lemma device_write_files:
  assumes "device_write p pos bs f = (ok, f')"
  shows "fs_env f f'" and "q \<noteq> p \<Longrightarrow> fs_files f' q = fs_files f q"
    and "fs_files f p = Some c \<Longrightarrow> ok \<Longrightarrow> fs_files f' p = Some (overwrite pos bs c)"
    and "fs_files f p = Some c \<Longrightarrow> pos + length bs \<le> fs_room f p \<Longrightarrow> ok"
    and "fs_files f' p \<noteq> None \<longleftrightarrow> fs_files f p \<noteq> None"
  using assms by (auto simp: device_write_def fs_simps Let_def split: option.splits)

subsection \<open>The update stream\<close>

text \<open>The content that the file has once the buffer has been written out.\<close>

definition stream_view :: "fstream \<Rightarrow> fs \<Rightarrow> bytes option" where
  "stream_view s fs = map_option (overwrite (fo_pos s) (fo_pending s)) (fs_files fs (fo_path s))"

definition stream_fits :: "fstream \<Rightarrow> fs \<Rightarrow> bool" where
  "stream_fits s fs \<longleftrightarrow> fo_pos s + length (fo_pending s) \<le> fs_room fs (fo_path s)"

lemma overwrite_Nil [simp]: "overwrite pos [] c = c"
  by (simp add: overwrite_def)

lemma flush_result:
  assumes "fs_files fs (fo_path s) = Some c" and "fstream_flush s fs = (ok, s', fs')"
  shows "fs_env fs fs'" and "q \<noteq> fo_path s \<Longrightarrow> fs_files fs' q = fs_files fs q"
    and "\<exists>c'. fs_files fs' (fo_path s) = Some c'"
    and "s' = s\<lparr>fo_pos := fo_pos s + length (fo_pending s), fo_pending := []\<rparr>"
    and "ok \<Longrightarrow> fs_files fs' (fo_path s) = stream_view s fs"
    and "stream_fits s fs \<Longrightarrow> ok"
proof -
  have dw: "device_write (fo_path s) (fo_pos s) (fo_pending s) fs = (ok, fs')"
    and s': "s' = s\<lparr>fo_pos := fo_pos s + length (fo_pending s), fo_pending := []\<rparr>"
    using assms(2) by (auto simp: fstream_flush_def split: prod.splits)
  note w = device_write_files [OF dw]
  show "fs_env fs fs'" "s' = s\<lparr>fo_pos := fo_pos s + length (fo_pending s), fo_pending := []\<rparr>"
    by (fact w(1), fact s')
  show "q \<noteq> fo_path s \<Longrightarrow> fs_files fs' q = fs_files fs q"
    by (rule w(2))
  show "\<exists>c'. fs_files fs' (fo_path s) = Some c'"
    using w(5) assms(1) by auto
  show "ok \<Longrightarrow> fs_files fs' (fo_path s) = stream_view s fs"
    using w(3) [OF assms(1)] assms(1) by (simp add: stream_view_def)
  show "stream_fits s fs \<Longrightarrow> ok"
    using w(4) [OF assms(1)] by (simp add: stream_fits_def)
qed

lemma seekp_result:
  assumes "\<not> fo_fail s" and "fs_files fs (fo_path s) = Some c" and "fstream_seekp off s fs = (s', fs')"
  shows "fs_env fs fs'" and "q \<noteq> fo_path s \<Longrightarrow> fs_files fs' q = fs_files fs q"
    and "\<exists>c'. fs_files fs' (fo_path s) = Some c'" and "fo_path s' = fo_path s"
    and "fo_pending s' = []"
    and "\<not> fo_fail s' \<Longrightarrow> fs_files fs' (fo_path s) = stream_view s fs \<and> fo_pos s' = unat off"
    and "stream_fits s fs \<Longrightarrow> unat off < 2 ^ 63 \<Longrightarrow> \<not> fo_fail s'"
proof -
  obtain ok s1 where flush: "fstream_flush s fs = (ok, s1, fs')"
    and s': "s' = (if \<not> ok \<or> sint off < 0 then s1\<lparr>fo_fail := True\<rparr> else s1\<lparr>fo_pos := unat off\<rparr>)"
    using assms(1,3) by (auto simp: fstream_seekp_def split: prod.splits if_splits)
  note f = flush_result [OF assms(2) flush]
  show "fs_env fs fs'" "\<exists>c'. fs_files fs' (fo_path s) = Some c'"
    by (fact f(1), fact f(3))
  show "q \<noteq> fo_path s \<Longrightarrow> fs_files fs' q = fs_files fs q"
    by (rule f(2))
  show "fo_path s' = fo_path s" "fo_pending s' = []"
    by (simp_all add: s' f(4))
  show "\<not> fo_fail s' \<Longrightarrow> fs_files fs' (fo_path s) = stream_view s fs \<and> fo_pos s' = unat off"
    using f(5) by (auto simp: s' split: if_splits)
  show "stream_fits s fs \<Longrightarrow> unat off < 2 ^ 63 \<Longrightarrow> \<not> fo_fail s'"
    using f(6) assms(1) by (simp add: s' f(4) sint_offset)
qed

lemma write_result:
  assumes "\<not> fo_fail s" and "fs_files fs (fo_path s) = Some c" and "fo_pending s = []"
    and "fstream_write bs s fs = (s', fs')"
  shows "fs_env fs fs'" and "q \<noteq> fo_path s \<Longrightarrow> fs_files fs' q = fs_files fs q"
    and "\<exists>c'. fs_files fs' (fo_path s) = Some c'" and "fo_path s' = fo_path s"
    and "\<not> fo_fail s' \<Longrightarrow> stream_view s' fs' = Some (overwrite (fo_pos s) bs c)"
    and "fo_pos s + length bs \<le> fs_room fs (fo_path s) \<Longrightarrow> \<not> fo_fail s' \<and> stream_fits s' fs'"
proof -
  define s1 where "s1 = s\<lparr>fo_pending := bs\<rparr>"
  have s1: "fo_path s1 = fo_path s" "fs_files fs (fo_path s1) = Some c"
    "stream_view s1 fs = Some (overwrite (fo_pos s) bs c)"
    using assms(2) by (simp_all add: s1_def stream_view_def)
  consider (buffered) "s' = s1" "fs' = fs"
    | (direct) ok s2 where "fstream_flush s1 fs = (ok, s2, fs')" "s' = s2\<lparr>fo_fail := \<not> ok\<rparr>"
    using assms(1,3,4) by (auto simp: fstream_write_def s1_def Let_def split: if_splits prod.splits)
  then have "fs_env fs fs' \<and> (q \<noteq> fo_path s \<longrightarrow> fs_files fs' q = fs_files fs q) \<and>
    (\<exists>c'. fs_files fs' (fo_path s) = Some c') \<and> fo_path s' = fo_path s \<and>
    (\<not> fo_fail s' \<longrightarrow> stream_view s' fs' = Some (overwrite (fo_pos s) bs c)) \<and>
    (fo_pos s + length bs \<le> fs_room fs (fo_path s) \<longrightarrow> \<not> fo_fail s' \<and> stream_fits s' fs')"
  proof cases
    case buffered
    then show ?thesis
      using s1 assms(1,2) by (simp add: s1_def stream_fits_def)
  next
    case direct
    note f = flush_result [OF s1(2) direct(1)]
    have fits: "stream_fits s1 fs \<longleftrightarrow> fo_pos s + length bs \<le> fs_room fs (fo_path s)"
      by (simp add: stream_fits_def s1_def)
    have "ok \<Longrightarrow> stream_view s' fs' = Some (overwrite (fo_pos s) bs c)"
      using f(5) s1 by (simp add: direct(2) f(4) stream_view_def [of _ fs'])
    moreover have "stream_fits s1 fs \<Longrightarrow> stream_fits s' fs'"
      using fs_env_fields(5) [OF f(1)] by (simp add: direct(2) f(4) stream_fits_def s1_def)
    ultimately show ?thesis
      using f(1,2,3,6) s1(1) fits by (auto simp: direct(2) f(4))
  qed
  then show "fs_env fs fs'" and "q \<noteq> fo_path s \<Longrightarrow> fs_files fs' q = fs_files fs q"
    and "\<exists>c'. fs_files fs' (fo_path s) = Some c'" and "fo_path s' = fo_path s"
    and "\<not> fo_fail s' \<Longrightarrow> stream_view s' fs' = Some (overwrite (fo_pos s) bs c)"
    and "fo_pos s + length bs \<le> fs_room fs (fo_path s) \<Longrightarrow> \<not> fo_fail s' \<and> stream_fits s' fs'"
    by blast+
qed

lemma close_result:
  assumes "fs_files fs (fo_path s) = Some c"
  shows "fs_env fs (fstream_close s fs)"
    and "q \<noteq> fo_path s \<Longrightarrow> fs_files (fstream_close s fs) q = fs_files fs q"
    and "\<exists>c'. fs_files (fstream_close s fs) (fo_path s) = Some c'"
    and "stream_fits s fs \<Longrightarrow> fs_files (fstream_close s fs) (fo_path s) = stream_view s fs"
proof -
  obtain ok s' fs' where flush: "fstream_flush s fs = (ok, s', fs')"
    by (cases "fstream_flush s fs")
  note f = flush_result [OF assms flush]
  have fs': "fstream_close s fs = fs'"
    by (simp add: fstream_close_def flush)
  show "fs_env fs (fstream_close s fs)" "\<exists>c'. fs_files (fstream_close s fs) (fo_path s) = Some c'"
    unfolding fs' by (fact f(1), fact f(3))
  show "q \<noteq> fo_path s \<Longrightarrow> fs_files (fstream_close s fs) q = fs_files fs q"
    unfolding fs' by (rule f(2))
  show "stream_fits s fs \<Longrightarrow> fs_files (fstream_close s fs) (fo_path s) = stream_view s fs"
    unfolding fs' by (intro f(5) f(6))
qed

subsection \<open>Properties\<close>

text \<open>
  C30: hashing a file returns on every file system: the digest of the whole content when the
  file can be opened and read, and otherwise the exception that names what failed.
\<close>

theorem sha256_file_total:
  "sha256_file path fs =
     Some (if \<not> file_exists path fs
           then Inl (Runtime_error (''unable to open file for SHA-256: '' @ path))
           else if unreadable fs path 0 (length (the (fs_files fs path)))
           then Inl (Runtime_error (''unable to read file for SHA-256: '' @ path))
           else Inr (sha256_reference (the (fs_files fs path))))"
  by (auto simp: sha256_file_eq file_exists_iff can_open_def split: option.splits)

end
