(* ===== verification/Checkpoint.thy ===== *)
theory Checkpoint
  imports Files Protocol
begin

text \<open>
  \<open>src/transfer/checkpoint.cpp\<close>: the record of the chunks that a receiver has already
  written, its text format, and the functions that load, save and remove it. The set of
  completed chunks is iterated in ascending order, as \<open>std::set\<close> does.
\<close>

record TransferCheckpoint =
  cp_original_filename :: string
  cp_file_size :: u64
  cp_chunk_size :: u32
  cp_total_chunks :: u64
  cp_completed_chunks :: "u64 set"

definition TransferCheckpoint_init :: TransferCheckpoint where
  "TransferCheckpoint_init =
     \<lparr>cp_original_filename = [], cp_file_size = 0, cp_chunk_size = 0, cp_total_chunks = 0,
      cp_completed_chunks = {}\<rparr>"

definition kCheckpointHeader :: string where
  "kCheckpointHeader = ''PACKETBRIDGE_CHECKPOINT_V1''"

definition value_after_equals :: "string \<Rightarrow> string" where
  "value_after_equals line = drop 1 (dropWhile (\<lambda>c. c \<noteq> CHR ''='') line)"

definition parse_u64 :: "string \<Rightarrow> cpp_exception + u64" where
  "parse_u64 value = stoull value"

function parse_chunks_loop :: "string \<Rightarrow> u64 set \<Rightarrow> cpp_exception + u64 set" where
  "parse_chunks_loop stream chunks =
     (case getline (CHR '','') stream of
        None \<Rightarrow> Inr chunks
      | Some (part, rest) \<Rightarrow>
          if part = [] then parse_chunks_loop rest chunks
          else
            case parse_u64 part of
              Inl e \<Rightarrow> Inl e
            | Inr index \<Rightarrow> parse_chunks_loop rest (insert index chunks))"
  by pat_completeness auto
termination
  by (relation "measure (length \<circ> fst)") (auto dest: getline_shorter)

declare parse_chunks_loop.simps [simp del]

definition parse_completed_chunks :: "string \<Rightarrow> cpp_exception + u64 set" where
  "parse_completed_chunks value = parse_chunks_loop value {}"

definition checkpoint_path_for_output :: "string \<Rightarrow> string" where
  "checkpoint_path_for_output output_path = output_path @ ''.pbcheckpoint''"

text \<open>\<open>line.find(key) == 0\<close>\<close>

definition starts_with :: "string \<Rightarrow> string \<Rightarrow> bool" where
  "starts_with key line = (take (length key) line = key)"

definition load_line :: "string \<Rightarrow> TransferCheckpoint \<Rightarrow> cpp_exception + TransferCheckpoint" where
  "load_line line loaded =
     (if starts_with ''filename='' line
      then Inr (loaded\<lparr>cp_original_filename := value_after_equals line\<rparr>)
      else if starts_with ''file_size='' line
      then map_sum id (\<lambda>v. loaded\<lparr>cp_file_size := v\<rparr>) (parse_u64 (value_after_equals line))
      else if starts_with ''chunk_size='' line
      then map_sum id (\<lambda>v. loaded\<lparr>cp_chunk_size := ucast v\<rparr>) (parse_u64 (value_after_equals line))
      else if starts_with ''chunk_count='' line
      then map_sum id (\<lambda>v. loaded\<lparr>cp_total_chunks := v\<rparr>) (parse_u64 (value_after_equals line))
      else if starts_with ''completed='' line
      then map_sum id (\<lambda>v. loaded\<lparr>cp_completed_chunks := v\<rparr>)
             (parse_completed_chunks (value_after_equals line))
      else Inr loaded)"

function load_lines :: "string \<Rightarrow> TransferCheckpoint \<Rightarrow> cpp_exception + TransferCheckpoint" where
  "load_lines input loaded =
     (case getline newline input of
        None \<Rightarrow> Inr loaded
      | Some (line, rest) \<Rightarrow>
          case load_line line loaded of
            Inl e \<Rightarrow> Inl e
          | Inr loaded \<Rightarrow> load_lines rest loaded)"
  by pat_completeness auto
termination
  by (relation "measure (length \<circ> fst)") (auto dest: getline_shorter)

declare load_lines.simps [simp del]

text \<open>What \<open>getline\<close> can extract from a file: its characters up to an unreadable one.\<close>

definition ifstream_text :: "fs \<Rightarrow> ifstream \<Rightarrow> string" where
  "ifstream_text fs s =
     string_of_bytes
       (case fs_bad fs (is_path s) of
          None \<Rightarrow> ifstream_content fs s
        | Some b \<Rightarrow> take b (ifstream_content fs s))"

definition load_checkpoint ::
    "string \<Rightarrow> TransferCheckpoint \<Rightarrow> fs \<Rightarrow> bool \<times> TransferCheckpoint" where
  "load_checkpoint path checkpoint fs =
     (let input = ifstream_open path fs
      in if \<not> istream_ok input then (False, checkpoint)
         else
           case getline newline (ifstream_text fs input) of
             None \<Rightarrow> (False, checkpoint)
           | Some (line, rest) \<Rightarrow>
               if line \<noteq> kCheckpointHeader then (False, checkpoint)
               else
                 case load_lines rest TransferCheckpoint_init of
                   Inl e \<Rightarrow> (False, checkpoint)
                 | Inr loaded \<Rightarrow> (True, loaded))"

definition checkpoint_matches_manifest :: "TransferCheckpoint \<Rightarrow> FileManifest \<Rightarrow> bool" where
  "checkpoint_matches_manifest checkpoint manifest =
     (if cp_original_filename checkpoint \<noteq> fm_filename manifest \<or>
         cp_file_size checkpoint \<noteq> fm_file_size manifest \<or>
         cp_chunk_size checkpoint \<noteq> fm_chunk_size manifest \<or>
         cp_total_chunks checkpoint \<noteq> fm_chunk_count manifest
      then False
      else list_all (\<lambda>index. \<not> index \<ge> fm_chunk_count manifest)
             (sorted_list_of_set (cp_completed_chunks checkpoint)))"

definition create_checkpoint_from_manifest :: "FileManifest \<Rightarrow> TransferCheckpoint" where
  "create_checkpoint_from_manifest manifest =
     TransferCheckpoint_init
       \<lparr>cp_original_filename := fm_filename manifest,
        cp_file_size := fm_file_size manifest,
        cp_chunk_size := fm_chunk_size manifest,
        cp_total_chunks := fm_chunk_count manifest\<rparr>"

lemma unat_succ:
  fixes i n :: "'a::len word"
  assumes "i < n"
  shows "unat (i + 1) = Suc (unat i)"
proof -
  have "Suc (unat i) < 2 ^ LENGTH('a)"
    using assms [unfolded word_less_nat_alt] unat_bound [of n] by linarith
  then show ?thesis
    by (simp add: unat_word_ariths)
qed

function missing_loop :: "TransferCheckpoint \<Rightarrow> u64 \<Rightarrow> u64 list \<Rightarrow> u64 list" where
  "missing_loop checkpoint index missing =
     (if index < cp_total_chunks checkpoint
      then missing_loop checkpoint (index + 1)
             (if index \<notin> cp_completed_chunks checkpoint then missing @ [index] else missing)
      else missing)"
  by pat_completeness auto
termination
  by (relation "measure (\<lambda>(cp, i, _). unat (cp_total_chunks cp) - unat i)")
    (auto simp: unat_succ word_less_nat_alt)

declare missing_loop.simps [simp del]

definition missing_chunks :: "TransferCheckpoint \<Rightarrow> u64 list" where
  "missing_chunks checkpoint = missing_loop checkpoint 0 []"

fun completed_text :: "bool \<Rightarrow> u64 list \<Rightarrow> string" where
  "completed_text first [] = []"
| "completed_text first (index # rest) =
     (if \<not> first then '','' else []) @ to_string index @ completed_text False rest"

definition checkpoint_text :: "TransferCheckpoint \<Rightarrow> string" where
  "checkpoint_text checkpoint =
     kCheckpointHeader @ [newline] @
     ''filename='' @ cp_original_filename checkpoint @ [newline] @
     ''file_size='' @ to_string (cp_file_size checkpoint) @ [newline] @
     ''chunk_size='' @ to_string (cp_chunk_size checkpoint) @ [newline] @
     ''chunk_count='' @ to_string (cp_total_chunks checkpoint) @ [newline] @
     ''completed='' @ completed_text True (sorted_list_of_set (cp_completed_chunks checkpoint)) @
     [newline]"

definition save_checkpoint :: "string \<Rightarrow> TransferCheckpoint \<Rightarrow> fs \<Rightarrow> bool \<times> fs" where
  "save_checkpoint path checkpoint fs =
     (let temp_path = path @ ''.tmp'';
          (opened, fs) = ofstream_create temp_path (bytes_of_string (checkpoint_text checkpoint)) fs
      in if \<not> opened then (False, fs)
         else
           let (_, fs) = fs_remove path fs
           in fs_rename temp_path path fs)"

definition remove_checkpoint :: "string \<Rightarrow> fs \<Rightarrow> bool \<times> fs" where
  "remove_checkpoint path fs =
     (let (removed, fs) = fs_remove path fs in (removed \<or> \<not> file_exists path fs, fs))"

subsection \<open>Which chunks are missing\<close>

lemma missing_loop_eq:
  "missing_loop cp (of_nat k) acc =
     acc @ map of_nat (filter (\<lambda>i. of_nat i \<notin> cp_completed_chunks cp) [k..<unat (cp_total_chunks cp)])"
  if "k \<le> unat (cp_total_chunks cp)"
  using that
proof (induction "unat (cp_total_chunks cp) - k" arbitrary: k acc)
  case 0
  then have "k = unat (cp_total_chunks cp)" by simp
  then show ?case by (subst missing_loop.simps) simp
next
  case (Suc n)
  then have k: "k < unat (cp_total_chunks cp)" by simp
  then have "k < 2 ^ 64"
    using unat_bound [of "cp_total_chunks cp"] by simp
  then have "(of_nat k :: u64) < cp_total_chunks cp"
    using k by (simp add: word_less_nat_alt unat_of_nat)
  moreover have "[k..<unat (cp_total_chunks cp)] = k # [Suc k..<unat (cp_total_chunks cp)]"
    using k by (simp add: upt_conv_Cons)
  moreover have "(of_nat k + 1 :: u64) = of_nat (Suc k)"
    by simp
  ultimately show ?case
    using Suc.hyps(1) [of "Suc k"] Suc.hyps(2) k
    by (subst missing_loop.simps) (simp del: of_nat_Suc)
qed

lemma missing_chunks_eq:
  "missing_chunks cp =
     map of_nat (filter (\<lambda>i. of_nat i \<notin> cp_completed_chunks cp) [0..<unat (cp_total_chunks cp)])"
  using missing_loop_eq [of 0 cp "[]"] by (simp add: missing_chunks_def)

lemma set_missing_chunks:
  "set (missing_chunks cp) = {i. i < cp_total_chunks cp} - cp_completed_chunks cp"
proof -
  have "i \<in> set (missing_chunks cp) \<longleftrightarrow> i < cp_total_chunks cp \<and> i \<notin> cp_completed_chunks cp" for i
  proof
    assume "i \<in> set (missing_chunks cp)"
    then obtain k where "i = of_nat k" "k < unat (cp_total_chunks cp)" "i \<notin> cp_completed_chunks cp"
      by (auto simp: missing_chunks_eq)
    moreover from this(2) have "k < 2 ^ 64"
      using unat_bound [of "cp_total_chunks cp"] by simp
    ultimately show "i < cp_total_chunks cp \<and> i \<notin> cp_completed_chunks cp"
      by (simp add: word_less_nat_alt unat_of_nat)
  next
    assume "i < cp_total_chunks cp \<and> i \<notin> cp_completed_chunks cp"
    then show "i \<in> set (missing_chunks cp)"
      by (auto simp: missing_chunks_eq word_less_nat_alt intro!: image_eqI [of _ _ "unat i"])
  qed
  then show ?thesis by auto
qed

lemma sorted_missing_chunks: "sorted_wrt (<) (missing_chunks cp)"
proof -
  have "sorted_wrt (\<lambda>i j. (of_nat i :: u64) < of_nat j)
      (filter (\<lambda>i. of_nat i \<notin> cp_completed_chunks cp) [0..<unat (cp_total_chunks cp)])"
    by (rule sorted_wrt_mono_rel [of _ "(<)"])
      (use unat_bound [of "cp_total_chunks cp"] in
        \<open>auto simp: word_less_nat_alt unat_of_nat intro!: sorted_wrt_filter\<close>)
  then show ?thesis
    by (simp add: missing_chunks_eq sorted_wrt_map)
qed

lemma length_missing_chunks: "length (missing_chunks cp) \<le> unat (cp_total_chunks cp)"
  by (simp add: missing_chunks_eq) (metis diff_zero length_filter_le length_upt)

lemma checkpoint_matches_manifest_iff:
  "checkpoint_matches_manifest cp m \<longleftrightarrow>
     cp_original_filename cp = fm_filename m \<and> cp_file_size cp = fm_file_size m \<and>
     cp_chunk_size cp = fm_chunk_size m \<and> cp_total_chunks cp = fm_chunk_count m \<and>
     cp_completed_chunks cp \<subseteq> {i. i < fm_chunk_count m}"
  by (auto simp: checkpoint_matches_manifest_def list_all_iff not_le)

subsection \<open>Round trip through the text\<close>

lemma digits_not_in_to_string:
  "CHR '','' \<notin> set (to_string w)" "newline \<notin> set (to_string w)"
  using digits_to_string [of _ w] digit_not_special by blast+

lemma completed_text_False:
  "ws \<noteq> [] \<Longrightarrow> completed_text False ws = '','' @ completed_text True ws"
  by (cases ws) auto

lemma parse_chunks_loop_text:
  "parse_chunks_loop (completed_text True ws) acc = Inr (acc \<union> set ws)"
proof (induction ws arbitrary: acc)
  case Nil
  then show ?case by (subst parse_chunks_loop.simps) simp
next
  case (Cons i ws)
  have tail: "completed_text False ws = [] \<or>
      (\<exists>r. completed_text False ws = CHR '','' # r \<and> r = completed_text True ws)"
    by (cases ws) auto
  have parse: "parse_u64 (to_string i) = Inr i"
    by (simp add: parse_u64_def stoull_to_string)
  show ?case
  proof (cases "ws = []")
    case True
    then have "getline (CHR '','') (completed_text True (i # ws)) = Some (to_string i, [])"
      by (simp add: getline_last digits_not_in_to_string to_string_nonempty)
    moreover have "parse_chunks_loop [] chunks = Inr chunks" for chunks
      by (subst parse_chunks_loop.simps) simp
    ultimately show ?thesis
      using True by (subst parse_chunks_loop.simps) (simp add: to_string_nonempty parse)
  next
    case False
    then have "getline (CHR '','') (completed_text True (i # ws)) =
        Some (to_string i, completed_text True ws)"
      using completed_text_False by (simp add: getline_delim digits_not_in_to_string)
    then show ?thesis
      by (subst parse_chunks_loop.simps) (simp add: to_string_nonempty parse Cons.IH)
  qed
qed

lemma newline_completed_text: "newline \<notin> set (completed_text first ws)"
  by (induction ws arbitrary: first) (auto simp: digits_not_in_to_string)

lemma load_lines_step:
  assumes "newline \<notin> set line" and "load_line line cp = Inr cp'"
  shows "load_lines (line @ newline # rest) cp = load_lines rest cp'"
  using assms by (subst load_lines.simps) (simp add: getline_delim)

lemma load_line_fields:
  "load_line (''filename='' @ s) cp = Inr (cp\<lparr>cp_original_filename := s\<rparr>)"
  "load_line (''file_size='' @ to_string n) cp = Inr (cp\<lparr>cp_file_size := n\<rparr>)"
  "load_line (''chunk_size='' @ to_string (k :: u32)) cp = Inr (cp\<lparr>cp_chunk_size := k\<rparr>)"
  "load_line (''chunk_count='' @ to_string n) cp = Inr (cp\<lparr>cp_total_chunks := n\<rparr>)"
  "load_line (''completed='' @ completed_text True ws) cp = Inr (cp\<lparr>cp_completed_chunks := set ws\<rparr>)"
  by (simp_all add: load_line_def starts_with_def value_after_equals_def parse_u64_def
      stoull_to_string parse_completed_chunks_def parse_chunks_loop_text ucast_down_ucast_id
      is_down)

text \<open>The text up to the list of completed chunks.\<close>

definition checkpoint_front :: "TransferCheckpoint \<Rightarrow> string" where
  "checkpoint_front cp =
     (''filename='' @ cp_original_filename cp) @ newline #
     (''file_size='' @ to_string (cp_file_size cp)) @ newline #
     (''chunk_size='' @ to_string (cp_chunk_size cp)) @ newline #
     (''chunk_count='' @ to_string (cp_total_chunks cp)) @ newline # []"

lemma checkpoint_text_front:
  "checkpoint_text cp = kCheckpointHeader @ newline # checkpoint_front cp @
     ''completed='' @ completed_text True (sorted_list_of_set (cp_completed_chunks cp)) @ [newline]"
  by (simp add: checkpoint_text_def checkpoint_front_def)

lemma load_lines_front:
  assumes "newline \<notin> set (cp_original_filename cp)"
  shows "load_lines (checkpoint_front cp @ rest) cp0 =
    load_lines rest (cp\<lparr>cp_completed_chunks := cp_completed_chunks cp0\<rparr>)"
proof -
  have lines: "checkpoint_front cp @ rest =
      (''filename='' @ cp_original_filename cp) @ newline #
      (''file_size='' @ to_string (cp_file_size cp)) @ newline #
      (''chunk_size='' @ to_string (cp_chunk_size cp)) @ newline #
      (''chunk_count='' @ to_string (cp_total_chunks cp)) @ newline # rest"
    by (simp add: checkpoint_front_def)
  show ?thesis
    unfolding lines
    apply (subst load_lines_step [OF _ load_line_fields(1)], use assms in simp)
    apply (subst load_lines_step [OF _ load_line_fields(2)], simp add: digits_not_in_to_string)
    apply (subst load_lines_step [OF _ load_line_fields(3)], simp add: digits_not_in_to_string)
    apply (subst load_lines_step [OF _ load_line_fields(4)], simp add: digits_not_in_to_string)
    apply (cases cp, cases cp0, simp)
    done
qed

lemma load_lines_Nil: "load_lines [] cp = Inr cp"
  by (subst load_lines.simps) simp

lemma load_lines_text:
  assumes "newline \<notin> set (cp_original_filename cp)"
  shows "load_lines (drop (length kCheckpointHeader + 1) (checkpoint_text cp)) cp0 = Inr cp"
proof -
  let ?ws = "sorted_list_of_set (cp_completed_chunks cp)"
  have "load_lines (checkpoint_front cp @ (''completed='' @ completed_text True ?ws) @ newline # []) cp0 =
      Inr cp"
    unfolding load_lines_front [OF assms]
    by (subst load_lines_step [OF _ load_line_fields(5)])
      (simp_all add: newline_completed_text load_lines_Nil)
  then show ?thesis
    by (simp add: checkpoint_text_front)
qed

lemma getline_header:
  "getline newline (checkpoint_text cp) =
     Some (kCheckpointHeader, drop (length kCheckpointHeader + 1) (checkpoint_text cp))"
proof -
  have "newline \<notin> set kCheckpointHeader"
    by (simp add: kCheckpointHeader_def)
  then show ?thesis
    unfolding checkpoint_text_def using getline_delim [of newline kCheckpointHeader] by simp
qed

text \<open>A path that holds the text of a checkpoint, readable in full.\<close>

definition holds_checkpoint :: "fs \<Rightarrow> string \<Rightarrow> TransferCheckpoint \<Rightarrow> bool" where
  "holds_checkpoint fs path cp \<longleftrightarrow>
     fs_files fs path = Some (bytes_of_string (checkpoint_text cp)) \<and> fs_may_read fs path \<and>
     fs_bad fs path = None"

lemma load_checkpoint_text:
  assumes "holds_checkpoint fs path cp" and "newline \<notin> set (cp_original_filename cp)"
  shows "load_checkpoint path cp0 fs = (True, cp)"
  using assms load_lines_text [OF assms(2)]
  by (simp add: holds_checkpoint_def load_checkpoint_def istream_ok_def ifstream_open_def
      can_open_def ifstream_text_def ifstream_content_def getline_header string_bytes_inverse)

subsection \<open>Saving\<close>

lemma save_checkpoint_replace:
  "save_checkpoint path cp fs =
     files.replace (path @ ''.tmp'') path (bytes_of_string (checkpoint_text cp)) fs"
  by (simp add: save_checkpoint_def files.replace_def Let_def)

lemma save_checkpoint_result:
  assumes "save_checkpoint path cp fs = (ok, fs')"
  shows "fs_env fs fs'" and "q \<noteq> path \<Longrightarrow> q \<noteq> path @ ''.tmp'' \<Longrightarrow> fs_files fs' q = fs_files fs q"
    and "ok \<Longrightarrow> fs_files fs' path =
      Some (take (fs_room fs (path @ ''.tmp'')) (bytes_of_string (checkpoint_text cp)))"
    and "ok \<Longrightarrow> fs_files fs' (path @ ''.tmp'') = None"
  using files.replace_result [OF _ assms [unfolded save_checkpoint_replace]] by simp_all

text \<open>The permissions and the room a checkpoint at \<open>path\<close> needs.\<close>

definition checkpoint_storable :: "fs \<Rightarrow> string \<Rightarrow> TransferCheckpoint \<Rightarrow> bool" where
  "checkpoint_storable fs path cp \<longleftrightarrow>
     fs_may_write fs (path @ ''.tmp'') \<and> fs_may_unlink fs (path @ ''.tmp'') \<and>
     fs_may_unlink fs path \<and> fs_may_read fs path \<and> fs_bad fs path = None \<and>
     length (checkpoint_text cp) \<le> fs_room fs (path @ ''.tmp'')"

lemma checkpoint_storable_env: "fs_env fs fs' \<Longrightarrow> checkpoint_storable fs' = checkpoint_storable fs"
  by (intro ext) (simp add: checkpoint_storable_def fs_env_fields)

lemma save_checkpoint_reports:
  assumes "save_checkpoint path cp fs = (ok, fs')" and "fs_may_write fs (path @ ''.tmp'')"
    and "fs_may_unlink fs (path @ ''.tmp'')" and "fs_may_unlink fs path"
  shows ok
  using assms by (auto simp: save_checkpoint_def ofstream_create_eq fs_remove_def fs_rename_def fs_simps
      Let_def split: if_splits)

lemma save_checkpoint_ok:
  assumes "checkpoint_storable fs path cp"
  shows "\<exists>fs'. save_checkpoint path cp fs = (True, fs') \<and> holds_checkpoint fs' path cp"
proof -
  obtain ok fs' where save: "save_checkpoint path cp fs = (ok, fs')"
    by (cases "save_checkpoint path cp fs")
  have "ok"
    using save_checkpoint_reports [OF save] assms by (simp add: checkpoint_storable_def)
  then show ?thesis
    using save_checkpoint_result [OF save] assms save
    by (auto simp: holds_checkpoint_def checkpoint_storable_def fs_env_fields)
qed

text \<open>A name that was read from a line has no line break in it.\<close>

lemma map_sum_Inr_iff: "map_sum id f x = Inr y \<longleftrightarrow> (\<exists>v. x = Inr v \<and> y = f v)"
  by (cases x) auto

lemma load_line_name:
  assumes "load_line line cp = Inr cp'" and "newline \<notin> set line"
    and "newline \<notin> set (cp_original_filename cp)"
  shows "newline \<notin> set (cp_original_filename cp')"
proof -
  have "set (value_after_equals line) \<subseteq> set line"
    unfolding value_after_equals_def using set_drop_subset set_dropWhileD by fast
  then show ?thesis
    using assms by (auto simp: load_line_def map_sum_Inr_iff split: if_splits)
qed

lemma load_lines_name:
  "load_lines input cp = Inr cp' \<Longrightarrow> newline \<notin> set (cp_original_filename cp) \<Longrightarrow>
     newline \<notin> set (cp_original_filename cp')"
proof (induction input cp rule: load_lines.induct)
  case (1 input loaded)
  from "1.prems"(1) show ?case
  proof (subst (asm) load_lines.simps, cases "getline newline input")
    case None
    with "1.prems" show ?thesis by (subst (asm) load_lines.simps) simp
  next
    case (Some p)
    obtain line rest where p: "p = (line, rest)" by (cases p)
    with Some have line: "newline \<notin> set line" by (simp add: getline_Some_iff)
    from "1.prems"(1) obtain mid where mid: "load_line line loaded = Inr mid" "load_lines rest mid = Inr cp'"
      by (subst (asm) load_lines.simps) (auto simp: Some p split: sum.splits)
    show ?thesis
      by (rule "1.IH" [OF Some p [symmetric] mid load_line_name [OF mid(1) line "1.prems"(2)]])
  qed
qed

lemma load_checkpoint_name:
  "load_checkpoint path cp0 fs = (True, cp) \<Longrightarrow> newline \<notin> set (cp_original_filename cp)"
  using load_lines_name
  by (fastforce simp: load_checkpoint_def TransferCheckpoint_init_def Let_def
      split: if_splits option.splits prod.splits sum.splits)

subsection \<open>A checkpoint that is cut off in its last number\<close>

lemma take_show_base:
  assumes "0 \<le> n" and "j < length (show_base 10 n)"
  shows "take (length (show_base 10 n) - j) (show_base 10 n) = show_base 10 (n div 10 ^ j)"
  using assms
proof (induction j arbitrary: n)
  case (Suc j)
  have n: "10 \<le> n"
  proof (rule ccontr)
    assume "\<not> 10 \<le> n"
    then show False
      using Suc.prems by (simp add: show_base_small)
  qed
  have step: "show_base 10 n = show_base 10 (n div 10) @ [digit_char (n mod 10)]"
    using n by (simp add: show_base_step)
  have "n div 10 ^ Suc j = n div 10 div 10 ^ j"
    by (simp add: zdiv_zmult2_eq)
  then show ?case
    using Suc.IH [of "n div 10"] Suc.prems by (simp add: step)
qed simp

lemma shortened_small: "unat (n :: u64) div 10 ^ j < 2 ^ LENGTH(64)"
  by (rule order_le_less_trans [OF div_le_dividend unat_bound])

lemma unat_shortened: "unat (of_nat (unat (n :: u64) div 10 ^ j) :: u64) = unat n div 10 ^ j"
  using shortened_small [of n j] by (simp add: unat_of_nat)

lemma take_to_string:
  assumes "j < length (to_string (n :: u64))"
  shows "take (length (to_string n) - j) (to_string n) = to_string (of_nat (unat n div 10 ^ j) :: u64)"
proof -
  have "uint (of_nat (unat n div 10 ^ j) :: u64) = int (unat n div 10 ^ j)"
    by (simp only: uint_nat unat_shortened)
  also have "\<dots> = uint n div 10 ^ j"
    by (simp add: zdiv_int uint_nat [symmetric])
  finally show ?thesis
    using take_show_base [of "uint n" j] assms by (simp add: to_string_def)
qed

lemma completed_text_snoc:
  "completed_text first (ws @ [n]) =
     completed_text first ws @ (if first \<and> ws = [] then [] else '','') @ to_string n"
  by (induction ws arbitrary: first) auto

lemma completed_text_take:
  assumes "j < length (to_string n)"
  shows "take (length (completed_text True (ws @ [n])) - j) (completed_text True (ws @ [n])) =
    completed_text True (ws @ [of_nat (unat n div 10 ^ j)])"
  using take_to_string [OF assms] assms by (simp add: completed_text_snoc)

lemma shortened_differs:
  assumes "0 < j" and "j < length (to_string (n :: u64))"
  shows "n \<noteq> of_nat (unat n div 10 ^ j)"
proof
  assume n: "n = of_nat (unat n div 10 ^ j)"
  have eq: "unat n = unat n div 10 ^ j"
    using arg_cong [OF n, of unat] by (simp only: unat_shortened)
  have "unat n \<noteq> 0"
  proof
    assume "unat n = 0"
    then have "to_string n = [digit_char 0]"
      by (simp add: to_string_def show_base_small unat_eq_zero)
    then show False
      using assms by simp
  qed
  then have "unat n div 10 ^ j < unat n"
    using assms(1) by (intro div_less_dividend one_less_power) simp_all
  then show False
    using eq by simp
qed

lemma sorted_list_Max:
  assumes "A \<noteq> ({} :: u64 set)"
  shows "sorted_list_of_set A = sorted_list_of_set (A - {Max A}) @ [Max A]"
proof -
  let ?xs = "sorted_list_of_set (A - {Max A}) @ [Max A]"
  have "Max A \<in> A"
    using assms by simp
  then have "set ?xs = A" "sorted ?xs" "distinct ?xs"
    by (auto simp: sorted_append)
  then show ?thesis
    using sorted_list_of_set.idem_if_sorted_distinct [of ?xs] by simp
qed

lemma take_cut: "j \<le> length l \<Longrightarrow> take (length ((h @ l) @ [x]) - 1 - j) ((h @ l) @ [x]) = h @ take (length l - j) l"
  by simp

text \<open>
  What is left of the text when the device takes all of it but the final line break and \<open>j\<close> digits
  of the last number.
\<close>

lemma checkpoint_text_take:
  assumes "cp_completed_chunks cp \<noteq> {}" and "n = Max (cp_completed_chunks cp)"
    and "j < length (to_string n)"
  shows "take (length (checkpoint_text cp) - 1 - j) (checkpoint_text cp) =
    kCheckpointHeader @ newline # checkpoint_front cp @ ''completed='' @
      completed_text True (sorted_list_of_set (cp_completed_chunks cp - {n}) @
        [of_nat (unat n div 10 ^ j)])"
proof -
  let ?ws = "sorted_list_of_set (cp_completed_chunks cp - {n})"
  let ?list = "completed_text True (?ws @ [n])"
  let ?head = "kCheckpointHeader @ newline # checkpoint_front cp @ ''completed=''"
  have whole: "checkpoint_text cp = (?head @ ?list) @ [newline]"
    using sorted_list_Max [OF assms(1)] assms(2) by (simp add: checkpoint_text_front)
  have "j \<le> length ?list"
    using assms(3) by (simp add: completed_text_snoc)
  then have "take (length (checkpoint_text cp) - 1 - j) (checkpoint_text cp) =
      ?head @ take (length ?list - j) ?list"
    unfolding whole by (rule take_cut)
  then show ?thesis
    by (simp add: completed_text_take [OF assms(3)])
qed

lemma load_cut_text:
  assumes "newline \<notin> set (cp_original_filename cp)" and "ws \<noteq> []"
    and "fs_files fs path = Some (bytes_of_string (kCheckpointHeader @ newline # checkpoint_front cp @
      ''completed='' @ completed_text True ws))"
    and "fs_may_read fs path" and "fs_bad fs path = None"
  shows "load_checkpoint path cp0 fs = (True, cp\<lparr>cp_completed_chunks := set ws\<rparr>)"
proof -
  let ?rest = "''completed='' @ completed_text True ws"
  have header: "getline newline (kCheckpointHeader @ newline # checkpoint_front cp @ ?rest) =
      Some (kCheckpointHeader, checkpoint_front cp @ ?rest)"
    by (intro getline_delim) (simp add: kCheckpointHeader_def)
  have "getline newline ?rest = Some (?rest, [])"
    by (intro getline_last) (simp_all add: newline_completed_text)
  then have "load_lines ?rest c = Inr (c\<lparr>cp_completed_chunks := set ws\<rparr>)" for c
    by (subst load_lines.simps) (simp only: option.case prod.case load_line_fields(5) sum.case load_lines_Nil)
  then have "load_lines (checkpoint_front cp @ ?rest) TransferCheckpoint_init =
      Inr (cp\<lparr>cp_completed_chunks := set ws\<rparr>)"
    unfolding load_lines_front [OF assms(1)] by simp
  then show ?thesis
    using assms(3-5) header
    by (simp add: load_checkpoint_def istream_ok_def ifstream_open_def can_open_def ifstream_text_def
        ifstream_content_def string_bytes_inverse del: append.simps)
qed

lemma remove_checkpoint_result:
  assumes "remove_checkpoint path fs = (ok, fs')"
  shows "fs_env fs fs'" and "q \<noteq> path \<Longrightarrow> fs_files fs' q = fs_files fs q"
    and "ok \<longleftrightarrow> \<not> can_open path fs'"
    and "fs_may_unlink fs path \<Longrightarrow> fs_files fs' path = None"
  using assms
  by (auto simp: remove_checkpoint_def fs_remove_def file_exists_iff can_open_def fs_simps
      split: if_splits)

subsection \<open>How long a checkpoint can get\<close>

lemma length_to_string:
  "length (to_string (n :: u64)) \<le> 20" "length (to_string (k :: u32)) \<le> 10"
proof -
  have n: "uint n < 2 ^ 64"
    using uint_lt2p [of n] by simp
  then have "uint n < 10 ^ Suc 19"
    by (rule order_less_trans) simp
  then show "length (to_string n) \<le> 20"
    using length_show_base [of 10 "uint n" 19] by (simp add: to_string_def)
  have "uint k < 2 ^ 32"
    using uint_lt2p [of k] by simp
  then have "uint k < 10 ^ Suc 9"
    by (rule order_less_trans) simp
  then show "length (to_string k) \<le> 10"
    using length_show_base [of 10 "uint k" 9] by (simp add: to_string_def)
qed

lemma length_completed_text: "length (completed_text first ws) \<le> 21 * length ws"
proof (induction ws arbitrary: first)
  case (Cons i ws)
  show ?case
    using Cons.IH [of False] length_to_string(1) [of i] by simp
qed simp

lemma length_checkpoint_text:
  "length (checkpoint_text cp) \<le>
     134 + length (cp_original_filename cp) + 21 * card (cp_completed_chunks cp)"
proof -
  have "length (sorted_list_of_set (cp_completed_chunks cp)) = card (cp_completed_chunks cp)"
    by simp
  then show ?thesis
    using length_completed_text [of True "sorted_list_of_set (cp_completed_chunks cp)"]
      length_to_string(1) [of "cp_file_size cp"] length_to_string(1) [of "cp_total_chunks cp"]
      length_to_string(2) [of "cp_chunk_size cp"]
    by (simp add: checkpoint_text_def kCheckpointHeader_def)
qed

lemma card_below: "A \<subseteq> {i :: u64. i < n} \<Longrightarrow> card A \<le> unat n"
proof -
  assume A: "A \<subseteq> {i. i < n}"
  have "{i :: u64. i < n} \<subseteq> of_nat ` {..<unat n}"
    by (auto simp: word_less_nat_alt intro!: image_eqI [of _ _ "unat _"])
  with A have "card A \<le> card ((of_nat :: nat \<Rightarrow> u64) ` {..<unat n})"
    by (intro card_mono) auto
  also have "\<dots> \<le> unat n"
    using card_image_le [of "{..<unat n}" "of_nat :: nat \<Rightarrow> u64"] by simp
  finally show ?thesis .
qed

subsection \<open>Properties\<close>

text \<open>
  C24: the loop that collects the missing chunks ends and returns, in ascending order and without
  repetition, exactly the indexes below the total that are not recorded as completed.
\<close>

theorem missing_chunks_exact:
  "missing_chunks cp = sorted_list_of_set ({i. i < cp_total_chunks cp} - cp_completed_chunks cp)"
proof -
  have "distinct (missing_chunks cp)" "sorted (missing_chunks cp)"
    using sorted_missing_chunks [of cp] by (simp_all add: strict_sorted_iff)
  then show ?thesis
    using sorted_list_of_set.idem_if_sorted_distinct [of "missing_chunks cp"]
    by (simp add: set_missing_chunks)
qed


definition sample_fs :: "(string \<Rightarrow> bytes option) \<Rightarrow> nat \<Rightarrow> fs" where
  "sample_fs files room =
     \<lparr>fs_files = files, fs_may_read = \<lambda>_. True, fs_may_write = \<lambda>_. True,
      fs_may_unlink = \<lambda>_. True, fs_bad = \<lambda>_. None, fs_room = \<lambda>_. room, fs_buffer = 1024\<rparr>"

definition sample_checkpoint :: TransferCheckpoint where
  "sample_checkpoint = \<lparr>cp_original_filename = ''a.bin'', cp_file_size = 983040,
     cp_chunk_size = 65536, cp_total_chunks = 15, cp_completed_chunks = {12}\<rparr>"

lemma sample_checkpoint_short: "length (checkpoint_text sample_checkpoint) \<le> 200"
  using length_checkpoint_text [of sample_checkpoint] by (simp add: sample_checkpoint_def)


text \<open>
  C16: saving touches the checkpoint and its temporary file only. When it fails, the old
  checkpoint is still there unchanged; or it is gone, and the temporary file holds as much of the
  new text as the device had room for, which may be nothing.
\<close>

theorem save_checkpoint_failure:
  assumes "save_checkpoint path cp fs = (ok, fs')"
  shows "(\<forall>q. q \<noteq> path \<and> q \<noteq> path @ ''.tmp'' \<longrightarrow> fs_files fs' q = fs_files fs q) \<and>
    (\<not> ok \<longrightarrow> fs_files fs' path = fs_files fs path \<or>
       fs_files fs' path = None \<and> fs_files fs' (path @ ''.tmp'') =
         Some (take (fs_room fs (path @ ''.tmp'')) (bytes_of_string (checkpoint_text cp))))"
  using files.replace_result [OF _ assms [unfolded save_checkpoint_replace]] by simp

theorem save_checkpoint_failure_witness:
  "\<exists>fs'. save_checkpoint ''x'' sample_checkpoint
       ((sample_fs [''x'' \<mapsto> [1]] 1000)\<lparr>fs_may_write := \<lambda>_. False\<rparr>) = (False, fs') \<and>
     (fs_files fs' ''x'' = Some [1] \<or> fs_files fs' ''x'' = None)"
proof -
  let ?fs = "(sample_fs [''x'' \<mapsto> [1]] 1000)\<lparr>fs_may_write := \<lambda>_. False\<rparr>"
  have save: "save_checkpoint ''x'' sample_checkpoint ?fs = (False, ?fs)"
    by (simp add: save_checkpoint_def ofstream_create_def)
  then show ?thesis
    using save_checkpoint_failure [OF save] by (auto simp: sample_fs_def)
qed

text \<open>
  A stored checkpoint is used for a transfer exactly when its name, sizes and chunk count are
  those of the manifest and it records only chunks that exist.
\<close>

lemma checkpoint_match_exact:
  "checkpoint_matches_manifest cp m \<longleftrightarrow>
     cp = (create_checkpoint_from_manifest m)\<lparr>cp_completed_chunks := cp_completed_chunks cp\<rparr> \<and>
     cp_completed_chunks cp \<subseteq> {i. i < fm_chunk_count m}"
  by (cases cp) (auto simp: checkpoint_matches_manifest_iff create_checkpoint_from_manifest_def
      TransferCheckpoint_init_def)

text \<open>
  C34: the writes of a checkpoint are not checked. If the device takes the new text except for the
  last line break and the last \<open>j\<close> digits of the list, saving it reports success all the same, and
  loading it back reports success with another list: the highest completed chunk \<open>n\<close> has been
  replaced by \<open>n div 10 ^ j\<close>. If any digit is missing, chunk \<open>n\<close> is no longer recorded, and the
  chunk that has taken its place need not have been completed.
\<close>

theorem truncated_checkpoint_misread:
  assumes "fs_may_write fs (path @ ''.tmp'')" and "fs_may_unlink fs (path @ ''.tmp'')"
    and "fs_may_unlink fs path" and "fs_may_read fs path" and "fs_bad fs path = None"
    and "CHR 0x0A \<notin> set (cp_original_filename cp)"
    and "cp_completed_chunks cp \<noteq> {}" and "n = Max (cp_completed_chunks cp)" and "j < length (to_string n)"
    and "fs_room fs (path @ ''.tmp'') = length (checkpoint_text cp) - 1 - j"
    and "A = insert (of_nat (unat n div 10 ^ j)) (cp_completed_chunks cp - {n})"
  shows "\<exists>fs'. save_checkpoint path cp fs = (True, fs') \<and>
    load_checkpoint path cp0 fs' = (True, cp\<lparr>cp_completed_chunks := A\<rparr>) \<and> (0 < j \<longrightarrow> n \<notin> A)"
proof -
  obtain ok fs' where save: "save_checkpoint path cp fs = (ok, fs')"
    by (cases "save_checkpoint path cp fs")
  have "ok"
    by (rule save_checkpoint_reports [OF save assms(1-3)])
  note result = save_checkpoint_result [OF save]
  let ?ws = "sorted_list_of_set (cp_completed_chunks cp - {n}) @ [of_nat (unat n div 10 ^ j)]"
  have "fs_files fs' path = Some (bytes_of_string (kCheckpointHeader @ newline # checkpoint_front cp @
      ''completed='' @ completed_text True ?ws))"
    using result(3) [OF \<open>ok\<close>] checkpoint_text_take [OF assms(7,8,9)]
    by (simp add: assms(10) take_map)
  moreover have "fs_may_read fs' path" "fs_bad fs' path = None"
    using assms(4,5) fs_env_fields [OF result(1)] by simp_all
  ultimately have "load_checkpoint path cp0 fs' = (True, cp\<lparr>cp_completed_chunks := set ?ws\<rparr>)"
    using assms(6) by (intro load_cut_text) simp_all
  moreover have "set ?ws = A"
    by (simp add: assms(11))
  moreover have "n \<notin> A" if "0 < j"
    using shortened_differs [OF that assms(9)] by (simp add: assms(11))
  ultimately show ?thesis
    using save \<open>ok\<close> by simp
qed

theorem truncated_checkpoint_misread_witness:
  "\<exists>fs'. save_checkpoint ''x'' sample_checkpoint (sample_fs (\<lambda>_. None) 102) = (True, fs') \<and>
     load_checkpoint ''x'' TransferCheckpoint_init fs' =
       (True, sample_checkpoint\<lparr>cp_completed_chunks := {1}\<rparr>)"
proof -
  have room: "102 = length (checkpoint_text sample_checkpoint) - 1 - 1" and len: "1 < length (to_string (12 :: u64))"
    by code_simp+
  have "\<exists>fs'. save_checkpoint ''x'' sample_checkpoint (sample_fs (\<lambda>_. None) 102) = (True, fs') \<and>
     load_checkpoint ''x'' TransferCheckpoint_init fs' =
       (True, sample_checkpoint\<lparr>cp_completed_chunks := {1}\<rparr>) \<and> ((0 :: nat) < 1 \<longrightarrow> 12 \<notin> {1 :: u64})"
    by (rule truncated_checkpoint_misread [of _ _ _ 12 1])
      (use room len in \<open>simp_all add: sample_fs_def sample_checkpoint_def\<close>)
  then show ?thesis
    by blast
qed

end
