(* ===== verification/Doubles.thy ===== *)
theory Doubles
  imports Complex_Main "HOL-Library.Log_Nat" Text
begin

text \<open>
  Floating-point numbers as the progress display uses them. A finite \<open>double\<close> is a rational; an
  operation computes the exact result and rounds it to 53 binary digits, to the nearest such
  number and on a tie to the even one, as IEEE 754 demands. Overflow and underflow are left
  out: no value of the display comes near either end of the exponent range. The text of a number
  with \<open>std::fixed\<close> and \<open>std::setprecision\<close> is its value rounded in the same way to that many
  decimal places.
\<close>

definition round_even :: "rat \<Rightarrow> int" where
  "round_even x =
     (let f = \<lfloor>x\<rfloor>; d = x - of_int f
      in if d < 1 / 2 then f else if d > 1 / 2 then f + 1 else if even f then f else f + 1)"

definition binade :: "rat \<Rightarrow> int" where
  "binade x =
     (let (p, q) = quotient_of x; k = bitlen p - bitlen q in if 2 powi k \<le> x then k else k - 1)"

definition round_pos :: "rat \<Rightarrow> rat" where
  "round_pos x = (let e = binade x - 52 in of_int (round_even (x / 2 powi e)) * 2 powi e)"

definition dbl :: "rat \<Rightarrow> rat" where
  "dbl x = (if x = 0 then 0 else if x > 0 then round_pos x else - round_pos (- x))"

definition fixed_text :: "nat \<Rightarrow> rat \<Rightarrow> string" where
  "fixed_text places x =
     (let n = round_even (\<bar>x\<bar> * 10 ^ places)
      in (if x < 0 then ''-'' else []) @ show_base 10 (n div 10 ^ places) @
         (if places = 0 then [] else CHR ''.'' # pad_left places (CHR ''0'') (show_base 10 (n mod 10 ^ places))))"

subsection \<open>Rounding\<close>

lemma round_even_bounds: "\<lfloor>x\<rfloor> \<le> round_even x" "round_even x \<le> \<lfloor>x\<rfloor> + 1"
  by (simp_all add: round_even_def Let_def)

lemma round_even_of_int [simp]: "round_even (of_int n) = n"
  by (simp add: round_even_def)

lemma round_even_mono:
  assumes "x \<le> y"
  shows "round_even x \<le> round_even y"
proof (cases "\<lfloor>x\<rfloor> = \<lfloor>y\<rfloor>")
  case True
  then show ?thesis using assms by (auto simp: round_even_def Let_def)
next
  case False
  then have "\<lfloor>x\<rfloor> + 1 \<le> \<lfloor>y\<rfloor>"
    using floor_mono [OF assms] by simp
  then show ?thesis
    using round_even_bounds(2) [of x] round_even_bounds(1) [of y] by linarith
qed

lemma binade_bounds:
  assumes "0 < x"
  shows "2 powi binade x \<le> x" and "x < 2 powi (binade x + 1)"
proof -
  obtain p q where pq: "quotient_of x = (p, q)" by (metis surj_pair)
  have q: "0 < q" and x: "x = of_int p / of_int q"
    using pq by (simp_all add: quotient_of_denom_pos quotient_of_div)
  then have p: "0 < p"
    using assms by (simp add: zero_less_divide_iff)
  define k where "k = bitlen p - bitlen q"
  have bits: "2 powi (bitlen n - 1) \<le> (of_int n :: rat) \<and> of_int n < (2 :: rat) powi bitlen n" if "0 < n" for n
  proof -
    have b: "0 < bitlen n" using that bitlen_eq_zero_iff [of n] bitlen_nonneg [of n] by linarith
    have "2 ^ nat (bitlen n - 1) \<le> n" "n < 2 ^ nat (bitlen n)"
      using bitlen_bounds [OF that] by simp_all
    then have "(of_int (2 ^ nat (bitlen n - 1)) :: rat) \<le> of_int n" "(of_int n :: rat) < of_int (2 ^ nat (bitlen n))"
      by (simp_all only: of_int_le_iff of_int_less_iff)
    then show ?thesis using b by (simp add: power_int_def)
  qed
  have low: "2 powi (k - 1) \<le> x"
  proof -
    have "k - 1 = bitlen p - 1 - bitlen q"
      by (simp add: k_def)
    then have "(2 :: rat) powi (k - 1) = 2 powi (bitlen p - 1) / 2 powi bitlen q"
      by (simp only:) (rule power_int_diff, simp)
    also have "\<dots> \<le> of_int p / of_int q"
      using bits [OF p] bits [OF q] p q by (intro frac_le) (auto simp: less_imp_le)
    finally show ?thesis by (simp add: x)
  qed
  have high: "x < 2 powi (k + 1)"
  proof -
    have "x < 2 powi bitlen p / 2 powi (bitlen q - 1)"
      unfolding x using bits [OF p] bits [OF q] p q
      by (intro frac_less) (auto simp: less_imp_le)
    also have "\<dots> = 2 powi (k + 1)"
      by (simp add: k_def algebra_simps flip: power_int_diff)
    finally show ?thesis .
  qed
  show "2 powi binade x \<le> x" and "x < 2 powi (binade x + 1)"
    using low high by (auto simp: binade_def pq k_def Let_def)
qed

lemma binade_mono:
  assumes "0 < x" and "x \<le> y"
  shows "binade x \<le> binade y"
proof (rule ccontr)
  assume "\<not> binade x \<le> binade y"
  then have "(2 :: rat) powi (binade y + 1) \<le> 2 powi binade x"
    by (intro power_int_increasing) simp_all
  then show False
    using binade_bounds(1) [OF assms(1)] binade_bounds(2) [of y] assms by linarith
qed

lemma round_pos_bounds:
  assumes "0 < x"
  shows "2 powi binade x \<le> round_pos x" and "round_pos x \<le> 2 powi (binade x + 1)"
proof -
  define e where "e = binade x - 52"
  have scale: "(2 :: rat) powi (e + 52) = 2 ^ 52 * 2 powi e" "(2 :: rat) powi (e + 53) = 2 ^ 53 * 2 powi e"
    by (simp_all add: power_int_add)
  have "(2 :: rat) ^ 52 \<le> x / 2 powi e" "x / 2 powi e \<le> 2 ^ 53"
    using binade_bounds [OF assms] scale by (simp_all add: e_def field_simps)
  then have "round_even (of_int (2 ^ 52)) \<le> round_even (x / 2 powi e)"
    "round_even (x / 2 powi e) \<le> round_even (of_int (2 ^ 53))"
    by (intro round_even_mono; simp)+
  then have "(2 ^ 52 :: rat) \<le> of_int (round_even (x / 2 powi e))"
    "of_int (round_even (x / 2 powi e)) \<le> (2 ^ 53 :: rat)"
    unfolding round_even_of_int by (metis of_int_le_iff of_int_numeral of_int_power)+
  then have "2 ^ 52 * 2 powi e \<le> round_pos x" "round_pos x \<le> 2 ^ 53 * 2 powi e"
    by (simp_all add: round_pos_def Let_def e_def mult_right_mono)
  then show "2 powi binade x \<le> round_pos x" and "round_pos x \<le> 2 powi (binade x + 1)"
    using scale by (simp_all add: e_def algebra_simps)
qed

lemma round_pos_mono:
  assumes "0 < x" and "x \<le> y"
  shows "round_pos x \<le> round_pos y"
proof (cases "binade x = binade y")
  case True
  have "round_even (x / 2 powi (binade y - 52)) \<le> round_even (y / 2 powi (binade y - 52))"
    using assms(2) by (intro round_even_mono divide_right_mono) simp_all
  then show ?thesis
    by (simp add: round_pos_def Let_def True mult_right_mono)
next
  case False
  then have "(2 :: rat) powi (binade x + 1) \<le> 2 powi binade y"
    using binade_mono [OF assms] by (intro power_int_increasing) simp_all
  then show ?thesis
    using round_pos_bounds(2) [OF assms(1)] round_pos_bounds(1) [of y] assms by linarith
qed

lemma round_pos_pos: "0 < x \<Longrightarrow> 0 < round_pos x"
  using round_pos_bounds(1) [of x] zero_less_power_int [of "2 :: rat" "binade x"] by linarith

lemma dbl_0 [simp]: "dbl 0 = 0"
  by (simp add: dbl_def)

lemma dbl_mono: "0 \<le> x \<Longrightarrow> x \<le> y \<Longrightarrow> dbl x \<le> dbl y"
  using round_pos_mono [of x y] round_pos_pos [of y] by (auto simp: dbl_def)

lemma dbl_nonneg: "0 \<le> x \<Longrightarrow> 0 \<le> dbl x"
  using dbl_mono [of 0 x] by simp

lemma dbl_pos: "0 < x \<Longrightarrow> 0 < dbl x"
  by (simp add: dbl_def round_pos_pos)

text \<open>Numbers with at most 53 binary digits are doubles themselves.\<close>

lemma dbl_exact_less:
  assumes "0 < n" and "n < 2 ^ 53"
  shows "dbl (of_int n * 2 powi k) = of_int n * 2 powi k"
proof -
  define x :: rat where "x = of_int n * 2 powi k"
  have x: "0 < x"
    using assms(1) by (simp add: x_def)
  have "(of_int n :: rat) < 2 ^ 53"
    using of_int_less_iff [where 'a = rat, of n "2 ^ 53"] assms(2) by simp
  then have "x < 2 ^ 53 * 2 powi k"
    by (simp add: x_def)
  also have "\<dots> = 2 powi (k + 53)"
    by (simp add: power_int_add)
  finally have "(2 :: rat) powi binade x < 2 powi (k + 53)"
    using binade_bounds(1) [OF x] by linarith
  then have "binade x < k + 53"
    using power_int_increasing [of "k + 53" "binade x" "2 :: rat"] by linarith
  then obtain e d where e: "e = binade x - 52" "k = e + int d"
    using zle_iff_zadd [of "binade x - 52" k] by auto
  have x_eq: "x = of_int (n * 2 ^ d) * 2 powi e"
    by (simp add: x_def e(2) power_int_add)
  then have "x / 2 powi e = of_int (n * 2 ^ d)"
    by simp
  then have "round_pos x = x"
    unfolding round_pos_def Let_def e(1) [symmetric] by (simp only: round_even_of_int x_eq [symmetric])
  then show ?thesis
    using x by (simp add: dbl_def x_def)
qed

lemma dbl_power: "dbl (2 powi k) = 2 powi k"
  using dbl_exact_less [of 1 k] by simp

lemma dbl_int: "0 \<le> n \<Longrightarrow> n < 2 ^ 53 \<Longrightarrow> dbl (of_int n) = of_int n"
  using dbl_exact_less [of n 0] by (cases "n = 0") simp_all

subsection \<open>Printing\<close>

lemma round_even_error: "\<bar>of_int (round_even x) - x\<bar> \<le> 1 / 2"
proof -
  have "of_int \<lfloor>x\<rfloor> \<le> x" "x < of_int \<lfloor>x\<rfloor> + 1"
    by linarith+
  then show ?thesis by (simp add: round_even_def Let_def abs_if) linarith
qed

lemma round_even_nonneg: "0 \<le> x \<Longrightarrow> 0 \<le> round_even x"
  using round_even_mono [of 0 x] by (simp add: round_even_def)

lemma dec_value_zeros: "dec_value (replicate n (CHR ''0'') @ s) = dec_value s"
  by (induction n) (simp_all add: dec_value_def)

text \<open>The digits before and after the point, read as one number, are the rounded multiple.\<close>

lemma fixed_text_digits:
  assumes "0 \<le> x" and "0 < places"
  obtains i f where "fixed_text places x = i @ CHR ''.'' # f" and "length f = places"
    and "\<forall>c \<in> set (i @ f). is_digit c" and "i \<noteq> []"
    and "dec_value i * 10 ^ places + dec_value f = round_even (x * 10 ^ places)"
proof -
  define n where "n = round_even (x * 10 ^ places)"
  define f where "f = pad_left places (CHR ''0'') (show_base 10 (n mod 10 ^ places))"
  have n: "0 \<le> n"
    using assms(1) by (simp add: n_def round_even_nonneg)
  have m: "0 \<le> n mod 10 ^ places" "n mod 10 ^ places < 10 ^ Suc (places - 1)" "0 \<le> n div 10 ^ places"
    using n assms(2) by (simp_all add: pos_imp_zdiv_nonneg_iff)
  have "length (show_base 10 (n mod 10 ^ places)) \<le> places"
    using length_show_base [OF _ m(1,2)] assms(2) by simp
  then have "length f = places"
    by (simp add: f_def pad_left_def)
  moreover have "\<forall>c \<in> set (show_base 10 (n div 10 ^ places) @ f). is_digit c"
    using digits_show [OF m(3)] digits_show [OF m(1)]
    by (auto simp: f_def pad_left_def is_digit_def)
  moreover have "dec_value (show_base 10 (n div 10 ^ places)) * 10 ^ places + dec_value f = n"
    using m div_mult_mod_eq [of n "10 ^ places"]
    by (simp add: f_def pad_left_def dec_value_zeros dec_value_show)
  moreover have "fixed_text places x = show_base 10 (n div 10 ^ places) @ CHR ''.'' # f"
    using assms by (simp add: fixed_text_def n_def f_def Let_def)
  ultimately show ?thesis
    using that show_base_nonempty n_def by blast
qed

end
