(* ===== verification/Progress_Tracker.thy ===== *)
theory Progress_Tracker
  imports Doubles
begin

text \<open>
  \<open>src/transfer/progress_tracker.cpp\<close>: the counters of a transfer, the decision when to report,
  and the two lines of the display. Times are nanoseconds of the steady clock; the caller passes
  its readings, one for every call of \<open>now\<close>. A \<open>double\<close> is a rational and \<open>dbl\<close> the rounding of
  theory \<open>Doubles\<close>, applied after every operation and conversion of the code. \<^const>\<open>None\<close> is a
  conversion to an integer type that cannot hold the value, which is undefined.
\<close>

record ProgressTracker =
  pt_total_bytes :: u64
  pt_total_chunks :: u64
  pt_bytes_transferred :: u64
  pt_chunks_completed :: u64
  pt_started_at :: int
  pt_last_report_at :: int

definition ProgressTracker_new :: "u64 \<Rightarrow> u64 \<Rightarrow> int \<Rightarrow> ProgressTracker" where
  "ProgressTracker_new total_bytes total_chunks now =
     \<lparr>pt_total_bytes = total_bytes, pt_total_chunks = total_chunks,
      pt_bytes_transferred = 0, pt_chunks_completed = 0,
      pt_started_at = now, pt_last_report_at = now\<rparr>"

definition add_progress :: "u64 \<Rightarrow> u64 \<Rightarrow> ProgressTracker \<Rightarrow> ProgressTracker" where
  "add_progress bytes chunks p =
     p\<lparr>pt_bytes_transferred := pt_bytes_transferred p + bytes,
       pt_chunks_completed := pt_chunks_completed p + chunks\<rparr>"

definition should_report :: "int \<Rightarrow> ProgressTracker \<Rightarrow> bool \<times> ProgressTracker" where
  "should_report now p =
     (if pt_chunks_completed p = pt_total_chunks p \<or> now - pt_last_report_at p \<ge> 500 * 1000000
      then (True, p\<lparr>pt_last_report_at := now\<rparr>)
      else (False, p))"

definition setw2 :: "int \<Rightarrow> string" where
  "setw2 n = pad_left 2 (CHR ''0'') (show_base 10 n)"

definition format_duration :: "rat \<Rightarrow> string option" where
  "format_duration seconds =
     (let total_seconds = \<lfloor>max 0 seconds\<rfloor>
      in if total_seconds \<ge> 2 ^ 63 then None
         else
           let hours = total_seconds div 3600;
               minutes = (total_seconds mod 3600) div 60;
               secs = total_seconds mod 60
           in Some ((if hours > 0 then setw2 hours @ '':'' else []) @
                    setw2 minutes @ '':'' @ setw2 secs))"

text \<open>Conversions from \<open>double\<close> to an integer type cut off the fraction.\<close>

definition trunc :: "rat \<Rightarrow> int" where
  "trunc x = (if x < 0 then - \<lfloor>- x\<rfloor> else \<lfloor>x\<rfloor>)"

definition progress_bar :: "rat \<Rightarrow> string option" where
  "progress_bar percent =
     (let width = 20;
          filled = trunc (dbl (dbl (percent / 100) * of_nat width))
      in if filled < - (2 ^ 31) \<or> filled \<ge> 2 ^ 31 then None
         else Some (''['' @ map (\<lambda>i. if int i < filled then CHR ''#'' else CHR ''-'') [0..<width] @ '']''))"

definition elapsed_seconds :: "int \<Rightarrow> ProgressTracker \<Rightarrow> rat" where
  "elapsed_seconds now p = dbl (dbl (of_int (now - pt_started_at p)) / 1000000000)"

definition double_of :: "u64 \<Rightarrow> rat" where
  "double_of n = dbl (of_int (uint n))"

definition average_mbps :: "int \<Rightarrow> ProgressTracker \<Rightarrow> rat" where
  "average_mbps now p =
     (let elapsed = elapsed_seconds now p
      in if elapsed \<le> 0 then 0
         else dbl (dbl (double_of (pt_bytes_transferred p) / (1024 * 1024)) / elapsed))"

definition progress_line :: "int \<Rightarrow> ProgressTracker \<Rightarrow> string option" where
  "progress_line now p =
     (let percent = (if pt_total_bytes p = 0 then 100
                     else dbl (dbl (double_of (pt_bytes_transferred p) * 100) /
                               double_of (pt_total_bytes p)));
          speed = average_mbps now p;
          remaining_bytes = double_of (if pt_bytes_transferred p \<ge> pt_total_bytes p then 0
                                       else pt_total_bytes p - pt_bytes_transferred p);
          eta = (if speed > 0 then dbl (remaining_bytes / dbl (dbl (speed * 1024) * 1024)) else 0)
      in do {
        bar \<leftarrow> progress_bar (min 100 percent);
        duration \<leftarrow> format_duration eta;
        Some (bar @ '' '' @ fixed_text 1 (min 100 percent) @ ''% | '' @
              to_string (pt_chunks_completed p) @ ''/'' @ to_string (pt_total_chunks p) @
              '' chunks | '' @ fixed_text 2 speed @ '' MB/s | ETA '' @ duration)
      })"

definition summary_line :: "int \<Rightarrow> int \<Rightarrow> ProgressTracker \<Rightarrow> string option" where
  "summary_line now later p = do {
     duration \<leftarrow> format_duration (elapsed_seconds now p);
     Some (''elapsed '' @ duration @ '', average '' @ fixed_text 2 (average_mbps later p) @ '' MB/s'')
   }"

definition bytes_transferred :: "ProgressTracker \<Rightarrow> u64" where
  "bytes_transferred p = pt_bytes_transferred p"

definition chunks_completed :: "ProgressTracker \<Rightarrow> u64" where
  "chunks_completed p = pt_chunks_completed p"

subsection \<open>Counters\<close>

text \<open>What the tracker reports after a list of increments; both counters wrap at 64 bits.\<close>

lemma add_progress_fold:
  "fold (\<lambda>b. add_progress b 1) bs p =
     p\<lparr>pt_bytes_transferred := pt_bytes_transferred p + sum_list bs,
       pt_chunks_completed := pt_chunks_completed p + of_nat (length bs)\<rparr>"
  by (induction bs arbitrary: p) (simp_all add: add_progress_def algebra_simps)

lemma should_report_cases:
  assumes "should_report now p = (r, p')"
  shows "r \<longleftrightarrow> pt_chunks_completed p = pt_total_chunks p \<or> now - pt_last_report_at p \<ge> 500000000"
    and "p' = (if r then p\<lparr>pt_last_report_at := now\<rparr> else p)"
  using assms by (auto simp: should_report_def split: if_splits)

subsection \<open>Durations\<close>

lemma setw2_small:
  assumes "0 \<le> n" and "n < 100"
  shows "length (setw2 n) = 2" and "\<forall>c \<in> set (setw2 n). is_digit c" and "dec_value (setw2 n) = n"
proof -
  have "length (show_base 10 n) \<le> 2" "show_base 10 n \<noteq> []"
    using length_show_base [of 10 n 1] assms show_base_nonempty by simp_all
  then have pad: "length (show_base 10 n) = 2 \<and> setw2 n = show_base 10 n \<or>
      length (show_base 10 n) = 1 \<and> setw2 n = CHR ''0'' # show_base 10 n"
    unfolding setw2_def pad_left_def
    by (cases "show_base 10 n" rule: list.exhaust) (auto simp: le_Suc_eq)
  have zero: "is_digit (CHR ''0'')"
    by (simp add: is_digit_def)
  show "length (setw2 n) = 2"
    using pad by auto
  show "\<forall>c \<in> set (setw2 n). is_digit c"
    using pad zero digits_show [OF assms(1)] by auto
  have "dec_value (CHR ''0'' # s) = dec_value s" for s
    by (simp add: dec_value_def)
  then show "dec_value (setw2 n) = n"
    using pad dec_value_show [OF assms(1)] by auto
qed

lemma setw2_large: "100 \<le> n \<Longrightarrow> dec_value (setw2 n) = n \<and> (\<forall>c \<in> set (setw2 n). is_digit c)"
proof -
  assume n: "100 \<le> n"
  have "2 \<le> length (show_base 10 n)"
    using n show_base_step [of 10 n] show_base_nonempty [of 10 "n div 10"]
    by (cases "show_base 10 (n div 10)") auto
  then have "setw2 n = show_base 10 n"
    by (simp add: setw2_def pad_left_def)
  then show ?thesis
    using n dec_value_show [of n] digits_show [of n] by simp
qed

lemma setw2_value:
  assumes "0 \<le> n"
  shows "dec_value (setw2 n) = n" and "\<forall>c \<in> set (setw2 n). is_digit c"
  using setw2_small [OF assms] setw2_large [of n] by (cases "n < 100"; simp)+

subsection \<open>Properties\<close>

text \<open>
  A duration is printed as hours (only when there are any), minutes and seconds, and reading
  the three numbers back gives the whole seconds of the duration; negative durations print as
  zero.
\<close>

lemma format_duration_exact:
  assumes "seconds < 2 ^ 63"
  shows "\<exists>h m s. format_duration seconds =
      Some ((if h > 0 then setw2 h @ '':'' else []) @ setw2 m @ '':'' @ setw2 s) \<and>
    0 \<le> h \<and> 0 \<le> m \<and> m < 60 \<and> 0 \<le> s \<and> s < 60 \<and> length (setw2 m) = 2 \<and> length (setw2 s) = 2 \<and>
    dec_value (setw2 h) * 3600 + dec_value (setw2 m) * 60 + dec_value (setw2 s) = \<lfloor>max 0 seconds\<rfloor>"
proof -
  define t where "t = \<lfloor>max 0 seconds\<rfloor>"
  have t: "0 \<le> t" "t < 2 ^ 63"
    using assms by (simp_all add: t_def floor_less_iff)
  let ?h = "t div 3600" and ?m = "(t mod 3600) div 60" and ?s = "t mod 60"
  have b: "0 \<le> ?h" "0 \<le> ?m" "?m < 60" "0 \<le> ?s" "?s < 60"
    using t(1) pos_mod_bound [of 3600 t] pos_mod_sign [of 3600 t]
    by (auto simp: pos_imp_zdiv_nonneg_iff div_less_iff_less_mult)
  have "t mod 60 = (t mod 3600) mod 60"
    by (rule mod_mod_cancel [symmetric]) simp
  then have "?m * 60 + ?s = t mod 3600"
    by (simp only: div_mult_mod_eq)
  then have "?h * 3600 + ?m * 60 + ?s = t"
    using div_mult_mod_eq [of t 3600] by linarith
  moreover have "format_duration seconds =
      Some ((if ?h > 0 then setw2 ?h @ '':'' else []) @ setw2 ?m @ '':'' @ setw2 ?s)"
    using t(2) by (simp add: format_duration_def t_def Let_def)
  moreover have "dec_value (setw2 ?h) = ?h" "dec_value (setw2 ?m) = ?m" "dec_value (setw2 ?s) = ?s"
    using b by (simp_all only: setw2_value(1))
  moreover have "length (setw2 ?m) = 2" "length (setw2 ?s) = 2"
    using b by (auto intro: setw2_small(1))
  ultimately have "format_duration seconds =
      Some ((if ?h > 0 then setw2 ?h @ '':'' else []) @ setw2 ?m @ '':'' @ setw2 ?s) \<and>
    length (setw2 ?m) = 2 \<and> length (setw2 ?s) = 2 \<and>
    dec_value (setw2 ?h) * 3600 + dec_value (setw2 ?m) * 60 + dec_value (setw2 ?s) = \<lfloor>max 0 seconds\<rfloor>"
    unfolding t_def by (simp only: simp_thms)
  then show ?thesis
    using b by blast
qed

lemma format_duration_example:
  "\<exists>h m s. format_duration 3661 =
      Some ((if h > 0 then setw2 h @ '':'' else []) @ setw2 m @ '':'' @ setw2 s) \<and>
    dec_value (setw2 h) * 3600 + dec_value (setw2 m) * 60 + dec_value (setw2 s) = 3661"
proof -
  have "\<lfloor>max 0 (3661 :: rat)\<rfloor> = 3661" "(3661 :: rat) < 2 ^ 63"
    by simp_all
  then show ?thesis
    using format_duration_exact [of 3661] by metis
qed

text \<open>
  The counters of a tracker after any sequence of chunks are the number of chunks and the sum
  of their sizes, and a report is due when the last chunk has been counted or half a second has
  passed since the last report.
\<close>

lemma progress_counts:
  "pt_bytes_transferred (fold (\<lambda>b. add_progress b 1) bs (ProgressTracker_new n k now)) = sum_list bs \<and>
   pt_chunks_completed (fold (\<lambda>b. add_progress b 1) bs (ProgressTracker_new n k now)) =
     of_nat (length bs) \<and>
   (fst (should_report later (fold (\<lambda>b. add_progress b 1) bs (ProgressTracker_new n k now))) \<longleftrightarrow>
      of_nat (length bs) = k \<or> later - now \<ge> 500000000)"
  by (simp add: add_progress_fold ProgressTracker_new_def should_report_def)

subsection \<open>The bar\<close>

definition bar_text :: "nat \<Rightarrow> string" where
  "bar_text k = ''['' @ replicate k (CHR ''#'') @ replicate (20 - k) (CHR ''-'') @ '']''"

definition filled :: "rat \<Rightarrow> int" where
  "filled q = \<lfloor>dbl (dbl (q / 100) * 20)\<rfloor>"

text \<open>At the multiples of five per cent the rounding errors cancel out.\<close>

lemma filled_steps: "list_all (\<lambda>j. dbl (dbl (of_int (5 * j) / 100) * 20) = of_int j) [0..20]"
  by code_simp

lemma filled_step: "0 \<le> j \<Longrightarrow> j \<le> 20 \<Longrightarrow> dbl (dbl (of_int (5 * j) / 100) * 20) = of_int j"
  using filled_steps by (auto simp: list_all_iff)

lemma fill_mono:
  assumes "0 \<le> q" and "q \<le> r"
  shows "dbl (dbl (q / 100) * 20) \<le> dbl (dbl (r / 100) * 20)"
  using assms by (intro dbl_mono mult_right_mono divide_right_mono) (simp_all add: dbl_nonneg)

lemma filled_bounds:
  assumes "0 \<le> q" and "q \<le> 100"
  shows "0 \<le> filled q" and "filled q \<le> 20" and "\<lfloor>q / 5\<rfloor> \<le> filled q" and "filled q \<le> \<lfloor>q / 5\<rfloor> + 1"
proof -
  define j where "j = \<lfloor>q / 5\<rfloor>"
  have j: "0 \<le> j" "j \<le> 20" "of_int (5 * j) \<le> q" "q < of_int (5 * (j + 1))"
    using assms by (simp_all add: j_def floor_le_iff) linarith+
  have "of_int j \<le> dbl (dbl (q / 100) * 20)"
    using fill_mono [OF _ j(3)] filled_step [OF j(1,2)] j(1) by simp
  then show low: "\<lfloor>q / 5\<rfloor> \<le> filled q"
    by (simp add: filled_def le_floor_iff j_def)
  then show "0 \<le> filled q"
    using j(1) unfolding j_def by linarith
  have full: "dbl (dbl (q / 100) * 20) \<le> 20"
    using fill_mono [OF assms] filled_step [of 20] by simp
  then show "filled q \<le> 20"
    by (simp add: filled_def floor_le_iff)
  have "dbl (dbl (q / 100) * 20) \<le> of_int (j + 1)"
  proof (cases "j < 20")
    case True
    then show ?thesis
      using fill_mono [OF assms(1) less_imp_le [OF j(4)]] filled_step [of "j + 1"] j(1) by simp
  next
    case False
    then show ?thesis using full j(2) by simp
  qed
  then show "filled q \<le> \<lfloor>q / 5\<rfloor> + 1"
    by (simp add: filled_def floor_le_iff j_def)
qed

lemma bar_chars:
  "0 \<le> k \<Longrightarrow> k \<le> int n \<Longrightarrow> map (\<lambda>i. if int i < k then a else b) [0..<n] =
     replicate (nat k) a @ replicate (n - nat k) b"
  by (rule nth_equalityI) (auto simp: nth_append)

lemma progress_bar_eq:
  assumes "0 \<le> q" and "q \<le> 100"
  shows "progress_bar q = Some (bar_text (nat (filled q)))"
proof -
  have "0 \<le> dbl (dbl (q / 100) * 20)"
    using assms(1) by (intro dbl_nonneg mult_nonneg_nonneg) (simp_all add: dbl_nonneg)
  then have "trunc (dbl (dbl (q / 100) * 20)) = filled q"
    by (simp add: trunc_def filled_def)
  then show ?thesis
    using filled_bounds [OF assms] bar_chars [of "filled q" 20 "CHR ''#''" "CHR ''-''"]
    by (simp add: progress_bar_def bar_text_def Let_def)
qed

text \<open>A value below 100 by more than the rounding errors does not fill the bar.\<close>

lemma dbl_exact_fraction: "0 < n \<Longrightarrow> n < 2 ^ 53 \<Longrightarrow> dbl (of_int n / 2 ^ k) = of_int n / 2 ^ k"
  using dbl_exact_less [of n "- int k"] by (simp add: power_int_minus divide_inverse)

lemma filled_not_full:
  assumes "0 \<le> q" and "q \<le> 100 - 1 / 2 ^ 30"
  shows "filled q < 20"
proof -
  have "dbl (q / 100) \<le> dbl (of_int (2 ^ 37 - 1) / 2 ^ 37)"
    using assms by (intro dbl_mono) simp_all
  also have "\<dots> = of_int (2 ^ 37 - 1) / 2 ^ 37"
    by (rule dbl_exact_fraction) simp_all
  finally have "dbl (dbl (q / 100) * 20) \<le> dbl (of_int (20 * (2 ^ 37 - 1)) / 2 ^ 37)"
    using assms(1) by (intro dbl_mono) (simp_all add: dbl_nonneg)
  also have "\<dots> = of_int (20 * (2 ^ 37 - 1)) / 2 ^ 37"
    by (rule dbl_exact_fraction) simp_all
  also have "\<dots> < (20 :: rat)"
    by simp
  finally show ?thesis
    by (simp add: filled_def floor_less_iff)
qed

subsection \<open>Percentage and remaining time\<close>

lemma double_of_exact: "uint n < 2 ^ 53 \<Longrightarrow> double_of n = of_int (uint n)"
  unfolding double_of_def by (rule dbl_int) simp_all

lemma double_of_mono: "n \<le> m \<Longrightarrow> double_of n \<le> double_of m"
  unfolding double_of_def by (rule dbl_mono) (simp_all add: word_le_def del: of_int_uint)

lemma double_of_nonneg: "0 \<le> double_of n"
  unfolding double_of_def by (rule dbl_nonneg) (simp del: of_int_uint)

definition percent_of :: "ProgressTracker \<Rightarrow> rat" where
  "percent_of p =
     (if pt_total_bytes p = 0 then 100
      else dbl (dbl (double_of (pt_bytes_transferred p) * 100) / double_of (pt_total_bytes p)))"

definition eta_of :: "int \<Rightarrow> ProgressTracker \<Rightarrow> rat" where
  "eta_of now p =
     (if average_mbps now p > 0
      then dbl (double_of (if pt_bytes_transferred p \<ge> pt_total_bytes p then 0
                           else pt_total_bytes p - pt_bytes_transferred p) /
                dbl (dbl (average_mbps now p * 1024) * 1024))
      else 0)"

lemma percent_complete:
  assumes "pt_total_bytes p \<le> pt_bytes_transferred p" and "uint (pt_total_bytes p) \<le> 2 ^ 36"
  shows "100 \<le> percent_of p"
proof (cases "pt_total_bytes p = 0")
  case False
  define t where "t = uint (pt_total_bytes p)"
  have t: "0 < t" "t \<le> 2 ^ 36" "double_of (pt_total_bytes p) = of_int t"
    unfolding t_def using False assms(2)
    by (auto intro: double_of_exact simp: less_le uint_0_iff simp del: of_int_uint)
  have "of_int t * 100 = dbl (of_int (t * 100))"
    using t(1,2) dbl_int [of "t * 100"] by simp
  also have "\<dots> \<le> dbl (double_of (pt_bytes_transferred p) * 100)"
    using double_of_mono [OF assms(1)] t by (intro dbl_mono) simp_all
  finally have "(100 :: rat) \<le> dbl (double_of (pt_bytes_transferred p) * 100) / double_of (pt_total_bytes p)"
    using t by (simp add: pos_le_divide_eq mult.commute)
  then have "dbl 100 \<le> percent_of p"
    using False unfolding percent_of_def by (simp add: dbl_mono)
  then show ?thesis
    using dbl_int [of 100] by simp
qed (simp add: percent_of_def)

lemma percent_incomplete:
  assumes "pt_bytes_transferred p < pt_total_bytes p" and "uint (pt_total_bytes p) \<le> 2 ^ 36"
  shows "percent_of p = dbl (100 * of_int (uint (pt_bytes_transferred p)) / of_int (uint (pt_total_bytes p)))"
    and "0 \<le> percent_of p" and "percent_of p \<le> 100 - 1 / 2 ^ 30"
proof -
  define t b where "t = uint (pt_total_bytes p)" and "b = uint (pt_bytes_transferred p)"
  have b: "b < t" "0 \<le> b" "t \<le> 2 ^ 36"
    using assms by (simp_all add: word_less_def t_def b_def)
  have dbl: "double_of (pt_total_bytes p) = of_int t" "double_of (pt_bytes_transferred p) = of_int b"
    unfolding t_def b_def using b by (auto intro!: double_of_exact simp: t_def b_def simp del: of_int_uint)
  have "dbl (of_int (b * 100)) = of_int (b * 100)"
    using b by (intro dbl_int) simp_all
  then have eq: "percent_of p = dbl (100 * of_int b / of_int t)"
    using b assms(1) by (auto simp: percent_of_def dbl mult.commute)
  then show "percent_of p =
      dbl (100 * of_int (uint (pt_bytes_transferred p)) / of_int (uint (pt_total_bytes p)))"
    by (simp only: t_def b_def)
  show "0 \<le> percent_of p"
    unfolding eq using b by (simp add: dbl_nonneg)
  have "(of_int b :: rat) \<le> of_int t - 1" "(of_int t :: rat) \<le> 2 ^ 36" "0 < (of_int t :: rat)"
    using b of_int_le_iff [where 'a = rat, of b "t - 1"] of_int_le_iff [where 'a = rat, of t "2 ^ 36"]
    by simp_all
  then have "100 * of_int b / of_int t \<le> (of_int (100 * 2 ^ 30 - 1) / 2 ^ 30 :: rat)"
    by (simp add: pos_divide_le_eq)
  then have "percent_of p \<le> dbl (of_int (100 * 2 ^ 30 - 1) / 2 ^ 30)"
    unfolding eq using b by (intro dbl_mono) simp_all
  also have "\<dots> = of_int (100 * 2 ^ 30 - 1) / 2 ^ 30"
    by (rule dbl_exact_fraction) simp_all
  finally show "percent_of p \<le> 100 - 1 / 2 ^ 30"
    by simp
qed

lemma average_mbps_nonneg: "0 \<le> average_mbps now p"
  by (auto simp: average_mbps_def Let_def intro!: dbl_nonneg divide_nonneg_pos double_of_nonneg)

lemma dbl_power_le: "2 powi k \<le> x \<Longrightarrow> 2 powi k \<le> dbl x"
  using dbl_mono [of "2 powi k" x] by (simp add: dbl_power)

lemma dbl_le_power: "0 \<le> x \<Longrightarrow> x \<le> 2 powi k \<Longrightarrow> dbl x \<le> 2 powi k"
  using dbl_mono [of x "2 powi k"] by (simp add: dbl_power)

text \<open>After at most two years a running transfer has a rate that is not too small.\<close>

lemma elapsed_bound:
  assumes "0 \<le> now - pt_started_at p" and "now - pt_started_at p \<le> 2 ^ 26 * 1000000000"
  shows "elapsed_seconds now p \<le> 2 powi 26"
proof -
  have "dbl (of_int (now - pt_started_at p)) \<le> dbl (of_int 1000000000 * 2 powi 26)"
    using assms of_int_le_iff [where 'a = rat, of "now - pt_started_at p" "2 ^ 26 * 1000000000"]
    by (intro dbl_mono) simp_all
  also have "\<dots> = of_int 1000000000 * 2 powi 26"
    by (rule dbl_exact_less) simp_all
  finally have le: "dbl (of_int (now - pt_started_at p)) / 1000000000 \<le> 2 powi 26"
    by simp
  have "0 \<le> dbl (of_int (now - pt_started_at p))"
    using assms(1) by (intro dbl_nonneg) simp
  then show ?thesis
    unfolding elapsed_seconds_def by (intro dbl_le_power le) simp
qed

lemma speed_bound:
  assumes "0 \<le> now - pt_started_at p" and "now - pt_started_at p \<le> 2 ^ 26 * 1000000000"
    and "0 < average_mbps now p"
  shows "2 powi (- 46) \<le> average_mbps now p"
proof -
  let ?e = "elapsed_seconds now p" and ?b = "double_of (pt_bytes_transferred p)"
  have e: "0 < ?e" "?e \<le> 2 powi 26" and speed: "average_mbps now p = dbl (dbl (?b / (1024 * 1024)) / ?e)"
    using assms(3) elapsed_bound [OF assms(1,2)] by (auto simp: average_mbps_def Let_def split: if_splits)
  have "pt_bytes_transferred p \<noteq> 0"
    using assms(3) speed by (auto simp: double_of_def)
  then have "1 \<le> pt_bytes_transferred p"
    by (simp add: word_le_nat_alt unat_gt_0 Suc_le_eq)
  then have "1 \<le> ?b"
    using double_of_mono [of 1 "pt_bytes_transferred p"] by (simp add: double_of_exact)
  then have "2 powi (- 20) \<le> ?b / (1024 * 1024)"
    by (simp add: power_int_minus field_simps)
  then have "2 powi (- 20) \<le> dbl (?b / (1024 * 1024))"
    by (rule dbl_power_le)
  then have "2 powi (- 20) / 2 powi 26 \<le> dbl (?b / (1024 * 1024)) / ?e"
    using e by (intro frac_le) (auto intro: order_trans [rotated])
  then show ?thesis
    unfolding speed by (intro dbl_power_le) (simp add: power_int_minus)
qed

lemma eta_bound:
  assumes "0 \<le> now - pt_started_at p" and "now - pt_started_at p \<le> 2 ^ 26 * 1000000000"
    and "uint (pt_total_bytes p) \<le> 2 ^ 36"
  shows "0 \<le> eta_of now p" and "eta_of now p < 2 ^ 63"
    and "pt_total_bytes p \<le> pt_bytes_transferred p \<Longrightarrow> eta_of now p = 0"
proof -
  let ?s = "average_mbps now p"
  define r where "r = double_of (if pt_bytes_transferred p \<ge> pt_total_bytes p then 0
      else pt_total_bytes p - pt_bytes_transferred p)"
  have eta: "eta_of now p = (if ?s > 0 then dbl (r / dbl (dbl (?s * 1024) * 1024)) else 0)"
    by (simp add: eta_of_def r_def)
  have "(if pt_bytes_transferred p \<ge> pt_total_bytes p then 0
      else pt_total_bytes p - pt_bytes_transferred p) \<le> pt_total_bytes p"
    by (auto simp: not_le word_sub_le less_imp_le)
  then have "r \<le> double_of (pt_total_bytes p)"
    unfolding r_def by (rule double_of_mono)
  also have "\<dots> \<le> 2 powi 36"
    unfolding double_of_def using assms(3) of_int_le_iff [where 'a = rat, of "uint (pt_total_bytes p)" "2 ^ 36"]
    by (intro dbl_le_power) (simp_all del: of_int_uint)
  finally have r: "0 \<le> r" "r \<le> 2 powi 36"
    by (simp_all add: r_def double_of_nonneg)
  have "0 \<le> eta_of now p \<and> eta_of now p \<le> 2 powi 62"
  proof (cases "?s > 0")
    case True
    have "2 powi (- 46) * 2 powi 10 \<le> ?s * (1024 :: rat)"
      using speed_bound [OF assms(1,2) True] by (intro mult_mono) simp_all
    then have "2 powi (- 36) \<le> dbl (?s * 1024)"
      by (intro dbl_power_le) (simp add: power_int_minus)
    then have "2 powi (- 36) * 2 powi 10 \<le> dbl (?s * 1024) * (1024 :: rat)"
      by (intro mult_mono) simp_all
    then have d: "2 powi (- 26) \<le> dbl (dbl (?s * 1024) * 1024)"
      by (intro dbl_power_le) (simp add: power_int_minus)
    have "r / dbl (dbl (?s * 1024) * 1024) \<le> 2 powi 36 / 2 powi (- 26)"
      using r d by (intro frac_le) simp_all
    then have "r / dbl (dbl (?s * 1024) * 1024) \<le> 2 powi 62"
      by (simp add: power_int_minus)
    moreover have "0 \<le> r / dbl (dbl (?s * 1024) * 1024)"
      using r d zero_less_power_int [of "2 :: rat" "- 26"] by (intro divide_nonneg_nonneg) linarith+
    ultimately show ?thesis
      using True dbl_le_power dbl_nonneg unfolding eta by (simp only: if_True simp_thms)
  qed (simp add: eta)
  then show "0 \<le> eta_of now p" and "eta_of now p < 2 ^ 63"
    by simp_all
  show "eta_of now p = 0" if "pt_total_bytes p \<le> pt_bytes_transferred p"
    using that by (simp add: eta r_def double_of_def)
qed

lemma format_duration_total: "seconds < 2 ^ 63 \<Longrightarrow> \<exists>d. format_duration seconds = Some d"
  by (auto simp: format_duration_def Let_def floor_less_iff not_le [symmetric] le_floor_iff)

lemma format_duration_zero: "format_duration 0 = Some ''00:00''"
  by code_simp

lemma progress_line_eq:
  assumes "0 \<le> now - pt_started_at p" and "now - pt_started_at p \<le> 2 ^ 26 * 1000000000"
    and "uint (pt_total_bytes p) \<le> 2 ^ 36" and "0 \<le> percent_of p"
  obtains d where "format_duration (eta_of now p) = Some d"
    and "progress_line now p = Some (bar_text (nat (filled (min 100 (percent_of p)))) @ '' '' @
      fixed_text 1 (min 100 (percent_of p)) @ ''% | '' @ to_string (pt_chunks_completed p) @ ''/'' @
      to_string (pt_total_chunks p) @ '' chunks | '' @ fixed_text 2 (average_mbps now p) @
      '' MB/s | ETA '' @ d)"
proof -
  obtain d where d: "format_duration (eta_of now p) = Some d"
    using format_duration_total [OF eta_bound(2) [OF assms(1-3)]] by blast
  have bar: "progress_bar (min 100 (percent_of p)) = Some (bar_text (nat (filled (min 100 (percent_of p)))))"
    using assms(4) by (intro progress_bar_eq) simp_all
  have "progress_line now p = do {
      bar \<leftarrow> progress_bar (min 100 (percent_of p));
      duration \<leftarrow> format_duration (eta_of now p);
      Some (bar @ '' '' @ fixed_text 1 (min 100 (percent_of p)) @ ''% | '' @
        to_string (pt_chunks_completed p) @ ''/'' @ to_string (pt_total_chunks p) @
        '' chunks | '' @ fixed_text 2 (average_mbps now p) @ '' MB/s | ETA '' @ duration) }"
    unfolding progress_line_def percent_of_def eta_of_def Let_def ..
  then show ?thesis
    using that d by (simp add: bar)
qed

text \<open>
  C40: the progress line of a transfer within the limits of the protocol (a million chunks of
  64 KiB) that started at most two years ago can always be printed, in spite of the conversions
  from floating point to integers. The bar has twenty places; the number of filled ones is the
  percentage divided by five, or one more; the bar is full, and the percentage 100, exactly when
  every byte has been transferred, and then the remaining time is 00:00. Before that the
  percentage is the exact quotient rounded once. (The line shows the percentage with one decimal,
  and that text can be 100.0 shortly before the end.)
\<close>

theorem progress_line_exact:
  assumes "0 \<le> now - pt_started_at p" and "now - pt_started_at p \<le> 2 ^ 26 * 1000000000"
    and "uint (pt_total_bytes p) \<le> 2 ^ 36"
  shows "\<exists>q k eta. progress_line now p =
      Some (''['' @ replicate k (CHR ''#'') @ replicate (20 - k) (CHR ''-'') @ ''] '' @
        fixed_text 1 q @ ''% | '' @ to_string (pt_chunks_completed p) @ ''/'' @
        to_string (pt_total_chunks p) @ '' chunks | '' @ fixed_text 2 (average_mbps now p) @
        '' MB/s | ETA '' @ eta) \<and>
    0 \<le> q \<and> q \<le> 100 \<and> k \<le> 20 \<and> \<lfloor>q / 5\<rfloor> \<le> int k \<and> int k \<le> \<lfloor>q / 5\<rfloor> + 1 \<and>
    (k = 20 \<longleftrightarrow> pt_total_bytes p \<le> pt_bytes_transferred p) \<and>
    (if pt_total_bytes p \<le> pt_bytes_transferred p then q = 100 \<and> eta = ''00:00''
     else q = dbl (100 * of_int (uint (pt_bytes_transferred p)) / of_int (uint (pt_total_bytes p))) \<and>
       q < 100)"
proof -
  define q where "q = min 100 (percent_of p)"
  note complete = percent_complete [OF _ assms(3)] and running = percent_incomplete [OF _ assms(3)]
  have pos: "0 \<le> percent_of p"
    using complete running(2) by (cases "pt_total_bytes p \<le> pt_bytes_transferred p") auto
  have q: "0 \<le> q" "q \<le> 100"
    using pos by (simp_all add: q_def)
  obtain d where d: "format_duration (eta_of now p) = Some d"
    "progress_line now p = Some (bar_text (nat (filled q)) @ '' '' @ fixed_text 1 q @ ''% | '' @
      to_string (pt_chunks_completed p) @ ''/'' @ to_string (pt_total_chunks p) @ '' chunks | '' @
      fixed_text 2 (average_mbps now p) @ '' MB/s | ETA '' @ d)"
    using progress_line_eq [OF assms pos] unfolding q_def by blast
  note b = filled_bounds [OF q]
  have k: "nat (filled q) \<le> 20" "\<lfloor>q / 5\<rfloor> \<le> int (nat (filled q))" "int (nat (filled q)) \<le> \<lfloor>q / 5\<rfloor> + 1"
    using b by simp_all
  have "(nat (filled q) = 20 \<longleftrightarrow> pt_total_bytes p \<le> pt_bytes_transferred p) \<and>
    (if pt_total_bytes p \<le> pt_bytes_transferred p then q = 100 \<and> d = ''00:00''
     else q = dbl (100 * of_int (uint (pt_bytes_transferred p)) / of_int (uint (pt_total_bytes p))) \<and>
       q < 100)"
  proof (cases "pt_total_bytes p \<le> pt_bytes_transferred p")
    case True
    then have "q = 100" "d = ''00:00''"
      using complete d(1) eta_bound(3) [OF assms True] by (simp_all add: q_def format_duration_zero)
    moreover have "filled 100 = 20"
      using filled_step [of 20] by (simp add: filled_def)
    ultimately show ?thesis using True by simp
  next
    case False
    then have "percent_of p \<le> 100 - 1 / 2 ^ 30"
      using running(3) by simp
    then have "q = percent_of p" "q \<le> 100 - 1 / 2 ^ 30"
      by (simp_all add: q_def)
    then show ?thesis
      using False running(1) filled_not_full [OF q(1)] by simp
  qed
  note tail = conjunct1 [OF this] conjunct2 [OF this]
  have line: "progress_line now p =
      Some (''['' @ replicate (nat (filled q)) (CHR ''#'') @ replicate (20 - nat (filled q)) (CHR ''-'') @
        ''] '' @ fixed_text 1 q @ ''% | '' @ to_string (pt_chunks_completed p) @ ''/'' @
        to_string (pt_total_chunks p) @ '' chunks | '' @ fixed_text 2 (average_mbps now p) @
        '' MB/s | ETA '' @ d)"
    using d(2) by (simp add: bar_text_def)
  show ?thesis
    by (intro exI [of _ q] exI [of _ "nat (filled q)"] exI [of _ d] conjI line q k tail)
qed

text \<open>Half of a file of 128 KiB after one second.\<close>

definition demo_tracker :: ProgressTracker where
  "demo_tracker = add_progress 65536 1 (ProgressTracker_new 131072 2 5)"

theorem progress_line_exact_witness:
  "\<exists>k eta. progress_line 1000000005 demo_tracker =
      Some (''['' @ replicate k (CHR ''#'') @ replicate (20 - k) (CHR ''-'') @ ''] '' @
        fixed_text 1 (dbl 50) @ ''% | '' @ to_string (pt_chunks_completed demo_tracker) @ ''/'' @
        to_string (pt_total_chunks demo_tracker) @ '' chunks | '' @
        fixed_text 2 (average_mbps 1000000005 demo_tracker) @ '' MB/s | ETA '' @ eta) \<and> k < 20"
proof -
  have "0 \<le> 1000000005 - pt_started_at demo_tracker"
    "1000000005 - pt_started_at demo_tracker \<le> 2 ^ 26 * 1000000000"
    "uint (pt_total_bytes demo_tracker) \<le> 2 ^ 36"
    "\<not> pt_total_bytes demo_tracker \<le> pt_bytes_transferred demo_tracker"
    "100 * of_int (uint (pt_bytes_transferred demo_tracker)) / of_int (uint (pt_total_bytes demo_tracker)) =
      (50 :: rat)"
    by (simp_all add: demo_tracker_def add_progress_def ProgressTracker_new_def)
  with progress_line_exact [of 1000000005 demo_tracker] show ?thesis
    by (metis (no_types, lifting) le_neq_implies_less)
qed

lemma summary_line_total:
  assumes "0 \<le> now - pt_started_at p" and "now - pt_started_at p \<le> 2 ^ 26 * 1000000000"
  shows "\<exists>d. format_duration (elapsed_seconds now p) = Some d \<and> summary_line now later p =
    Some (''elapsed '' @ d @ '', average '' @ fixed_text 2 (average_mbps later p) @ '' MB/s'')"
proof -
  have "elapsed_seconds now p < 2 ^ 63"
    using elapsed_bound [OF assms] by simp
  then obtain d where "format_duration (elapsed_seconds now p) = Some d"
    using format_duration_total by blast
  then show ?thesis by (simp add: summary_line_def)
qed

text \<open>Both lines can be printed, also when the clock runs backwards.\<close>

lemma progress_line_defined:
  assumes "now - pt_started_at p \<le> 2 ^ 26 * 1000000000" and "uint (pt_total_bytes p) \<le> 2 ^ 36"
  shows "progress_line now p \<noteq> None" and "summary_line now later p \<noteq> None"
proof -
  have pos: "0 \<le> percent_of p"
    using percent_complete [OF _ assms(2)] percent_incomplete(2) [OF _ assms(2)]
    by (cases "pt_total_bytes p \<le> pt_bytes_transferred p") fastforce+
  have "progress_line now p \<noteq> None \<and> summary_line now later p \<noteq> None"
  proof (cases "0 \<le> now - pt_started_at p")
    case True
    show ?thesis
      using progress_line_eq [OF True assms pos] summary_line_total [OF True assms(1), of later]
      by (metis option.distinct(1))
  next
    case False
    have neg: "dbl x \<le> 0" if "x \<le> 0" for x
      using round_pos_pos [of "- x"] that by (auto simp: dbl_def)
    have "dbl (of_int (now - pt_started_at p)) \<le> 0"
      using False by (intro neg) simp
    then have e: "elapsed_seconds now p \<le> 0"
      unfolding elapsed_seconds_def by (intro neg) simp
    then have "average_mbps now p = 0"
      by (simp add: average_mbps_def)
    moreover obtain d where "format_duration (elapsed_seconds now p) = Some d"
      using format_duration_total [of "elapsed_seconds now p"] e by force
    moreover have "progress_bar (min 100 (percent_of p)) = Some (bar_text (nat (filled (min 100 (percent_of p)))))"
      using pos by (intro progress_bar_eq) simp_all
    ultimately show ?thesis
      by (simp add: progress_line_def summary_line_def percent_of_def [symmetric] format_duration_zero Let_def)
  qed
  then show "progress_line now p \<noteq> None" and "summary_line now later p \<noteq> None" by simp_all
qed

end
