(* ===== verification/Receiver.thy ===== *)
theory Receiver
  imports Messages Checkpoint Progress_Tracker
begin

text \<open>
  \<open>apps/receiver.cpp\<close>. The objects that one transfer mutates are the fields of the record
  \<open>transfer\<close>. The body of the loop over the requested chunks is \<open>receive_one_chunk\<close>, and
  \<open>receiver_session\<close> is the part of \<open>main\<close> that runs on the accepted connection. Destructors
  are written out: the output stream is closed on every return of \<open>receive_file_chunks\<close>, the
  client and the server socket on every return of \<open>main\<close>. Running out of memory is not
  modelled.
\<close>

record transfer =
  tr_output :: fstream
  tr_checkpoint :: TransferCheckpoint
  tr_progress :: ProgressTracker
  tr_fs :: fs

definition prepare_output_file :: "string \<Rightarrow> bool \<Rightarrow> fs \<Rightarrow> bool \<times> fs" where
  "prepare_output_file output_path fresh_transfer fs =
     (if fresh_transfer then ofstream_create output_path [] fs
      else (file_exists output_path fs, fs))"

text \<open>\<open>store_chunk\<close> is the part of the loop body after the payload has arrived.\<close>

definition store_chunk ::
    "string \<Rightarrow> ChunkHeader \<Rightarrow> bytes \<Rightarrow> int \<Rightarrow> transfer \<Rightarrow> bool \<times> transfer" where
  "store_chunk checkpoint_path header buffer now t =
     (let (out1, fs1) = fstream_seekp (ch_byte_offset header) (tr_output t) (tr_fs t);
          (out2, fs2) = fstream_write buffer out1 fs1;
          t = t\<lparr>tr_output := out2, tr_fs := fs2\<rparr>
      in if fo_fail out2 then (False, t)
         else
           let progress = add_progress (ucast (ch_payload_size header)) 1 (tr_progress t);
               checkpoint = (tr_checkpoint t)
                 \<lparr>cp_completed_chunks :=
                    insert (ch_chunk_index header) (cp_completed_chunks (tr_checkpoint t))\<rparr>;
               (saved, fs3) = save_checkpoint checkpoint_path checkpoint fs2;
               t = t\<lparr>tr_checkpoint := checkpoint, tr_progress := progress, tr_fs := fs3\<rparr>
           in if \<not> saved then (False, t)
              else (True, t\<lparr>tr_progress := snd (should_report now progress)\<rparr>))"

definition receive_one_chunk ::
    "'w sock_api \<Rightarrow> socket_t \<Rightarrow> string \<Rightarrow> FileManifest \<Rightarrow> u64 \<Rightarrow> transfer \<Rightarrow> 'w \<Rightarrow>
     (bool \<times> transfer \<times> 'w) option" where
  "receive_one_chunk api s checkpoint_path manifest expected_index t w =
     do {
       (ok, header, w) \<leftarrow> receive_chunk_header api s ChunkHeader_init w;
       if \<not> ok then Some (False, t, w)
       else if ch_chunk_index header \<noteq> expected_index \<or> \<not> validate_chunk_header manifest header
       then Some (False, t, w)
       else do {
         (ok, buffer, w) \<leftarrow> recv_exact api s (unat (ch_payload_size header)) w;
         if \<not> ok then Some (False, t, w)
         else do {
           let (ok, t) = store_chunk checkpoint_path header buffer (sys_clock api w) t;
           Some (ok, t, w)
         }
       }
     }"

fun receive_chunks_loop ::
    "'w sock_api \<Rightarrow> socket_t \<Rightarrow> string \<Rightarrow> FileManifest \<Rightarrow> u64 list \<Rightarrow> transfer \<Rightarrow> 'w \<Rightarrow>
     (bool \<times> transfer \<times> 'w) option" where
  "receive_chunks_loop api s checkpoint_path manifest [] t w = Some (True, t, w)"
| "receive_chunks_loop api s checkpoint_path manifest (expected_index # rest) t w =
     do {
       (ok, t, w) \<leftarrow> receive_one_chunk api s checkpoint_path manifest expected_index t w;
       if \<not> ok then Some (False, t, w)
       else receive_chunks_loop api s checkpoint_path manifest rest t w
     }"

definition receive_file_chunks ::
    "'w sock_api \<Rightarrow> socket_t \<Rightarrow> string \<Rightarrow> string \<Rightarrow> FileManifest \<Rightarrow> u64 list \<Rightarrow>
     TransferCheckpoint \<Rightarrow> ProgressTracker \<Rightarrow> bool \<Rightarrow> fs \<Rightarrow> 'w \<Rightarrow>
     (bool \<times> TransferCheckpoint \<times> ProgressTracker \<times> fs \<times> 'w) option" where
  "receive_file_chunks api s output_path checkpoint_path manifest chunk_indexes checkpoint
       progress fresh_transfer fs w =
     (let (prepared, fs) = prepare_output_file output_path fresh_transfer fs
      in if \<not> prepared then Some (False, checkpoint, progress, fs, w)
         else
           let output_stream = fstream_open output_path fs
           in if fo_fail output_stream then Some (False, checkpoint, progress, fs, w)
              else do {
                (ok, t, w) \<leftarrow> receive_chunks_loop api s checkpoint_path manifest chunk_indexes
                  \<lparr>tr_output = output_stream, tr_checkpoint = checkpoint, tr_progress = progress,
                   tr_fs = fs\<rparr> w;
                Some (ok, tr_checkpoint t, tr_progress t,
                      fstream_close (tr_output t) (tr_fs t), w)
              })"

definition output_path_for :: "string \<Rightarrow> FileManifest \<Rightarrow> string" where
  "output_path_for output_dir manifest =
     join_output_path output_dir (''received_'' @ sanitize_filename (fm_filename manifest))"

definition initial_checkpoint :: "string \<Rightarrow> FileManifest \<Rightarrow> fs \<Rightarrow> bool \<times> TransferCheckpoint" where
  "initial_checkpoint output_path manifest fs =
     (let checkpoint_path = checkpoint_path_for_output output_path;
          (loaded, checkpoint) =
            (if file_exists output_path fs
             then load_checkpoint checkpoint_path TransferCheckpoint_init fs
             else (False, TransferCheckpoint_init));
          loaded_checkpoint = (loaded \<and> checkpoint_matches_manifest checkpoint manifest)
      in (loaded_checkpoint,
          if \<not> loaded_checkpoint then create_checkpoint_from_manifest manifest else checkpoint))"

definition verify_received ::
    "'w sock_api \<Rightarrow> socket_t \<Rightarrow> FileManifest \<Rightarrow> string \<Rightarrow> string \<Rightarrow> fs \<Rightarrow> 'w \<Rightarrow>
     (int \<times> fs \<times> 'w) option" where
  "verify_received api s manifest output_path checkpoint_path fs w =
     do {
       (ok, hash_packet, w) \<leftarrow> receive_hash_packet api s HashPacket_init w;
       if \<not> ok \<or> hp_session_id hash_packet \<noteq> fm_session_id manifest then Some (1, fs, w)
       else do {
         hash_result \<leftarrow> sha256_file output_path fs;
         case hash_result of
           Inl e \<Rightarrow> Some (1, fs, w)
         | Inr computed_hash \<Rightarrow>
             if computed_hash = hp_sha256_hex hash_packet
             then let (_, fs) = remove_checkpoint checkpoint_path fs in Some (0, fs, w)
             else Some (1, fs, w)
       }
     }"

definition receiver_session ::
    "'w sock_api \<Rightarrow> socket_t \<Rightarrow> string \<Rightarrow> fs \<Rightarrow> 'w \<Rightarrow> (int \<times> fs \<times> 'w) option" where
  "receiver_session api s output_dir fs w =
     do {
       (ok, manifest, w) \<leftarrow> receive_file_manifest api s FileManifest_init w;
       if \<not> ok then Some (1, fs, w)
       else do {
         let output_path = output_path_for output_dir manifest;
         let checkpoint_path = checkpoint_path_for_output output_path;
         let (loaded_checkpoint, checkpoint) = initial_checkpoint output_path manifest fs;
         let chunks_to_receive = missing_chunks checkpoint;
         let request = ContinueRequest_init
               \<lparr>cr_session_id := fm_session_id manifest,
                cr_total_chunks := fm_chunk_count manifest,
                cr_missing_chunk_indexes := chunks_to_receive\<rparr>;
         (ok, w) \<leftarrow> send_continue_request api s request w;
         if \<not> ok then Some (exit_status api w 1, fs, w)
         else do {
           let (saved, fs) = save_checkpoint checkpoint_path checkpoint fs;
           if \<not> saved then Some (1, fs, w)
           else do {
             let progress = ProgressTracker_new (bytes_for_chunks manifest chunks_to_receive)
                   (of_nat (length chunks_to_receive)) (sys_clock api w);
             (ok, checkpoint, progress, fs, w) \<leftarrow>
               receive_file_chunks api s output_path checkpoint_path manifest chunks_to_receive
                 checkpoint progress (\<not> loaded_checkpoint) fs w;
             if \<not> ok then Some (1, fs, w)
             else verify_received api s manifest output_path checkpoint_path fs w
           }
         }
       }
     }"

definition receiver_main ::
    "'w sock_api \<Rightarrow> string list \<Rightarrow> fs \<Rightarrow> 'w \<Rightarrow> (int \<times> fs \<times> 'w) option" where
  "receiver_main api args fs w =
     (if length args > 1 then Some (1, fs, w)
      else if args \<noteq> [] \<and> is_help_arg (hd args) then Some (0, fs, w)
      else
        let output_dir = (if args \<noteq> [] then hd args else ''.'');
            (listening, server, w) = bind_and_listen api kInvalidSocket kDefaultTransferTcpPort 16 w
        in if \<not> listening then Some (1, fs, snd (sock_close api server w))
           else
             let (client, w) = accept_client api server w
             in if \<not> is_valid_socket client then Some (1, fs, snd (sock_close api server w))
                else do {
                  (code, fs, w) \<leftarrow> receiver_session api client output_dir fs w;
                  let w = snd (sock_close api client w);
                  Some (code, fs, snd (sock_close api server w))
                })"

end
