(* ===== verification/Receiver_Spec.thy ===== *)
theory Receiver_Spec
  imports Receiver
begin

text \<open>
  What the receiver's transfer loop does: a step is described by the bytes it takes off the
  wire and by its effect on the logical content of the output file, the loop by the chunks it
  has stored, and the files it may touch are fixed throughout.
\<close>

definition only_touches :: "string \<Rightarrow> string \<Rightarrow> fs \<Rightarrow> fs \<Rightarrow> bool" where
  "only_touches P CP f g \<longleftrightarrow>
     fs_env f g \<and> (\<forall>q. q \<noteq> P \<and> q \<noteq> CP \<and> q \<noteq> CP @ ''.tmp'' \<longrightarrow> fs_files g q = fs_files f q)"

lemma only_touches_refl [simp]: "only_touches P CP f f"
  by (simp add: only_touches_def)

lemma only_touches_trans [trans]: "only_touches P CP f g \<Longrightarrow> only_touches P CP g h \<Longrightarrow> only_touches P CP f h"
  unfolding only_touches_def using fs_env_trans by auto

lemma only_touches_save:
  "save_checkpoint CP cp f = (ok, g) \<Longrightarrow> only_touches P CP f g"
  using save_checkpoint_result [of CP cp f ok g] by (simp add: only_touches_def)

text \<open>The output stream is open on \<open>P\<close> and stands for the content \<open>v\<close>.\<close>

definition receiving :: "string \<Rightarrow> bytes \<Rightarrow> transfer \<Rightarrow> bool" where
  "receiving P v t \<longleftrightarrow>
     fo_path (tr_output t) = P \<and> \<not> fo_fail (tr_output t) \<and>
     stream_view (tr_output t) (tr_fs t) = Some v"

definition tr_fits :: "transfer \<Rightarrow> bool" where
  "tr_fits t = stream_fits (tr_output t) (tr_fs t)"

definition tr_exists :: "string \<Rightarrow> transfer \<Rightarrow> bool" where
  "tr_exists P t \<longleftrightarrow> fo_path (tr_output t) = P \<and> fs_files (tr_fs t) P \<noteq> None"

lemma receiving_exists: "receiving P v t \<Longrightarrow> tr_exists P t"
  by (auto simp: receiving_def tr_exists_def stream_view_def)

definition completed_with :: "TransferCheckpoint \<Rightarrow> u64 set \<Rightarrow> TransferCheckpoint" where
  "completed_with cp A = cp\<lparr>cp_completed_chunks := cp_completed_chunks cp \<union> A\<rparr>"

lemma completed_with_simps [simp]:
  "completed_with cp {} = cp"
  "cp_completed_chunks (completed_with cp A) = cp_completed_chunks cp \<union> A"
  "completed_with (completed_with cp A) B = completed_with cp (A \<union> B)"
  by (simp_all add: completed_with_def Un_assoc)

lemma store_chunk_result:
  assumes rec: "receiving P v t" and sep: "P \<noteq> CP" "P \<noteq> CP @ ''.tmp''"
    and store: "store_chunk CP h d now t = (ok, t')"
  shows "only_touches P CP (tr_fs t) (tr_fs t')" and "tr_exists P t'"
    and "ok \<Longrightarrow> receiving P (overwrite (unat (ch_byte_offset h)) d v) t'"
    and "ok \<Longrightarrow> tr_checkpoint t' = completed_with (tr_checkpoint t) {ch_chunk_index h}"
    and "ok \<Longrightarrow> fs_files (tr_fs t') CP =
      Some (take (fs_room (tr_fs t) (CP @ ''.tmp'')) (bytes_of_string (checkpoint_text (tr_checkpoint t'))))"
    and "tr_fits t \<Longrightarrow> unat (ch_byte_offset h) < 2 ^ 63 \<Longrightarrow>
      unat (ch_byte_offset h) + length d \<le> fs_room (tr_fs t) P \<Longrightarrow>
      checkpoint_storable (tr_fs t) CP (completed_with (tr_checkpoint t) {ch_chunk_index h}) \<Longrightarrow>
      ok \<and> tr_fits t'"
proof -
  obtain s1 f1 where seek: "fstream_seekp (ch_byte_offset h) (tr_output t) (tr_fs t) = (s1, f1)"
    by (cases "fstream_seekp (ch_byte_offset h) (tr_output t) (tr_fs t)")
  obtain s2 f2 where wr: "fstream_write d s1 f1 = (s2, f2)"
    by (cases "fstream_write d s1 f1")
  let ?cp = "completed_with (tr_checkpoint t) {ch_chunk_index h}"
  obtain saved f3 where save: "save_checkpoint CP ?cp f2 = (saved, f3)"
    by (cases "save_checkpoint CP ?cp f2")
  obtain c where c: "fs_files (tr_fs t) (fo_path (tr_output t)) = Some c"
    "fo_path (tr_output t) = P" "\<not> fo_fail (tr_output t)"
    using rec by (auto simp: receiving_def stream_view_def)
  note sk = seekp_result [OF c(3,1) seek, unfolded c(2)]
  note sv = save_checkpoint_result [OF save]
  have tout: "if fo_fail s2 then \<not> ok \<and> tr_output t' = s2 \<and> tr_fs t' = f2
    else ok = saved \<and> tr_output t' = s2 \<and> tr_fs t' = f3 \<and> tr_checkpoint t' = ?cp"
    using store seek wr save
    by (auto simp: store_chunk_def Let_def completed_with_def split: if_splits prod.splits)
  have wres: "only_touches P CP (tr_fs t) f2 \<and> fo_path s2 = P \<and> fs_files f2 P \<noteq> None \<and>
    (\<not> fo_fail s2 \<longrightarrow> stream_view s2 f2 = Some (overwrite (unat (ch_byte_offset h)) d v)) \<and>
    (tr_fits t \<and> unat (ch_byte_offset h) < 2 ^ 63 \<and>
       unat (ch_byte_offset h) + length d \<le> fs_room (tr_fs t) P \<longrightarrow> \<not> fo_fail s2 \<and> stream_fits s2 f2)"
  proof (cases "fo_fail s1")
    case True
    then have "s2 = s1" "f2 = f1"
      using wr by (simp_all add: fstream_write_def)
    then show ?thesis
      using True sk by (auto simp: only_touches_def tr_fits_def)
  next
    case False
    then have f1: "fs_files f1 (fo_path s1) = Some v" "fo_pos s1 = unat (ch_byte_offset h)"
      using sk(4,6) rec by (simp_all add: receiving_def)
    note w = write_result [OF False f1(1) sk(5) wr, unfolded sk(4)]
    have "only_touches P CP (tr_fs t) f2"
      unfolding only_touches_def using sk(1,2) w(1,2) fs_env_trans by auto
    then show ?thesis
      using w(3-6) f1(2) fs_env_fields(5) [OF sk(1)] by auto
  qed
  have f3: "only_touches P CP f2 f3" "fs_files f3 P = fs_files f2 P" "fs_room f3 = fs_room f2"
    using only_touches_save [OF save] sv(2) [OF sep] fs_env_fields(5) [OF sv(1)] by simp_all
  have room: "fs_room f2 = fs_room (tr_fs t)"
    using wres by (simp add: only_touches_def fs_env_fields(5))
  show "only_touches P CP (tr_fs t) (tr_fs t')" "tr_exists P t'"
    using tout wres f3 only_touches_trans by (auto simp: tr_exists_def split: if_splits)
  show "ok \<Longrightarrow> receiving P (overwrite (unat (ch_byte_offset h)) d v) t'"
    using tout wres f3(2) by (auto simp: receiving_def stream_view_def split: if_splits)
  show "ok \<Longrightarrow> tr_checkpoint t' = ?cp"
    using tout by (auto split: if_splits)
  show "ok \<Longrightarrow> fs_files (tr_fs t') CP =
      Some (take (fs_room (tr_fs t) (CP @ ''.tmp'')) (bytes_of_string (checkpoint_text (tr_checkpoint t'))))"
    using tout sv(3) room by (auto split: if_splits)
  assume fits: "tr_fits t" "unat (ch_byte_offset h) < 2 ^ 63"
    "unat (ch_byte_offset h) + length d \<le> fs_room (tr_fs t) P"
    and "checkpoint_storable (tr_fs t) CP ?cp"
  then have "checkpoint_storable f2 CP ?cp"
    using wres checkpoint_storable_env [of "tr_fs t" f2] by (simp add: only_touches_def)
  then have saved
    using save_checkpoint_ok [of f2 CP ?cp] save by auto
  then show "ok \<and> tr_fits t'"
    using tout wres fits f3(3) by (auto simp: tr_fits_def stream_fits_def split: if_splits)
qed

text \<open>
  The checkpoint is ahead of the file. A chunk that is shorter than the stream's buffer, the last
  one of a file for instance, is only in memory when the checkpoint that records it is already on
  disk. It follows with the next seek or when the stream is closed; a process that is killed
  before that leaves a checkpoint that claims a chunk the file does not have.
\<close>

lemma recorded_before_written:
  assumes out: "fo_path (tr_output t) = P" "\<not> fo_fail (tr_output t)" "fo_pending (tr_output t) = []"
    and v: "fs_files (tr_fs t) P = Some v" and sep: "P \<noteq> CP" "P \<noteq> CP @ ''.tmp''"
    and offset: "unat (ch_byte_offset h) < 2 ^ 63" and small: "length d < fs_buffer (tr_fs t)"
    and st: "checkpoint_storable (tr_fs t) CP (completed_with (tr_checkpoint t) {ch_chunk_index h})"
  shows "\<exists>t'. store_chunk CP h d now t = (True, t') \<and> fs_files (tr_fs t') P = Some v \<and>
    holds_checkpoint (tr_fs t') CP (completed_with (tr_checkpoint t) {ch_chunk_index h})"
proof -
  let ?cp = "completed_with (tr_checkpoint t) {ch_chunk_index h}"
  let ?s = "(tr_output t)\<lparr>fo_pos := unat (ch_byte_offset h)\<rparr>"
  have same: "fs_put P (Some v) (tr_fs t) = tr_fs t"
    using v by (simp add: fs_put_def fun_upd_idem)
  have "fstream_flush (tr_output t) (tr_fs t) = (True, tr_output t, tr_fs t)"
    using out v same by (simp add: fstream_flush_def device_write_def)
  then have "fstream_seekp (ch_byte_offset h) (tr_output t) (tr_fs t) = (?s, tr_fs t)"
    using out offset by (simp add: fstream_seekp_def sint_offset)
  moreover have "fstream_write d ?s (tr_fs t) = (?s\<lparr>fo_pending := d\<rparr>, tr_fs t)"
    using out small by (simp add: fstream_write_def)
  moreover obtain fs' where save: "save_checkpoint CP ?cp (tr_fs t) = (True, fs')" "holds_checkpoint fs' CP ?cp"
    using save_checkpoint_ok [OF st] by blast
  moreover have "fs_files fs' P = Some v"
    using save_checkpoint_result(2) [OF save(1) sep] v by simp
  ultimately show ?thesis
    using out by (simp add: store_chunk_def completed_with_def Let_def split: prod.split)
qed

subsection \<open>One chunk\<close>

definition chunk_frame :: "FileManifest \<Rightarrow> u64 \<Rightarrow> bytes \<Rightarrow> bytes" where
  "chunk_frame m i d = serialize_chunk_header (chunk_header_for m i) @ d"

definition in_range :: "FileManifest \<Rightarrow> u64 \<Rightarrow> bytes \<Rightarrow> bool" where
  "in_range m i d \<longleftrightarrow> unat i < cnt m \<and> length d = span_len m (unat i)"

definition took_chunk ::
    "'w link \<Rightarrow> FileManifest \<Rightarrow> string \<Rightarrow> string \<Rightarrow> u64 \<Rightarrow> bytes \<Rightarrow> bytes \<Rightarrow> transfer \<Rightarrow> 'w \<Rightarrow>
     transfer \<Rightarrow> 'w \<Rightarrow> bool" where
  "took_chunk c m P CP i d v t w t' w' \<longleftrightarrow>
     in_range m i d \<and> lk_in c w = chunk_frame m i d @ lk_in c w' \<and>
     receiving P (overwrite (span_start m (unat i)) d v) t' \<and>
     tr_checkpoint t' = completed_with (tr_checkpoint t) {i} \<and>
     fs_files (tr_fs t') CP = Some (take (fs_room (tr_fs t) (CP @ ''.tmp''))
       (bytes_of_string (checkpoint_text (tr_checkpoint t'))))"

text \<open>
  Storage that does not get in the way: room for the announced file, and permission and room
  for every checkpoint of it.
\<close>

definition ample :: "FileManifest \<Rightarrow> string \<Rightarrow> string \<Rightarrow> TransferCheckpoint \<Rightarrow> fs \<Rightarrow> bool" where
  "ample m P CP cp fs \<longleftrightarrow>
     fsz m < 2 ^ 63 \<and> fsz m \<le> fs_room fs P \<and>
     (\<forall>A \<subseteq> {i. i < fm_chunk_count m}. checkpoint_storable fs CP (cp\<lparr>cp_completed_chunks := A\<rparr>))"

lemma ample_env: "fs_env f g \<Longrightarrow> ample m P CP cp g = ample m P CP cp f"
  by (simp add: ample_def checkpoint_storable_env fs_env_fields(5))

lemma ample_completed [simp]: "ample m P CP (completed_with cp A) fs = ample m P CP cp fs"
  by (simp add: ample_def completed_with_def)

definition tr_ready :: "FileManifest \<Rightarrow> string \<Rightarrow> string \<Rightarrow> transfer \<Rightarrow> bool" where
  "tr_ready m P CP t \<longleftrightarrow>
     ample m P CP (tr_checkpoint t) (tr_fs t) \<and> tr_fits t \<and>
     cp_completed_chunks (tr_checkpoint t) \<subseteq> {i. i < fm_chunk_count m}"

lemma tr_ready_storable:
  "tr_ready m P CP t \<Longrightarrow> unat i < cnt m \<Longrightarrow>
     checkpoint_storable (tr_fs t) CP (completed_with (tr_checkpoint t) {i})"
  by (auto simp: tr_ready_def ample_def completed_with_def cnt_def word_less_nat_alt)

lemma stored_header:
  assumes safe: "link_safe c" and con: "manifest_consistent m"
    and hdr: "receive_chunk_header (lk_api c) (lk_sock c) ChunkHeader_init w = Some (True, h, w1)"
    and valid: "ch_chunk_index h = i" "validate_chunk_header m h"
  shows "unat i < cnt m" and "unat (ch_byte_offset h) = span_start m (unat i)"
    and "unat (ch_payload_size h) = span_len m (unat i)"
    and "lk_in c w = serialize_chunk_header (chunk_header_for m i) @ lk_in c w1"
proof -
  have h: "h = chunk_header_for m i" and i: "unat i < cnt m"
    using validated_header [OF con valid(2)] valid(1) by simp_all
  show "unat i < cnt m" "unat (ch_byte_offset h) = span_start m (unat i)"
    "unat (ch_payload_size h) = span_len m (unat i)"
    using i by (simp_all add: h chunk_header_for_def unat_offset [OF con] unat_payload_size [OF con])
  show "lk_in c w = serialize_chunk_header (chunk_header_for m i) @ lk_in c w1"
    using receive_chunk_header_True [OF safe hdr] h by simp
qed

lemma receive_one_chunk_stop:
  assumes safe: "link_safe c" and con: "manifest_consistent m"
  obtains (stop) w' where
      "receive_one_chunk (lk_api c) (lk_sock c) CP m i t w = Some (False, t, w')"
      "lk_out c w' = lk_out c w"
      "\<And>d rest. link_live c \<Longrightarrow> in_range m i d \<Longrightarrow> lk_in c w \<noteq> chunk_frame m i d @ rest"
  | (store) h d w' where "in_range m i d" "lk_in c w = chunk_frame m i d @ lk_in c w'"
      "lk_out c w' = lk_out c w" "ch_chunk_index h = i"
      "unat (ch_byte_offset h) = span_start m (unat i)"
      "receive_one_chunk (lk_api c) (lk_sock c) CP m i t w =
        (let (ok, t) = store_chunk CP h d (sys_clock (lk_api c) w') t in Some (ok, t, w'))"
proof -
  let ?hdr = "receive_chunk_header (lk_api c) (lk_sock c) ChunkHeader_init w"
  obtain ok h w1 where hdr: "?hdr = Some (ok, h, w1)"
    using receive_chunk_header_returns [OF safe] by blast
  have out1: "lk_out c w1 = lk_out c w"
    using receive_chunk_header_out [OF safe hdr] .
  have live_hdr: "?hdr = Some (True, chunk_header_for m i, w1) \<and> lk_in c w1 = d @ rest"
    if "link_live c" "lk_in c w = chunk_frame m i d @ rest" for d rest
    using receive_chunk_header_live [OF safe that(1) TrueI, of w "chunk_header_for m i" "d @ rest"
        ChunkHeader_init]
      that(2) hdr by (auto simp: chunk_frame_def)
  show thesis
  proof (cases "ok \<and> ch_chunk_index h = i \<and> validate_chunk_header m h")
    case False
    have "lk_in c w \<noteq> chunk_frame m i d @ rest" if "link_live c" "in_range m i d" for d rest
    proof
      assume "lk_in c w = chunk_frame m i d @ rest"
      then have "ok" "h = chunk_header_for m i"
        using live_hdr [OF that(1)] hdr by auto
      then show False
        using False validate_chunk_header_for [OF con] that(2)
        by (simp add: in_range_def chunk_header_for_def)
    qed
    moreover have "receive_one_chunk (lk_api c) (lk_sock c) CP m i t w = Some (False, t, w1)"
      using hdr False by (auto simp: receive_one_chunk_def)
    ultimately show thesis
      using out1 by (intro stop)
  next
    case True
    then have valid: "ch_chunk_index h = i" "validate_chunk_header m h"
      and hdr': "?hdr = Some (True, h, w1)"
      using hdr by simp_all
    note sh = stored_header [OF safe con hdr' valid]
    have small: "span_len m (unat i) < 2 ^ 63"
      using span_len_bounds(2) [OF con sh(1)] csz_bound [of m] by simp
    obtain ok2 d w2 where rd:
      "recv_exact (lk_api c) (lk_sock c) (span_len m (unat i)) w1 = Some (ok2, d, w2)"
      "lk_out c w2 = lk_out c w1" "lk_in c w1 = d @ lk_in c w2" "ok2 = (length d = span_len m (unat i))"
      "link_live c \<and> span_len m (unat i) \<le> length (lk_in c w1) \<longrightarrow> ok2"
      using tcp_recv_law [OF safe small, of w1] by blast
    show thesis
    proof (cases ok2)
      case False
      have "receive_one_chunk (lk_api c) (lk_sock c) CP m i t w = Some (False, t, w2)"
        using hdr' valid sh(3) rd(1) False by (simp add: receive_one_chunk_def)
      moreover have "lk_in c w \<noteq> chunk_frame m i d' @ rest"
        if "link_live c" "in_range m i d'" for d' rest
        using live_hdr [OF that(1), of d' rest] rd(5) False that by (auto simp: in_range_def)
      ultimately show thesis
        using out1 rd(2) by (intro stop [of w2]) simp_all
    next
      case True
      have "receive_one_chunk (lk_api c) (lk_sock c) CP m i t w =
          (let (ok, t) = store_chunk CP h d (sys_clock (lk_api c) w2) t in Some (ok, t, w2))"
        using hdr' valid sh(3) rd(1) True by (simp add: receive_one_chunk_def)
      with True rd sh valid out1 show thesis
        by (intro store [of d w2 h]) (simp_all add: in_range_def chunk_frame_def)
    qed
  qed
qed

lemma receive_one_chunk_result:
  assumes safe: "link_safe c" and con: "manifest_consistent m"
    and rec: "receiving P v t" and sep: "P \<noteq> CP" "P \<noteq> CP @ ''.tmp''"
  shows "\<exists>ok t' w'. receive_one_chunk (lk_api c) (lk_sock c) CP m i t w = Some (ok, t', w') \<and>
    lk_out c w' = lk_out c w \<and> only_touches P CP (tr_fs t) (tr_fs t') \<and> tr_exists P t' \<and>
    (ok \<longrightarrow> (\<exists>d. took_chunk c m P CP i d v t w t' w')) \<and>
    (tr_ready m P CP t \<longrightarrow> (if ok then tr_ready m P CP t' else t' = t)) \<and>
    (tr_ready m P CP t \<and> link_live c \<longrightarrow> ok \<or>
       (\<forall>d rest. in_range m i d \<longrightarrow> lk_in c w \<noteq> chunk_frame m i d @ rest))"
  using safe con
proof (rule receive_one_chunk_stop [of c m CP i t w], goal_cases)
  case (1 w')
  then show ?case
    using receiving_exists [OF rec] by (intro exI [of _ False] exI [of _ t] exI [of _ w']) simp
next
  case (2 h d w')
  obtain ok t' where st: "store_chunk CP h d (sys_clock (lk_api c) w') t = (ok, t')"
    by (cases "store_chunk CP h d (sys_clock (lk_api c) w') t")
  note r = store_chunk_result [OF rec sep st, unfolded 2(4,5)]
  have i: "unat i < cnt m" "span_start m (unat i) + length d \<le> fsz m"
    using 2(1) span_len_bounds(3) [OF con] by (simp_all add: in_range_def)
  have ready: "ok \<and> tr_ready m P CP t'" if t: "tr_ready m P CP t"
  proof -
    have "fs_env (tr_fs t) (tr_fs t')"
      using r(1) by (simp add: only_touches_def)
    moreover have "span_start m (unat i) < 2 ^ 63" "span_start m (unat i) + length d \<le> fs_room (tr_fs t) P"
      using t i by (auto simp: tr_ready_def ample_def)
    then have "ok" "tr_fits t'"
      using r(6) t tr_ready_storable [OF t i(1)] by (simp_all add: tr_ready_def)
    ultimately show ?thesis
      using t r(4) i(1) ample_env [of "tr_fs t" "tr_fs t'"]
      by (auto simp: tr_ready_def cnt_def word_less_nat_alt)
  qed
  have "ok \<longrightarrow> took_chunk c m P CP i d v t w t' w'"
    using 2(1,2) r(3-5) by (simp add: took_chunk_def)
  then show ?case
    using 2(3,6) st r(1,2) ready
    by (intro exI [of _ ok] exI [of _ t'] exI [of _ w']) auto
qed

subsection \<open>The loop\<close>

type_synonym pieces = "(u64 \<times> bytes) list"

definition write_chunks :: "FileManifest \<Rightarrow> pieces \<Rightarrow> bytes \<Rightarrow> bytes" where
  "write_chunks m ps v = fold (\<lambda>(i, d). overwrite (span_start m (unat i)) d) ps v"

definition frames :: "FileManifest \<Rightarrow> pieces \<Rightarrow> bytes" where
  "frames m ps = concat (map (\<lambda>(i, d). chunk_frame m i d) ps)"

definition pieces_ok :: "FileManifest \<Rightarrow> pieces \<Rightarrow> bool" where
  "pieces_ok m ps \<longleftrightarrow> (\<forall>(i, d) \<in> set ps. in_range m i d)"

lemma pieces_simps [simp]:
  "write_chunks m [] v = v"
  "write_chunks m ((i, d) # ps) v = write_chunks m ps (overwrite (span_start m (unat i)) d v)"
  "frames m [] = []"
  "frames m ((i, d) # ps) = chunk_frame m i d @ frames m ps"
  "pieces_ok m []"
  "pieces_ok m ((i, d) # ps) \<longleftrightarrow> in_range m i d \<and> pieces_ok m ps"
  by (simp_all add: write_chunks_def frames_def pieces_ok_def)

lemma frames_unique:
  assumes "map fst ps = map fst qs" and "pieces_ok m ps" and "pieces_ok m qs"
    and "frames m ps @ x = frames m qs @ y"
  shows "ps = qs \<and> x = y"
  using assms
proof (induction ps arbitrary: qs)
  case Nil
  then show ?case by simp
next
  case (Cons p ps)
  obtain i d where p: "p = (i, d)" by (cases p)
  with Cons.prems(1) obtain e qs' where qs: "qs = (i, e) # qs'" "map fst ps = map fst qs'"
    by (cases qs) auto
  then have "length d = length e" "d @ frames m ps @ x = e @ frames m qs' @ y"
    using Cons.prems p by (simp_all add: in_range_def chunk_frame_def)
  then have "d = e" "frames m ps @ x = frames m qs' @ y"
    by simp_all
  then show ?case
    using Cons.IH [of qs'] Cons.prems p qs by simp
qed

definition took_chunks ::
    "'w link \<Rightarrow> FileManifest \<Rightarrow> string \<Rightarrow> string \<Rightarrow> pieces \<Rightarrow> bytes \<Rightarrow> transfer \<Rightarrow> 'w \<Rightarrow> transfer \<Rightarrow>
     'w \<Rightarrow> bool" where
  "took_chunks c m P CP ps v t w t' w' \<longleftrightarrow>
     pieces_ok m ps \<and> lk_in c w = frames m ps @ lk_in c w' \<and> receiving P (write_chunks m ps v) t' \<and>
     tr_checkpoint t' = completed_with (tr_checkpoint t) (fst ` set ps) \<and>
     (if ps = [] then t' = t
      else fs_files (tr_fs t') CP = Some (take (fs_room (tr_fs t) (CP @ ''.tmp''))
        (bytes_of_string (checkpoint_text (tr_checkpoint t')))))"

lemma took_chunks_Nil: "receiving P v t \<Longrightarrow> took_chunks c m P CP [] v t w t w"
  by (simp add: took_chunks_def)

lemma took_chunks_Cons:
  assumes "took_chunk c m P CP i d v t w t1 w1" and "fs_env (tr_fs t) (tr_fs t1)"
    and "took_chunks c m P CP ps (overwrite (span_start m (unat i)) d v) t1 w1 t2 w2"
  shows "took_chunks c m P CP ((i, d) # ps) v t w t2 w2"
  using assms by (auto simp: took_chunk_def took_chunks_def fs_env_fields(5) split: if_splits)

definition loop_outcome ::
    "'w link \<Rightarrow> FileManifest \<Rightarrow> string \<Rightarrow> string \<Rightarrow> u64 list \<Rightarrow> bytes \<Rightarrow> transfer \<Rightarrow> 'w \<Rightarrow> bool \<Rightarrow>
     transfer \<Rightarrow> 'w \<Rightarrow> bool" where
  "loop_outcome c m P CP is v t w ok t' w' \<longleftrightarrow>
     lk_out c w' = lk_out c w \<and> only_touches P CP (tr_fs t) (tr_fs t') \<and> tr_exists P t' \<and>
     (ok \<longrightarrow> (\<exists>ps. map fst ps = is \<and> took_chunks c m P CP ps v t w t' w')) \<and>
     (tr_ready m P CP t \<longrightarrow> tr_ready m P CP t' \<and>
        (\<exists>n ps w1. map fst ps = take n is \<and> took_chunks c m P CP ps v t w t' w1)) \<and>
     (tr_ready m P CP t \<and> link_live c \<longrightarrow> ok \<or>
        (\<forall>ps rest. map fst ps = is \<longrightarrow> pieces_ok m ps \<longrightarrow> lk_in c w \<noteq> frames m ps @ rest))"

lemma loop_outcome_Nil: "receiving P v t \<Longrightarrow> loop_outcome c m P CP [] v t w True t w"
  using took_chunks_Nil receiving_exists by (fastforce simp: loop_outcome_def)

lemma frames_live_step:
  assumes "took_chunk c m P CP i d v t w t1 w1"
    and "map fst ps = i # is" and "pieces_ok m ps" and "lk_in c w = frames m ps @ rest"
  shows "\<exists>qs. map fst qs = is \<and> pieces_ok m qs \<and> lk_in c w1 = frames m qs @ rest"
proof -
  obtain e qs where ps: "ps = (i, e) # qs" "map fst qs = is"
    using assms(2) by (cases ps) auto
  then have "length d = length e" "d @ lk_in c w1 = e @ frames m qs @ rest"
    using assms by (simp_all add: took_chunk_def in_range_def chunk_frame_def)
  then show ?thesis
    using ps assms(3) by (intro exI [of _ qs]) simp
qed

lemma loop_outcome_stop:
  assumes rec: "receiving P v t" and out: "lk_out c w1 = lk_out c w"
    and touch: "only_touches P CP (tr_fs t) (tr_fs t1)" "tr_exists P t1"
    and ready: "tr_ready m P CP t \<longrightarrow> t1 = t"
    and live: "tr_ready m P CP t \<and> link_live c \<longrightarrow>
      (\<forall>d rest. in_range m i d \<longrightarrow> lk_in c w \<noteq> chunk_frame m i d @ rest)"
  shows "loop_outcome c m P CP (i # is) v t w False t1 w1"
proof -
  have "\<exists>n ps w1. map fst ps = take n (i # is) \<and> took_chunks c m P CP ps v t w t w1"
    using took_chunks_Nil [OF rec] by (intro exI [of _ 0] exI [of _ "[]"] exI [of _ w]) simp
  moreover have "\<forall>ps rest. map fst ps = i # is \<longrightarrow> pieces_ok m ps \<longrightarrow> lk_in c w \<noteq> frames m ps @ rest"
    if "tr_ready m P CP t" "link_live c"
  proof (intro allI impI)
    fix ps :: pieces and rest
    assume "map fst ps = i # is" "pieces_ok m ps"
    then obtain d qs where "ps = (i, d) # qs" "in_range m i d"
      by (cases ps) auto
    then show "lk_in c w \<noteq> frames m ps @ rest"
      using live that by simp
  qed
  ultimately show ?thesis
    using out touch ready by (auto simp: loop_outcome_def)
qed

lemma loop_outcome_Cons:
  assumes took: "took_chunk c m P CP i d v t w t1 w1" and out: "lk_out c w1 = lk_out c w"
    and touch: "only_touches P CP (tr_fs t) (tr_fs t1)"
    and ready: "tr_ready m P CP t \<longrightarrow> tr_ready m P CP t1"
    and rest: "loop_outcome c m P CP is (overwrite (span_start m (unat i)) d v) t1 w1 ok t2 w2"
  shows "loop_outcome c m P CP (i # is) v t w ok t2 w2"
proof -
  have env: "fs_env (tr_fs t) (tr_fs t1)"
    using touch by (simp add: only_touches_def)
  note R = rest [unfolded loop_outcome_def]
  have "\<exists>ps. map fst ps = i # is \<and> took_chunks c m P CP ps v t w t2 w2" if ok
  proof -
    obtain ps where "map fst ps = is"
      "took_chunks c m P CP ps (overwrite (span_start m (unat i)) d v) t1 w1 t2 w2"
      using R \<open>ok\<close> by blast
    then show ?thesis
      using took_chunks_Cons [OF took env] by (intro exI [of _ "(i, d) # ps"]) simp
  qed
  moreover have "tr_ready m P CP t2 \<and>
      (\<exists>n ps w1. map fst ps = take n (i # is) \<and> took_chunks c m P CP ps v t w t2 w1)"
    if t: "tr_ready m P CP t"
  proof -
    obtain n ps w' where "map fst ps = take n is" "tr_ready m P CP t2"
      "took_chunks c m P CP ps (overwrite (span_start m (unat i)) d v) t1 w1 t2 w'"
      using R ready t by blast
    then show ?thesis
      using took_chunks_Cons [OF took env]
      by (intro conjI exI [of _ "Suc n"] exI [of _ "(i, d) # ps"] exI [of _ w']) simp_all
  qed
  moreover have "ok \<or> (\<forall>ps rest. map fst ps = i # is \<longrightarrow> pieces_ok m ps \<longrightarrow> lk_in c w \<noteq> frames m ps @ rest)"
    if "tr_ready m P CP t" "link_live c"
  proof (rule disjCI)
    assume "\<not> (\<forall>ps rest. map fst ps = i # is \<longrightarrow> pieces_ok m ps \<longrightarrow> lk_in c w \<noteq> frames m ps @ rest)"
    then obtain ps rest where ps: "map fst ps = i # is" "pieces_ok m ps" "lk_in c w = frames m ps @ rest"
      unfolding not_all not_imp not_not by (elim exE conjE)
    obtain qs where "map fst qs = is" "pieces_ok m qs" "lk_in c w1 = frames m qs @ rest"
      using frames_live_step [OF took ps] by (elim exE conjE)
    then show ok
      using R ready that by metis
  qed
  moreover have "only_touches P CP (tr_fs t) (tr_fs t2)"
    using touch R only_touches_trans by blast
  ultimately show ?thesis
    using R out by (simp add: loop_outcome_def)
qed

lemma receive_chunks_loop_outcome:
  assumes safe: "link_safe c" and con: "manifest_consistent m"
    and sep: "P \<noteq> CP" "P \<noteq> CP @ ''.tmp''"
  shows "receiving P v t \<Longrightarrow>
    \<exists>ok t' w'. receive_chunks_loop (lk_api c) (lk_sock c) CP m is t w = Some (ok, t', w') \<and>
      loop_outcome c m P CP is v t w ok t' w'"
proof (induction "is" arbitrary: v t w)
  case Nil
  then show ?case using loop_outcome_Nil by fastforce
next
  case (Cons i "is")
  obtain ok1 t1 w1 where one:
    "receive_one_chunk (lk_api c) (lk_sock c) CP m i t w = Some (ok1, t1, w1)"
    "lk_out c w1 = lk_out c w" "only_touches P CP (tr_fs t) (tr_fs t1)" "tr_exists P t1"
    "ok1 \<longrightarrow> (\<exists>d. took_chunk c m P CP i d v t w t1 w1)"
    "tr_ready m P CP t \<longrightarrow> (if ok1 then tr_ready m P CP t1 else t1 = t)"
    "tr_ready m P CP t \<and> link_live c \<longrightarrow> ok1 \<or>
       (\<forall>d rest. in_range m i d \<longrightarrow> lk_in c w \<noteq> chunk_frame m i d @ rest)"
    using receive_one_chunk_result [OF safe con Cons.prems sep, of i w] by blast
  show ?case
  proof (cases ok1)
    case False
    then have "loop_outcome c m P CP (i # is) v t w False t1 w1"
      using one by (intro loop_outcome_stop [OF Cons.prems]) simp_all
    then show ?thesis
      using one(1) False by auto
  next
    case True
    then obtain d where took: "took_chunk c m P CP i d v t w t1 w1"
      using one(5) by blast
    then have "receiving P (overwrite (span_start m (unat i)) d v) t1"
      by (simp add: took_chunk_def)
    then obtain ok t2 w2 where "receive_chunks_loop (lk_api c) (lk_sock c) CP m is t1 w1 =
        Some (ok, t2, w2)"
      "loop_outcome c m P CP is (overwrite (span_start m (unat i)) d v) t1 w1 ok t2 w2"
      using Cons.IH [of _ t1 w1] by blast
    then show ?thesis
      using loop_outcome_Cons [OF took one(2,3)] one(1,6) True by auto
  qed
qed

end
