(* ===== verification/Reassembly.thy ===== *)
theory Reassembly
  imports Files Chunk_Plan
begin

text \<open>
  When a file that is being received agrees with the file that is being sent. The spans of
  different chunks are disjoint, so writing one chunk keeps all the others, and a file that
  agrees on every chunk is the file itself.
\<close>

definition has_chunk :: "FileManifest \<Rightarrow> bytes \<Rightarrow> bytes \<Rightarrow> u64 \<Rightarrow> bool" where
  "has_chunk m data v i \<longleftrightarrow>
     slice (span_start m (unat i)) (span_len m (unat i)) v = chunk_bytes m data (unat i)"

definition partial_file :: "FileManifest \<Rightarrow> bytes \<Rightarrow> u64 set \<Rightarrow> bytes \<Rightarrow> bool" where
  "partial_file m data A v \<longleftrightarrow>
     length v \<le> fsz m \<and> (\<forall>i \<in> A. unat i < cnt m \<and> has_chunk m data v i)"

lemma spans_disjoint:
  assumes "i \<noteq> j"
  shows "span_start m j + span_len m j \<le> span_start m i \<or>
    span_start m i + span_len m i \<le> span_start m j"
proof -
  have le: "span_start m a + span_len m a \<le> span_start m b" if "a < b" for a b
  proof -
    have "span_start m a + span_len m a \<le> a * csz m + csz m"
      by (simp add: span_start_def span_len_def)
    also have "\<dots> = Suc a * csz m"
      by simp
    also have "\<dots> \<le> b * csz m"
      using that by (intro mult_le_mono1) simp
    finally show ?thesis
      by (simp add: span_start_def)
  qed
  from assms consider "j < i" | "i < j" by linarith
  then show ?thesis
    using le by cases blast+
qed

lemma partial_file_empty: "partial_file m data {} []"
  by (simp add: partial_file_def)

lemma partial_file_write:
  assumes con: "manifest_consistent m" and len: "length data = fsz m"
    and v: "partial_file m data A v" and i: "unat i < cnt m"
  shows "partial_file m data (insert i A)
    (overwrite (span_start m (unat i)) (chunk_bytes m data (unat i)) v)"
proof -
  let ?d = "chunk_bytes m data (unat i)"
  let ?v = "overwrite (span_start m (unat i)) ?d v"
  have ld: "length (chunk_bytes m data k) = span_len m k" for k
    using len by (rule length_chunk_bytes)
  have "length ?v \<le> fsz m"
    using v span_len_bounds(3) [OF con i] by (simp add: length_overwrite ld partial_file_def)
  moreover have "has_chunk m data ?v i"
    using slice_overwrite_same [of "span_start m (unat i)" ?d v] by (simp add: has_chunk_def ld)
  moreover have "has_chunk m data ?v j" if "j \<in> A" "j \<noteq> i" for j
  proof -
    have h: "slice (span_start m (unat j)) (span_len m (unat j)) v = chunk_bytes m data (unat j)"
      using v that(1) by (simp add: partial_file_def has_chunk_def)
    have "unat i \<noteq> unat j"
      using that(2) by (simp add: word_unat_eq_iff)
    then have "span_start m (unat j) + span_len m (unat j) \<le> span_start m (unat i) \<or>
        span_start m (unat i) + length ?d \<le> span_start m (unat j)"
      unfolding ld by (rule spans_disjoint)
    then show ?thesis
      unfolding has_chunk_def h [symmetric] by (intro slice_overwrite_other) (simp add: h ld)
  qed
  ultimately show ?thesis
    using v i by (auto simp: partial_file_def)
qed

lemma partial_file_mono: "partial_file m data A v \<Longrightarrow> B \<subseteq> A \<Longrightarrow> partial_file m data B v"
  by (auto simp: partial_file_def)

lemma partial_file_complete:
  assumes con: "manifest_consistent m" and small: "fsz m + csz m - 1 < 2 ^ 64"
    and len: "length data = fsz m" and v: "partial_file m data {i. i < fm_chunk_count m} v"
  shows "v = data"
proof -
  have chunk: "chunk_bytes m v k = chunk_bytes m data k" if "k < cnt m" for k
  proof -
    have "k < 2 ^ 64"
      using that unat_bound [of "fm_chunk_count m"] by (simp add: cnt_def)
    then have k: "unat (of_nat k :: u64) = k"
      by (simp add: unat_of_nat)
    then have "(of_nat k :: u64) < fm_chunk_count m"
      using that by (simp add: word_less_nat_alt cnt_def)
    then have "has_chunk m data v (of_nat k)"
      using v by (simp add: partial_file_def)
    then show ?thesis
      using k by (simp add: has_chunk_def slice_def chunk_bytes_def)
  qed
  have "length v = fsz m"
  proof (cases "cnt m")
    case 0
    then have "fsz m = 0"
      using less_cnt_iff [OF con, of 0] small by simp
    then show ?thesis
      using v by (simp add: partial_file_def)
  next
    case (Suc k)
    then have k: "k < cnt m"
      by simp
    have "length (chunk_bytes m v k) = span_len m k"
      using chunk [OF k] length_chunk_bytes [OF len] by simp
    then have "span_len m k \<le> length v - span_start m k"
      by (simp add: chunk_bytes_def)
    moreover have "span_len m k = fsz m - span_start m k"
      using span_len_cases [OF con k] Suc by (simp add: span_start_def)
    ultimately have "fsz m \<le> length v"
      using span_start_less [OF con k] by linarith
    then show ?thesis
      using v by (simp add: partial_file_def)
  qed
  then have "v = concat (map (chunk_bytes m v) [0..<cnt m])"
    using chunks_tile [OF con small] by simp
  also have "\<dots> = concat (map (chunk_bytes m data) [0..<cnt m])"
    using chunk by (intro arg_cong [of _ _ concat] map_cong) auto
  also have "\<dots> = data"
    by (rule chunks_tile [OF con small len])
  finally show ?thesis .
qed

end
