(* ===== verification/Receiver_Session.thy ===== *)
theory Receiver_Session
  imports Receiver_Spec Reassembly
begin

text \<open>
  The receiver from the first message to its exit code: which files a run can touch whatever
  the peer sends, what a run against an honest sender leaves behind when the connection breaks
  at any point, and that an undisturbed run completes the file.
\<close>

subsection \<open>Chunks of the sender's file\<close>

definition honest :: "FileManifest \<Rightarrow> bytes \<Rightarrow> u64 list \<Rightarrow> pieces" where
  "honest m data is = map (\<lambda>i. (i, chunk_bytes m data (unat i))) is"

lemma honest_simps [simp]:
  "map fst (honest m data is) = is" "take n (honest m data is) = honest m data (take n is)"
  "honest m data [] = []"
  "honest m data (i # is) = (i, chunk_bytes m data (unat i)) # honest m data is"
  by (simp_all add: honest_def take_map comp_def)

lemma chunk_stream_frames: "chunk_stream m data is = frames m (honest m data is)"
  by (induction "is") (simp_all add: chunk_frame_def)

lemma honest_ok:
  "length data = fsz m \<Longrightarrow> \<forall>i \<in> set is. unat i < cnt m \<Longrightarrow> pieces_ok m (honest m data is)"
  by (induction "is") (simp_all add: in_range_def length_chunk_bytes)

lemma write_honest:
  assumes "manifest_consistent m" and "length data = fsz m"
  shows "partial_file m data A v \<Longrightarrow> \<forall>i \<in> set is. unat i < cnt m \<Longrightarrow>
    partial_file m data (A \<union> set is) (write_chunks m (honest m data is) v)"
proof (induction "is" arbitrary: A v)
  case Nil
  then show ?case by simp
next
  case (Cons i "is")
  then have "partial_file m data (insert i A)
      (overwrite (span_start m (unat i)) (chunk_bytes m data (unat i)) v)"
    using partial_file_write [OF assms, of A v i] by simp
  then show ?case
    using Cons.IH [of "insert i A"] Cons.prems(2) by simp
qed

lemma frames_append: "frames m (ps @ qs) = frames m ps @ frames m qs"
  by (simp add: frames_def)

lemma frames_honest:
  assumes "length data = fsz m" and "\<forall>i \<in> set is. unat i < cnt m"
    and "map fst ps = take n is" and "pieces_ok m ps"
    and "frames m ps @ x = chunk_stream m data is @ y"
  shows "ps = honest m data (take n is)"
proof -
  let ?h = "honest m data is"
  have "frames m ?h = frames m (take n ?h) @ frames m (drop n ?h)"
    by (metis append_take_drop_id frames_append)
  then have "frames m ps @ x = frames m (take n ?h) @ (frames m (drop n ?h) @ y)"
    using assms(5) by (simp add: chunk_stream_frames)
  moreover have "pieces_ok m (take n ?h)"
    using honest_ok [OF assms(1), of "take n is"] assms(2) by (auto dest: in_set_takeD)
  moreover have "map fst ps = map fst (take n ?h)"
    using assms(3) by simp
  ultimately show ?thesis
    using frames_unique [of ps "take n ?h" m] assms(4) by simp
qed

subsection \<open>\<open>receive_file_chunks\<close>\<close>

definition storage_ready ::
    "FileManifest \<Rightarrow> string \<Rightarrow> string \<Rightarrow> TransferCheckpoint \<Rightarrow> bool \<Rightarrow> fs \<Rightarrow> bool" where
  "storage_ready m P CP cp fresh fs \<longleftrightarrow>
     fs_may_read fs P \<and> fs_may_write fs P \<and> ample m P CP cp fs \<and>
     cp_completed_chunks cp \<subseteq> {i. i < fm_chunk_count m} \<and> (\<not> fresh \<longrightarrow> fs_files fs P \<noteq> None)"

definition starting_content :: "string \<Rightarrow> bool \<Rightarrow> fs \<Rightarrow> bytes" where
  "starting_content P fresh fs =
     (if fresh then [] else case fs_files fs P of None \<Rightarrow> [] | Some c \<Rightarrow> c)"

definition start_transfer :: "string \<Rightarrow> TransferCheckpoint \<Rightarrow> ProgressTracker \<Rightarrow> fs \<Rightarrow> transfer" where
  "start_transfer P cp p fs =
     \<lparr>tr_output = fstream_open P fs, tr_checkpoint = cp, tr_progress = p, tr_fs = fs\<rparr>"

text \<open>The two ways into the function: the output file cannot be prepared, or the loop starts.\<close>

lemma receive_file_chunks_start:
  obtains (stop) fs' where
      "receive_file_chunks api s P CP m is cp p fresh fs w = Some (False, cp, p, fs', w)"
      "only_touches P CP fs fs'" "\<not> storage_ready m P CP cp fresh fs"
  | (run) fs1 where
      "receive_file_chunks api s P CP m is cp p fresh fs w =
        do { (ok, t, w) \<leftarrow> receive_chunks_loop api s CP m is (start_transfer P cp p fs1) w;
             Some (ok, tr_checkpoint t, tr_progress t, fstream_close (tr_output t) (tr_fs t), w) }"
      "only_touches P CP fs fs1" "\<And>q. q \<noteq> P \<Longrightarrow> fs_files fs1 q = fs_files fs q"
      "receiving P (starting_content P fresh fs) (start_transfer P cp p fs1)"
      "storage_ready m P CP cp fresh fs \<Longrightarrow> tr_ready m P CP (start_transfer P cp p fs1)"
proof -
  obtain prepared fs1 where prep: "prepare_output_file P fresh fs = (prepared, fs1)"
    by (cases "prepare_output_file P fresh fs")
  have fs1: "fs1 = (if fresh \<and> fs_may_write fs P then fs_put P (Some []) fs else fs)"
    "prepared = (if fresh then fs_may_write fs P else can_open P fs)"
    using prep by (auto simp: prepare_output_file_def ofstream_create_eq file_exists_iff split: if_splits)
  have touch: "only_touches P CP fs fs1" "q \<noteq> P \<Longrightarrow> fs_files fs1 q = fs_files fs q" for q
    by (auto simp: fs1 only_touches_def fs_simps)
  show thesis
  proof (cases "prepared \<and> \<not> fo_fail (fstream_open P fs1)")
    case False
    then have "\<not> storage_ready m P CP cp fresh fs"
      by (auto simp: fs1 storage_ready_def can_open_def fstream_open_def fs_simps split: if_splits)
    moreover have "receive_file_chunks api s P CP m is cp p fresh fs w = Some (False, cp, p, fs1, w)"
      using False by (auto simp: receive_file_chunks_def prep)
    ultimately show thesis
      using touch by (intro stop)
  next
    case True
    then have rec: "receiving P (starting_content P fresh fs) (start_transfer P cp p fs1)"
      by (auto simp: receiving_def start_transfer_def stream_view_def fstream_open_def fs1
          starting_content_def can_open_def fs_simps split: option.splits if_splits)
    have "tr_ready m P CP (start_transfer P cp p fs1)" if "storage_ready m P CP cp fresh fs"
      using that ample_env [of fs fs1] touch(1)
      by (simp add: tr_ready_def storage_ready_def start_transfer_def tr_fits_def stream_fits_def
          fstream_open_def only_touches_def)
    then show thesis
      using True touch rec by (intro run [of fs1]) (auto simp: receive_file_chunks_def prep start_transfer_def)
  qed
qed

lemma close_transfer:
  assumes "tr_exists P t"
  shows "only_touches P CP (tr_fs t) (fstream_close (tr_output t) (tr_fs t))"
    and "q \<noteq> P \<Longrightarrow> fs_files (fstream_close (tr_output t) (tr_fs t)) q = fs_files (tr_fs t) q"
    and "fs_files (fstream_close (tr_output t) (tr_fs t)) P \<noteq> None"
    and "tr_fits t \<Longrightarrow> receiving P v t \<Longrightarrow>
      fs_files (fstream_close (tr_output t) (tr_fs t)) P = Some v"
proof -
  obtain c where c: "fs_files (tr_fs t) (fo_path (tr_output t)) = Some c" "fo_path (tr_output t) = P"
    using assms by (auto simp: tr_exists_def)
  note cl = close_result [OF c(1), unfolded c(2)]
  show "only_touches P CP (tr_fs t) (fstream_close (tr_output t) (tr_fs t))"
    using cl(1,2) by (simp add: only_touches_def)
  show "q \<noteq> P \<Longrightarrow> fs_files (fstream_close (tr_output t) (tr_fs t)) q = fs_files (tr_fs t) q"
    by (rule cl(2))
  show "fs_files (fstream_close (tr_output t) (tr_fs t)) P \<noteq> None"
    using cl(3) by auto
  show "tr_fits t \<Longrightarrow> receiving P v t \<Longrightarrow> fs_files (fstream_close (tr_output t) (tr_fs t)) P = Some v"
    using cl(4) by (simp add: tr_fits_def receiving_def)
qed

text \<open>Whatever the peer sends and whatever the storage does.\<close>

lemma receive_file_chunks_any:
  assumes safe: "link_safe c" and con: "manifest_consistent m"
    and sep: "P \<noteq> CP" "P \<noteq> CP @ ''.tmp''"
  shows "\<exists>ok cp' p' fs' w'. receive_file_chunks (lk_api c) (lk_sock c) P CP m is cp p fresh fs w =
      Some (ok, cp', p', fs', w') \<and> lk_out c w' = lk_out c w \<and> only_touches P CP fs fs' \<and>
    (ok \<longrightarrow> (\<exists>ps. map fst ps = is \<and> pieces_ok m ps \<and> lk_in c w = frames m ps @ lk_in c w'))"
proof (rule receive_file_chunks_start [of "lk_api c" "lk_sock c" P CP m "is" cp p fresh fs w], goal_cases)
  case (1 fs')
  then show ?case by auto
next
  case (2 fs1)
  obtain ok t w' where loop: "receive_chunks_loop (lk_api c) (lk_sock c) CP m is
      (start_transfer P cp p fs1) w = Some (ok, t, w')"
    "loop_outcome c m P CP is (starting_content P fresh fs) (start_transfer P cp p fs1) w ok t w'"
    using receive_chunks_loop_outcome [OF safe con sep 2(4)] by blast
  have "only_touches P CP fs1 (tr_fs t)" "tr_exists P t" "lk_out c w' = lk_out c w"
    using loop(2) by (simp_all add: loop_outcome_def start_transfer_def)
  moreover from this have "only_touches P CP fs (fstream_close (tr_output t) (tr_fs t))"
    using close_transfer(1) [of P t CP] 2(2) only_touches_trans by blast
  moreover have "ok \<longrightarrow> (\<exists>ps. map fst ps = is \<and> pieces_ok m ps \<and> lk_in c w = frames m ps @ lk_in c w')"
    using loop(2) unfolding loop_outcome_def took_chunks_def by blast
  ultimately show ?case
    using 2(1) loop(1) by simp
qed

text \<open>
  With storage that does not get in the way: however the connection ends, the file and the
  checkpoint on disk agree on a prefix of the requested chunks.
\<close>

definition stored_pieces ::
    "FileManifest \<Rightarrow> string \<Rightarrow> string \<Rightarrow> TransferCheckpoint \<Rightarrow> bytes \<Rightarrow> pieces \<Rightarrow> fs \<Rightarrow> fs \<Rightarrow> bool" where
  "stored_pieces m P CP cp v ps fs fs' \<longleftrightarrow>
     pieces_ok m ps \<and> fs_files fs' P = Some (write_chunks m ps v) \<and>
     (if ps = [] then fs_files fs' CP = fs_files fs CP
      else holds_checkpoint fs' CP (completed_with cp (fst ` set ps)))"

lemma took_chunks_stored:
  assumes t: "t = start_transfer P cp p fs1" and sep: "P \<noteq> CP"
    and took: "took_chunks c m P CP ps v t w t' w'" and ready: "tr_ready m P CP t'"
    and touch: "only_touches P CP fs1 (tr_fs t')" "tr_exists P t'"
    and CP: "fs_files fs1 CP = fs_files fs CP"
  shows "stored_pieces m P CP cp v ps fs (fstream_close (tr_output t') (tr_fs t'))"
proof -
  let ?fs' = "fstream_close (tr_output t') (tr_fs t')"
  have cp: "tr_checkpoint t' = completed_with cp (fst ` set ps)" and rec: "receiving P (write_chunks m ps v) t'"
    and ok: "pieces_ok m ps"
    using took by (simp_all add: took_chunks_def t start_transfer_def)
  have fit: "tr_fits t'"
    using ready by (simp add: tr_ready_def)
  note cl = close_transfer [OF touch(2)]
  have P: "fs_files ?fs' P = Some (write_chunks m ps v)"
    by (rule cl(4) [OF fit rec])
  have CP': "fs_files ?fs' CP = fs_files (tr_fs t') CP"
    using cl(2) [of CP] sep by simp
  show ?thesis
  proof (cases "ps = []")
    case True
    then have "tr_fs t' = fs1"
      using took by (simp add: took_chunks_def t start_transfer_def)
    then show ?thesis
      using True ok P CP' CP by (simp add: stored_pieces_def)
  next
    case False
    have env: "fs_env fs1 (tr_fs t')" "fs_env (tr_fs t') ?fs'"
      using touch(1) cl(1) [of CP] by (simp_all add: only_touches_def)
    have "checkpoint_storable (tr_fs t') CP (tr_checkpoint t')"
      using ready unfolding tr_ready_def ample_def
      by (metis TransferCheckpoint.surjective TransferCheckpoint.update_convs(5))
    then have st: "fs_may_read (tr_fs t') CP" "fs_bad (tr_fs t') CP = None"
      "length (checkpoint_text (tr_checkpoint t')) \<le> fs_room fs1 (CP @ ''.tmp'')"
      using fs_env_fields(5) [OF env(1)] by (simp_all add: checkpoint_storable_def)
    have "fs_files (tr_fs t') CP = Some (bytes_of_string (checkpoint_text (tr_checkpoint t')))"
      using took False st(3) by (simp add: took_chunks_def t start_transfer_def)
    then have "holds_checkpoint ?fs' CP (tr_checkpoint t')"
      using CP' st env(2) by (simp add: holds_checkpoint_def fs_env_fields)
    then show ?thesis
      using False ok P cp by (simp add: stored_pieces_def)
  qed
qed

lemma receive_file_chunks_ready:
  assumes safe: "link_safe c" and con: "manifest_consistent m"
    and sep: "P \<noteq> CP" "P \<noteq> CP @ ''.tmp''" and ready: "storage_ready m P CP cp fresh fs"
  shows "\<exists>ok cp' p' fs' w' n ps x.
    receive_file_chunks (lk_api c) (lk_sock c) P CP m is cp p fresh fs w =
      Some (ok, cp', p', fs', w') \<and> map fst ps = take n is \<and> lk_in c w = frames m ps @ x \<and>
    stored_pieces m P CP cp (starting_content P fresh fs) ps fs fs' \<and>
    (ok \<longrightarrow> map fst ps = is \<and> x = lk_in c w') \<and>
    (link_live c \<longrightarrow> ok \<or>
       (\<forall>ps rest. map fst ps = is \<longrightarrow> pieces_ok m ps \<longrightarrow> lk_in c w \<noteq> frames m ps @ rest))"
proof (rule receive_file_chunks_start [of "lk_api c" "lk_sock c" P CP m "is" cp p fresh fs w], goal_cases)
  case (1 fs')
  then show ?case using ready by simp
next
  case (2 fs1)
  let ?t = "start_transfer P cp p fs1" and ?v = "starting_content P fresh fs"
  obtain ok t w' where loop:
    "receive_chunks_loop (lk_api c) (lk_sock c) CP m is ?t w = Some (ok, t, w')"
    "loop_outcome c m P CP is ?v ?t w ok t w'"
    using receive_chunks_loop_outcome [OF safe con sep 2(4)] by blast
  note L = loop(2) [unfolded loop_outcome_def]
  have tready: "tr_ready m P CP ?t"
    using 2(5) ready by simp
  obtain n ps w1 where took: "map fst ps = take n is" "took_chunks c m P CP ps ?v ?t w t w1"
    and full: "ok \<longrightarrow> map fst ps = is \<and> w1 = w'"
  proof (cases ok)
    case True
    then obtain ps where "map fst ps = is" "took_chunks c m P CP ps ?v ?t w t w'"
      using L by blast
    then show thesis
      using that [of ps "length is" w'] by simp
  next
    case False
    then show thesis
      using that L tready by blast
  qed
  have "only_touches P CP fs1 (tr_fs t)" "tr_exists P t" "tr_ready m P CP t"
    using L tready by (simp_all add: start_transfer_def)
  then have "stored_pieces m P CP cp ?v ps fs (fstream_close (tr_output t) (tr_fs t))"
    using 2(3) [of CP] sep(1) by (intro took_chunks_stored [OF refl sep(1) took(2)]) auto
  moreover have "lk_in c w = frames m ps @ lk_in c w1"
    using took(2) by (simp add: took_chunks_def)
  moreover have "link_live c \<longrightarrow> ok \<or>
      (\<forall>ps rest. map fst ps = is \<longrightarrow> pieces_ok m ps \<longrightarrow> lk_in c w \<noteq> frames m ps @ rest)"
    using L tready by simp
  ultimately show ?case
    using 2(1) loop(1) took(1) full
    by (intro exI [of _ ok] exI [of _ "tr_checkpoint t"] exI [of _ "tr_progress t"]
        exI [of _ "fstream_close (tr_output t) (tr_fs t)"] exI [of _ w'] exI [of _ n]
        exI [of _ ps] exI [of _ "lk_in c w1"]) simp
qed

subsection \<open>The checkpoint a run starts from\<close>

lemma paths_apart:
  "P \<noteq> checkpoint_path_for_output P" "P \<noteq> checkpoint_path_for_output P @ ''.tmp''"
  by (auto simp: checkpoint_path_for_output_def dest: arg_cong [of _ _ length])

definition same_transfer :: "FileManifest \<Rightarrow> TransferCheckpoint \<Rightarrow> bool" where
  "same_transfer m cp \<longleftrightarrow>
     cp_original_filename cp = fm_filename m \<and> cp_file_size cp = fm_file_size m \<and>
     cp_chunk_size cp = fm_chunk_size m \<and> cp_total_chunks cp = fm_chunk_count m"

lemma same_transfer_eq:
  "same_transfer m cp \<Longrightarrow>
     cp\<lparr>cp_completed_chunks := A\<rparr> = (create_checkpoint_from_manifest m)\<lparr>cp_completed_chunks := A\<rparr>"
  by (cases cp) (simp add: same_transfer_def create_checkpoint_from_manifest_def
      TransferCheckpoint_init_def)

lemma same_transfer_completed [simp]: "same_transfer m (completed_with cp A) = same_transfer m cp"
  by (simp add: same_transfer_def completed_with_def)

lemma ample_same_transfer:
  "same_transfer m cp \<Longrightarrow> ample m P CP cp fs = ample m P CP (create_checkpoint_from_manifest m) fs"
  by (simp add: ample_def same_transfer_eq)

lemma initial_checkpoint_props:
  assumes "initial_checkpoint P m fs = (loaded, cp)"
  shows "same_transfer m cp" and "cp_completed_chunks cp \<subseteq> {i. i < fm_chunk_count m}"
    and "loaded \<Longrightarrow> fs_files fs P \<noteq> None" and "\<not> loaded \<Longrightarrow> cp_completed_chunks cp = {}"
  using assms
  by (auto simp: initial_checkpoint_def Let_def same_transfer_def checkpoint_matches_manifest_iff
      create_checkpoint_from_manifest_def TransferCheckpoint_init_def file_exists_iff can_open_def
      split: if_splits prod.splits)

definition request_for :: "FileManifest \<Rightarrow> TransferCheckpoint \<Rightarrow> ContinueRequest" where
  "request_for m cp =
     \<lparr>cr_session_id = fm_session_id m, cr_total_chunks = fm_chunk_count m,
      cr_missing_chunk_indexes = missing_chunks cp\<rparr>"

lemma missing_in_range:
  "same_transfer m cp \<Longrightarrow> i \<in> set (missing_chunks cp) \<Longrightarrow> unat i < cnt m"
  by (simp add: set_missing_chunks same_transfer_def cnt_def word_less_nat_alt)

lemma request_for_valid: "same_transfer m cp \<Longrightarrow> validate_continue_request m (request_for m cp)"
  by (auto simp: validate_continue_request_iff request_for_def sorted_missing_chunks
      set_missing_chunks same_transfer_def)

lemma request_for_wf: "same_transfer m cp \<Longrightarrow> cnt m \<le> 1000000 \<Longrightarrow> continue_wf (request_for m cp)"
  using length_missing_chunks [of cp]
  by (simp add: continue_wf_def request_for_def same_transfer_def cnt_def)

lemma sends_request:
  assumes "link_safe c" and "same_transfer m cp" and "cnt m < 2 ^ 59"
  shows "\<exists>ok w'. send_continue_request (lk_api c) (lk_sock c) (request_for m cp) w = Some (ok, w') \<and>
    sends c (serialize_continue_request (request_for m cp)) w ok w'"
proof -
  have "length (missing_chunks cp) < 2 ^ 59"
    using length_missing_chunks [of cp] assms(2,3) by (simp add: same_transfer_def cnt_def)
  then have "length (serialize_continue_request (request_for m cp)) < 2 ^ 63"
    by (simp add: length_serialize_continue_request request_for_def)
  then show ?thesis
    unfolding send_continue_request_def by (rule sends_all [OF assms(1)])
qed

subsection \<open>Verification\<close>

definition verified :: "'w link \<Rightarrow> FileManifest \<Rightarrow> string \<Rightarrow> fs \<Rightarrow> 'w \<Rightarrow> 'w \<Rightarrow> bool" where
  "verified c m P fs w w' \<longleftrightarrow>
     (\<exists>v. fs_files fs P = Some v \<and>
        lk_in c w = serialize_hash_packet
          \<lparr>hp_session_id = fm_session_id m, hp_sha256_hex = sha256_reference v\<rparr> @ lk_in c w')"

lemma verify_received_result:
  assumes safe: "link_safe c" and sep: "P \<noteq> CP"
  shows "\<exists>code fs' w'. verify_received (lk_api c) (lk_sock c) m P CP fs w = Some (code, fs', w') \<and>
    lk_out c w' = lk_out c w \<and> only_touches P CP fs fs' \<and> fs_files fs' P = fs_files fs P \<and>
    (code = 0 \<and> verified c m P fs w w' \<and> fs' = snd (remove_checkpoint CP fs) \<or> code = 1 \<and> fs' = fs)"
proof -
  obtain ok h w1 where hp:
    "receive_hash_packet (lk_api c) (lk_sock c) HashPacket_init w = Some (ok, h, w1)"
    using receive_hash_packet_returns [OF safe] by blast
  have out: "lk_out c w1 = lk_out c w"
    using receive_hash_packet_out [OF safe hp] .
  obtain r where sha: "sha256_file P fs = Some r"
    by (simp add: sha256_file_eq)
  show ?thesis
  proof (cases "ok \<and> hp_session_id h = fm_session_id m \<and> r = Inr (hp_sha256_hex h)")
    case True
    obtain rok fs' where rm: "remove_checkpoint CP fs = (rok, fs')"
      by (cases "remove_checkpoint CP fs")
    have run: "verify_received (lk_api c) (lk_sock c) m P CP fs w = Some (0, fs', w1)"
      using True hp sha rm by (simp add: verify_received_def)
    obtain v where v: "fs_files fs P = Some v" "hp_sha256_hex h = sha256_reference v"
      using sha True by (auto simp: sha256_file_eq split: option.splits if_splits)
    have "h = \<lparr>hp_session_id = fm_session_id m, hp_sha256_hex = sha256_reference v\<rparr>"
      using True v(2) by (cases h) simp
    then have "verified c m P fs w w1"
      using receive_hash_packet_True [OF safe, of _ w h w1] hp True v(1) by (auto simp: verified_def)
    moreover have "only_touches P CP fs fs'" "fs_files fs' P = fs_files fs P"
      using remove_checkpoint_result [OF rm] sep by (simp_all add: only_touches_def)
    ultimately show ?thesis
      using run out rm by simp
  next
    case False
    then have "verify_received (lk_api c) (lk_sock c) m P CP fs w = Some (1, fs, w1)"
      using hp sha by (cases r) (auto simp: verify_received_def)
    then show ?thesis
      using out by simp
  qed
qed

end
