(* ===== verification/Sender.thy ===== *)
theory Sender
  imports Messages Files Progress_Tracker
begin

text \<open>
  \<open>apps/sender.cpp\<close>. \<open>args\<close> are the command-line arguments after the program name. The
  function \<open>sender_session\<close> is the part of \<open>main\<close> after the connection has been made; it is
  named so that the destructor of the socket, which closes it on every return, can be written
  once. A result is the exit code, or the status of a process that \<open>SIGPIPE\<close> has ended.
\<close>

fun send_chunks_loop ::
    "'w sock_api \<Rightarrow> socket_t \<Rightarrow> fs \<Rightarrow> FileManifest \<Rightarrow> ifstream \<Rightarrow> u64 list \<Rightarrow> ProgressTracker \<Rightarrow>
     'w \<Rightarrow> (bool \<times> ProgressTracker \<times> 'w) option" where
  "send_chunks_loop api s fs manifest input [] progress w = Some (True, progress, w)"
| "send_chunks_loop api s fs manifest input (chunk_index # rest) progress w =
     (let byte_offset = chunk_index * ucast (fm_chunk_size manifest);
          payload_size = payload_size_for_chunk manifest chunk_index;
          input = istream_seekg byte_offset input
      in if \<not> istream_ok input then Some (False, progress, w)
         else
           let (data, input) = istream_read fs (unat payload_size) input
           in if length data \<noteq> unat payload_size then Some (False, progress, w)
              else do {
                let header = ChunkHeader_init
                      \<lparr>ch_session_id := fm_session_id manifest, ch_chunk_index := chunk_index,
                       ch_byte_offset := byte_offset, ch_payload_size := payload_size\<rparr>;
                (ok, w) \<leftarrow> send_chunk_header api s header w;
                if \<not> ok then Some (False, progress, w)
                else do {
                  (ok, w) \<leftarrow> send_all api s data w;
                  if \<not> ok then Some (False, progress, w)
                  else do {
                    let progress = add_progress (of_nat (length data)) 1 progress;
                    let (_, progress) = should_report (sys_clock api w) progress;
                    send_chunks_loop api s fs manifest input rest progress w
                  }
                }
              })"

definition send_file_chunks ::
    "'w sock_api \<Rightarrow> socket_t \<Rightarrow> string \<Rightarrow> FileManifest \<Rightarrow> u64 list \<Rightarrow> ProgressTracker \<Rightarrow> fs \<Rightarrow> 'w \<Rightarrow>
     (bool \<times> ProgressTracker \<times> 'w) option" where
  "send_file_chunks api s file_path manifest chunk_indexes progress fs w =
     (let input = ifstream_open file_path fs
      in if \<not> istream_ok input then Some (False, progress, w)
         else send_chunks_loop api s fs manifest input chunk_indexes progress w)"

definition sender_session ::
    "'w sock_api \<Rightarrow> socket_t \<Rightarrow> string \<Rightarrow> FileManifest \<Rightarrow> string \<Rightarrow> fs \<Rightarrow> 'w \<Rightarrow> (int \<times> 'w) option"
  where
  "sender_session api s file_path manifest expected_hash fs w =
     do {
       (ok, w) \<leftarrow> send_file_manifest api s manifest w;
       if \<not> ok then Some (exit_status api w 1, w)
       else do {
         (ok, request, w) \<leftarrow> receive_continue_request api s ContinueRequest_init w;
         if \<not> ok \<or> \<not> validate_continue_request manifest request then Some (1, w)
         else do {
           let bytes_to_send = bytes_for_chunks manifest (cr_missing_chunk_indexes request);
           let progress = ProgressTracker_new bytes_to_send
                 (of_nat (length (cr_missing_chunk_indexes request))) (sys_clock api w);
           (ok, progress, w) \<leftarrow>
             send_file_chunks api s file_path manifest (cr_missing_chunk_indexes request)
               progress fs w;
           if \<not> ok then Some (exit_status api w 1, w)
           else do {
             let hash_packet = HashPacket_init
                   \<lparr>hp_session_id := fm_session_id manifest, hp_sha256_hex := expected_hash\<rparr>;
             (ok, w) \<leftarrow> send_hash_packet api s hash_packet w;
             if \<not> ok then Some (exit_status api w 1, w) else Some (0, w)
           }
         }
       }
     }"

definition sender_manifest :: "string \<Rightarrow> u64 \<Rightarrow> FileManifest" where
  "sender_manifest file_path size_value =
     (let chunk_size = ucast kDefaultChunkSize :: u32
      in FileManifest_init
           \<lparr>fm_filename := sanitize_filename (basename_from_path file_path),
            fm_file_size := size_value,
            fm_chunk_size := chunk_size,
            fm_chunk_count := chunk_count size_value chunk_size,
            fm_protocol_version := kProtocolVersion,
            fm_session_id := 0\<rparr>)"

definition sender_main :: "'w sock_api \<Rightarrow> string list \<Rightarrow> fs \<Rightarrow> 'w \<Rightarrow> (int \<times> 'w) option" where
  "sender_main api args fs w =
     (case args of
        [receiver_ip, file_path] \<Rightarrow>
          (case file_size file_path fs of
             Inl e \<Rightarrow> Some (1, w)
           | Inr size_value \<Rightarrow> do {
               hash_result \<leftarrow> sha256_file file_path fs;
               case hash_result of
                 Inl e \<Rightarrow> Some (1, w)
               | Inr expected_hash \<Rightarrow>
                   let manifest = sender_manifest file_path size_value;
                       (ok, s, w) = connect_to api kInvalidSocket
                         \<lparr>ep_host = receiver_ip, ep_port = kDefaultTransferTcpPort\<rparr> w
                   in if \<not> ok then Some (1, snd (sock_close api s w))
                      else do {
                        (code, w) \<leftarrow> sender_session api s file_path manifest expected_hash fs w;
                        Some (code, snd (sock_close api s w))
                      }
             })
      | [arg] \<Rightarrow> Some (if is_help_arg arg then 0 else 1, w)
      | _ \<Rightarrow> Some (1, w))"

subsection \<open>What a sender puts on the wire\<close>

text \<open>
  The specification: the header and the bytes of each requested chunk in the order of the
  request, between the manifest and the packet with the digest.
\<close>

definition hash_packet_for :: "FileManifest \<Rightarrow> bytes \<Rightarrow> HashPacket" where
  "hash_packet_for m data = \<lparr>hp_session_id = fm_session_id m, hp_sha256_hex = sha256_reference data\<rparr>"

definition sender_stream :: "FileManifest \<Rightarrow> bytes \<Rightarrow> u64 list \<Rightarrow> bytes" where
  "sender_stream m data is =
     serialize_file_manifest m @ chunk_stream m data is @
     serialize_hash_packet (hash_packet_for m data)"

text \<open>The file the sender reads: readable in full, and described by the manifest.\<close>

definition source_file :: "fs \<Rightarrow> string \<Rightarrow> FileManifest \<Rightarrow> bytes \<Rightarrow> bool" where
  "source_file fs path m data \<longleftrightarrow>
     fs_files fs path = Some data \<and> fs_may_read fs path \<and> fs_bad fs path = None \<and>
     manifest_consistent m \<and> length data = fsz m \<and> fsz m < 2 ^ 63"

lemma seek_and_read:
  assumes src: "source_file fs path m data" and i: "unat i < cnt m"
    and st: "is_path input = path" "istream_ok input"
    and seek: "input1 = istream_seekg (i * ucast (fm_chunk_size m)) input"
  shows "istream_ok input1"
    and "\<exists>input2. istream_read fs (unat (payload_size_for_chunk m i)) input1 =
        (chunk_bytes m data (unat i), input2) \<and> is_path input2 = path \<and> istream_ok input2"
proof -
  have con: "manifest_consistent m" and len: "length data = fsz m" "fsz m < 2 ^ 63"
    and cont: "fs_files fs path = Some data" "fs_bad fs path = None"
    using src by (simp_all add: source_file_def)
  let ?off = "i * ucast (fm_chunk_size m)"
  have off: "unat ?off = span_start m (unat i)" and size: "unat (payload_size_for_chunk m i) = span_len m (unat i)"
    using unat_offset [OF con i] unat_payload_size [OF con i] .
  have "unat ?off < 2 ^ 63"
    using span_start_less [OF con i] len(2) unfolding off by simp
  then have nonneg: "\<not> sint ?off < 0"
    by (simp add: sint_offset)
  then have input1: "input1 = input\<lparr>is_eof := False, is_pos := span_start m (unat i)\<rparr>"
    using st(2) off by (simp add: seek istream_seekg_def istream_ok_def)
  then show ok: "istream_ok input1"
    using st(2) by (simp add: istream_ok_def)
  have content: "ifstream_content fs input1 = data" "\<not> unreadable fs (is_path input1) a b" for a b
    using input1 st(1) cont by (simp_all add: ifstream_content_def unreadable_def)
  have data: "take (span_len m (unat i)) (drop (is_pos input1) data) = chunk_bytes m data (unat i)"
    by (simp add: chunk_bytes_def input1)
  have eof: "\<not> is_eof input1"
    by (simp add: input1)
  have "istream_read fs (unat (payload_size_for_chunk m i)) input1 =
      (chunk_bytes m data (unat i), input1\<lparr>is_pos := is_pos input1 + span_len m (unat i)\<rparr>)"
    unfolding istream_read_def Let_def size content(1) data length_chunk_bytes [OF len(1)]
    using content(2) ok eof by simp
  then show "\<exists>input2. istream_read fs (unat (payload_size_for_chunk m i)) input1 =
        (chunk_bytes m data (unat i), input2) \<and> is_path input2 = path \<and> istream_ok input2"
    using ok st(1) input1 by (simp add: istream_ok_def)
qed

text \<open>
  The loop over a request, on a link that may fail at any point: it returns, it sends a prefix
  of the specified stream and the whole stream if it succeeds, and it succeeds on a live link.
\<close>

lemma chunk_header_for_eq:
  "ChunkHeader_init\<lparr>ch_session_id := fm_session_id m, ch_chunk_index := i,
     ch_byte_offset := i * ucast (fm_chunk_size m), ch_payload_size := payload_size_for_chunk m i\<rparr> =
   chunk_header_for m i"
  by (simp add: ChunkHeader_init_def chunk_header_for_def)

lemma send_chunks_loop_sends:
  assumes safe: "link_safe c" and src: "source_file fs path m data"
  shows "is_path input = path \<Longrightarrow> istream_ok input \<Longrightarrow> \<forall>i \<in> set is. unat i < cnt m \<Longrightarrow>
    \<exists>ok p' w'. send_chunks_loop (lk_api c) (lk_sock c) fs m input is p w = Some (ok, p', w') \<and>
      sends c (chunk_stream m data is) w ok w'"
proof (induction "is" arbitrary: input p w)
  case Nil
  show ?case using sends_refl by fastforce
next
  case (Cons i "is")
  define input1 where "input1 = istream_seekg (i * ucast (fm_chunk_size m)) input"
  have i: "unat i < cnt m"
    using Cons.prems(3) by simp
  note read = seek_and_read [OF src i Cons.prems(1,2) input1_def]
  obtain input2 where input2: "istream_read fs (unat (payload_size_for_chunk m i)) input1 =
      (chunk_bytes m data (unat i), input2)" "is_path input2 = path" "istream_ok input2"
    using read(2) by blast
  have con: "manifest_consistent m" and len: "length data = fsz m"
    using src by (simp_all add: source_file_def)
  have size: "length (chunk_bytes m data (unat i)) = unat (payload_size_for_chunk m i)"
    by (simp add: length_chunk_bytes [OF len] unat_payload_size [OF con i])
  have small: "length (chunk_bytes m data (unat i)) < 2 ^ 63"
    unfolding size using unat_bound [of "payload_size_for_chunk m i"] by simp
  let ?go = "\<lambda>w. let (_, p) = should_report (sys_clock (lk_api c) w)
      (add_progress (of_nat (length (chunk_bytes m data (unat i)))) 1 p)
    in send_chunks_loop (lk_api c) (lk_sock c) fs m input2 is p w"
  have step: "send_chunks_loop (lk_api c) (lk_sock c) fs m input (i # is) p w =
      do {
        (ok, w) \<leftarrow> send_chunk_header (lk_api c) (lk_sock c) (chunk_header_for m i) w;
        if \<not> ok then Some (False, p, w)
        else do {
          (ok, w) \<leftarrow> send_all (lk_api c) (lk_sock c) (chunk_bytes m data (unat i)) w;
          if \<not> ok then Some (False, p, w) else ?go w
        }
      }"
    using read(1) input2(1) size
    by (simp add: input1_def [symmetric] Let_def chunk_header_for_eq cong: if_cong)
  have go: "\<exists>ok p' w2. ?go w1 = Some (ok, p', w2) \<and> sends c (chunk_stream m data is) w1 ok w2" for w1
    using Cons.IH [OF input2(2,3)] Cons.prems(3) by (simp split: prod.split)
  have "\<exists>ok w1. send_chunk_header (lk_api c) (lk_sock c) (chunk_header_for m i) w = Some (ok, w1) \<and>
      sends c (serialize_chunk_header (chunk_header_for m i)) w ok w1"
    unfolding send_chunk_header_def
    by (rule sends_all [OF safe]) (simp add: chunk.length_enc)
  then show ?case
    unfolding step chunk_stream_simps
    by (rule sends_bind, intro sends_bind [OF sends_all [OF safe small]] go)
qed

lemma send_file_chunks_sends:
  assumes "link_safe c" and "source_file fs path m data" and "\<forall>i \<in> set is. unat i < cnt m"
  shows "\<exists>ok p' w'. send_file_chunks (lk_api c) (lk_sock c) path m is p fs w = Some (ok, p', w') \<and>
    sends c (chunk_stream m data is) w ok w'"
proof -
  have "istream_ok (ifstream_open path fs)"
    using assms(2) by (simp add: source_file_def istream_ok_def ifstream_open_def can_open_def)
  moreover have "is_path (ifstream_open path fs) = path"
    by (simp add: ifstream_open_def)
  ultimately show ?thesis
    using send_chunks_loop_sends [OF assms(1,2) _ _ assms(3)]
    by (simp add: send_file_chunks_def Let_def)
qed

lemma valid_indexes: "validate_continue_request m r \<Longrightarrow> i \<in> set (cr_missing_chunk_indexes r) \<Longrightarrow> unat i < cnt m"
  by (simp add: validate_continue_request_iff cnt_def word_less_nat_alt)

lemma hash_packet_for_eq:
  "HashPacket_init\<lparr>hp_session_id := fm_session_id m, hp_sha256_hex := sha256_reference data\<rparr> =
     hash_packet_for m data"
  by (simp add: HashPacket_init_def hash_packet_for_def)

lemma hash_packet_for_wf: "hash_wf (hash_packet_for m data)"
  by (simp add: hash_wf_def hash_packet_for_def sha256_reference_shape)

lemma sends_hash_packet:
  assumes "link_safe c"
  shows "\<exists>ok w'. send_hash_packet (lk_api c) (lk_sock c) (hash_packet_for m data) w = Some (ok, w') \<and>
    sends c (serialize_hash_packet (hash_packet_for m data)) w ok w'"
proof -
  have len: "length (serialize_hash_packet (hash_packet_for m data)) = 76"
    using hash_packet_for_wf by (rule hashp.length_enc)
  then have "serialize_hash_packet (hash_packet_for m data) \<noteq> []"
    by auto
  then show ?thesis
    using sends_all [OF assms, of "serialize_hash_packet (hash_packet_for m data)" w] len
    by (simp add: send_hash_packet_def Let_def)
qed

lemma sends_file_manifest:
  assumes "link_safe c" and "length (fm_filename m) \<le> 255"
  shows "\<exists>ok w'. send_file_manifest (lk_api c) (lk_sock c) m w = Some (ok, w') \<and>
    sends c (serialize_file_manifest m) w ok w'"
proof -
  have "serialize_file_manifest m \<noteq> []" "length (serialize_file_manifest m) < 2 ^ 63"
    using length_serialize_file_manifest [of m] length_manifest_frame [of m 0] assms(2)
    by (auto simp: serialize_file_manifest_eq)
  then show ?thesis
    using sends_all [OF assms(1), of "serialize_file_manifest m" w]
    by (simp add: send_file_manifest_def Let_def)
qed

text \<open>The part of a session after a valid request has arrived.\<close>

definition send_body ::
    "'w link \<Rightarrow> string \<Rightarrow> FileManifest \<Rightarrow> bytes \<Rightarrow> fs \<Rightarrow> ContinueRequest \<Rightarrow> 'w \<Rightarrow> (int \<times> 'w) option" where
  "send_body c path m data fs r w =
     do {
       (ok, p, w) \<leftarrow> send_file_chunks (lk_api c) (lk_sock c) path m (cr_missing_chunk_indexes r)
         (ProgressTracker_new (bytes_for_chunks m (cr_missing_chunk_indexes r))
           (of_nat (length (cr_missing_chunk_indexes r))) (sys_clock (lk_api c) w)) fs w;
       if \<not> ok then Some (exit_status (lk_api c) w 1, w)
       else do {
         (ok, w) \<leftarrow> send_hash_packet (lk_api c) (lk_sock c) (hash_packet_for m data) w;
         if \<not> ok then Some (exit_status (lk_api c) w 1, w) else Some (0, w)
       }
     }"

lemma send_body_sends:
  assumes "link_safe c" and "source_file fs path m data" and "validate_continue_request m r"
  shows "\<exists>ok w'. send_body c path m data fs r w =
      Some (if ok then 0 else exit_status (lk_api c) w' 1, w') \<and>
    sends c (chunk_stream m data (cr_missing_chunk_indexes r) @
             serialize_hash_packet (hash_packet_for m data)) w ok w'"
proof -
  obtain ok1 p1 w1 where chunks:
    "send_file_chunks (lk_api c) (lk_sock c) path m (cr_missing_chunk_indexes r)
      (ProgressTracker_new (bytes_for_chunks m (cr_missing_chunk_indexes r))
        (of_nat (length (cr_missing_chunk_indexes r))) (sys_clock (lk_api c) w)) fs w =
     Some (ok1, p1, w1)"
    "sends c (chunk_stream m data (cr_missing_chunk_indexes r)) w ok1 w1"
    using send_file_chunks_sends [OF assms(1,2)] valid_indexes [OF assms(3)] by blast
  obtain ok2 w2 where hash:
    "send_hash_packet (lk_api c) (lk_sock c) (hash_packet_for m data) w1 = Some (ok2, w2)"
    "sends c (serialize_hash_packet (hash_packet_for m data)) w1 ok2 w2"
    using sends_hash_packet [OF assms(1)] by blast
  show ?thesis
  proof (cases ok1)
    case True
    then show ?thesis
      using chunks hash sends_then by (fastforce simp: send_body_def)
  next
    case False
    then have "send_body c path m data fs r w =
        Some (if False then 0 else exit_status (lk_api c) w1 1, w1)"
      using chunks(1) by (simp add: send_body_def)
    moreover have "sends c (chunk_stream m data (cr_missing_chunk_indexes r) @
        serialize_hash_packet (hash_packet_for m data)) w False w1"
      using chunks(2) False by (simp add: sends_stop)
    ultimately show ?thesis
      by blast
  qed
qed

lemma sender_session_split:
  assumes "send_file_manifest (lk_api c) (lk_sock c) m w = Some (True, w1)"
    and "receive_continue_request (lk_api c) (lk_sock c) ContinueRequest_init w1 = Some (ok, r, w2)"
  shows "sender_session (lk_api c) (lk_sock c) path m (sha256_reference data) fs w =
    (if ok \<and> validate_continue_request m r then send_body c path m data fs r w2 else Some (1, w2))"
  unfolding sender_session_def send_body_def Let_def hash_packet_for_eq assms
  by (simp add: assms)

text \<open>
  Every session of the sender, whatever the peer does and wherever the connection breaks: it
  returns, and what went out is a prefix of the specified stream for the request that came
  in; exit code 0 means that all of it went out, any other end is exit code 1 or the signal.
\<close>

definition ends_with_failure :: "'w sock_api \<Rightarrow> int \<Rightarrow> 'w \<Rightarrow> bool" where
  "ends_with_failure api code w \<longleftrightarrow> code = 1 \<or> code = killed_by_sigpipe \<and> sys_killed api w"

lemma ends_with_failure_simps [simp]:
  "ends_with_failure api 1 w" "ends_with_failure api (exit_status api w 1) w"
  "\<not> ends_with_failure api 0 w"
  by (simp_all add: ends_with_failure_def exit_status_def killed_by_sigpipe_def)

definition session_outcome ::
    "'w link \<Rightarrow> FileManifest \<Rightarrow> bytes \<Rightarrow> 'w \<Rightarrow> int \<Rightarrow> 'w \<Rightarrow> bool" where
  "session_outcome c m data w code w' \<longleftrightarrow>
     (code = 0 \<or> ends_with_failure (lk_api c) code w') \<and>
     ((\<exists>k. lk_out c w' = lk_out c w @ take k (serialize_file_manifest m)) \<and> code \<noteq> 0 \<or>
      (\<exists>r k. continue_wf r \<and> validate_continue_request m r \<and>
         lk_in c w = serialize_continue_request r @ lk_in c w' \<and>
         lk_out c w' = lk_out c w @ take k (sender_stream m data (cr_missing_chunk_indexes r)) \<and>
         (code = 0 \<longrightarrow>
            lk_out c w' = lk_out c w @ sender_stream m data (cr_missing_chunk_indexes r))))"

lemma sender_session_outcome:
  assumes safe: "link_safe c" and src: "source_file fs path m data"
    and name: "length (fm_filename m) \<le> 255"
  shows "\<exists>code w'. sender_session (lk_api c) (lk_sock c) path m (sha256_reference data) fs w =
      Some (code, w') \<and> session_outcome c m data w code w'"
proof -
  obtain ok1 w1 where man: "send_file_manifest (lk_api c) (lk_sock c) m w = Some (ok1, w1)"
    "sends c (serialize_file_manifest m) w ok1 w1"
    using sends_file_manifest [OF safe name] by blast
  obtain ok2 r w2 where req:
    "receive_continue_request (lk_api c) (lk_sock c) ContinueRequest_init w1 = Some (ok2, r, w2)"
    "lk_out c w2 = lk_out c w1"
    using receive_continue_request_returns [OF safe] by blast
  show ?thesis
  proof (cases ok1)
    case False
    then have "sender_session (lk_api c) (lk_sock c) path m (sha256_reference data) fs w =
        Some (exit_status (lk_api c) w1 1, w1)"
      using man(1) by (simp add: sender_session_def)
    then show ?thesis
      using man(2) by (auto simp: session_outcome_def sends_def)
  next
    case ok1: True
    then have "send_file_manifest (lk_api c) (lk_sock c) m w = Some (True, w1)"
      using man(1) by simp
    note session = sender_session_split [OF this req(1), of path data fs]
    have out1: "lk_in c w1 = lk_in c w" "lk_out c w1 = lk_out c w @ serialize_file_manifest m"
      using man(2) ok1 by (simp_all add: sends_def)
    show ?thesis
    proof (cases "ok2 \<and> validate_continue_request m r")
      case False
      then have "sender_session (lk_api c) (lk_sock c) path m (sha256_reference data) fs w = Some (1, w2)"
        unfolding session by (rule if_not_P)
      moreover have "lk_out c w2 = lk_out c w @
          take (length (serialize_file_manifest m)) (serialize_file_manifest m)"
        using req(2) out1 by simp
      ultimately show ?thesis
        unfolding session_outcome_def using ends_with_failure_simps(1) zero_neq_one by metis
    next
      case True
      let ?body = "chunk_stream m data (cr_missing_chunk_indexes r) @
        serialize_hash_packet (hash_packet_for m data)"
      obtain ok3 w3 where body: "send_body c path m data fs r w2 =
          Some (if ok3 then 0 else exit_status (lk_api c) w3 1, w3)"
        "sends c ?body w2 ok3 w3"
        using send_body_sends [OF safe src] True by blast
      have wf: "continue_wf r" "lk_in c w1 = serialize_continue_request r @ lk_in c w2"
        using receive_continue_request_True [OF safe, of _ w1 r w2] req True by auto
      obtain k where k: "lk_out c w3 = lk_out c w2 @ take k ?body"
        and w3: "lk_in c w3 = lk_in c w2" "ok3 \<longrightarrow> lk_out c w3 = lk_out c w2 @ ?body"
        using body(2) unfolding sends_def by blast
      have "lk_out c w3 = lk_out c w @ take (length (serialize_file_manifest m) + k)
          (sender_stream m data (cr_missing_chunk_indexes r))"
        using k req(2) out1 by (simp add: sender_stream_def)
      moreover have "ok3 \<longrightarrow> lk_out c w3 = lk_out c w @
          sender_stream m data (cr_missing_chunk_indexes r)"
        using w3(2) req(2) out1 by (simp add: sender_stream_def)
      moreover have "lk_in c w = serialize_continue_request r @ lk_in c w3"
        using wf(2) w3(1) out1 by simp
      ultimately have "session_outcome c m data w (if ok3 then 0 else exit_status (lk_api c) w3 1) w3"
        unfolding session_outcome_def using wf(1) True
        by - (rule conjI [OF _ disjI2], simp,
            intro conjI exI [of _ r] exI [of _ "length (serialize_file_manifest m) + k"],
            (assumption | simp)+)
      then show ?thesis
        using session True body(1) by auto
    qed
  qed
qed

lemma sender_session_live:
  assumes safe: "link_safe c" and live: "link_live c" and src: "source_file fs path m data"
    and name: "length (fm_filename m) \<le> 255" and req: "continue_wf r" "validate_continue_request m r"
    and inb: "lk_in c w = serialize_continue_request r @ rest"
  shows "\<exists>w'. sender_session (lk_api c) (lk_sock c) path m (sha256_reference data) fs w = Some (0, w') \<and>
    lk_in c w' = rest \<and> lk_out c w' = lk_out c w @ sender_stream m data (cr_missing_chunk_indexes r)"
proof -
  obtain w1 where man: "send_file_manifest (lk_api c) (lk_sock c) m w = Some (True, w1)"
    "lk_in c w1 = lk_in c w" "lk_out c w1 = lk_out c w @ serialize_file_manifest m"
    using send_file_manifest_live [OF safe live name] by blast
  obtain w2 where rec:
    "receive_continue_request (lk_api c) (lk_sock c) ContinueRequest_init w1 = Some (True, r, w2)"
    "lk_in c w2 = rest" "lk_out c w2 = lk_out c w1"
    using receive_continue_request_live [OF safe live req(1), of w1 rest] man(2) inb by auto
  obtain ok w3 where body: "send_body c path m data fs r w2 =
      Some (if ok then 0 else exit_status (lk_api c) w3 1, w3)"
    "sends c (chunk_stream m data (cr_missing_chunk_indexes r) @
      serialize_hash_packet (hash_packet_for m data)) w2 ok w3"
    using send_body_sends [OF safe src req(2)] by blast
  then have ok
    using live by (simp add: sends_def)
  then show ?thesis
    using sender_session_split [OF man(1) rec(1), of path data fs] body req(2) rec man(3)
    by (auto simp: sends_def sender_stream_def)
qed

end
