(* ===== verification/Resumption.thy ===== *)
theory Resumption
  imports Receiver_Session Sender
begin

text \<open>
  Whole sessions of the receiver. Against any peer: the run ends, it touches only the output
  file and its checkpoint, and exit code 0 means that the file on disk has the announced
  digest. Against the sender of a fixed file: whatever part of its stream arrives, the state on
  disk afterwards is one from which a later run can continue, and a run that gets the whole
  stream ends with the sender's file.
\<close>

definition chunk_phase ::
    "'w link \<Rightarrow> FileManifest \<Rightarrow> string \<Rightarrow> TransferCheckpoint \<Rightarrow> bool \<Rightarrow> fs \<Rightarrow> 'w \<Rightarrow>
     (int \<times> fs \<times> 'w) option" where
  "chunk_phase c m P cp loaded fs w =
     do {
       (ok, cp', p', fs, w) \<leftarrow> receive_file_chunks (lk_api c) (lk_sock c) P
         (checkpoint_path_for_output P) m (missing_chunks cp) cp
         (ProgressTracker_new (bytes_for_chunks m (missing_chunks cp))
           (of_nat (length (missing_chunks cp))) (sys_clock (lk_api c) w)) (\<not> loaded) fs w;
       if \<not> ok then Some (1, fs, w)
       else verify_received (lk_api c) (lk_sock c) m P (checkpoint_path_for_output P) fs w
     }"

lemma request_for_eq:
  "ContinueRequest_init\<lparr>cr_session_id := fm_session_id m, cr_total_chunks := fm_chunk_count m,
     cr_missing_chunk_indexes := missing_chunks cp\<rparr> = request_for m cp"
  by (simp add: ContinueRequest_init_def request_for_def)

lemma receiver_session_split:
  assumes "receive_file_manifest (lk_api c) (lk_sock c) FileManifest_init w = Some (True, m, w1)"
    and "P = output_path_for dir m" and "initial_checkpoint P m fs = (loaded, cp)"
    and "send_continue_request (lk_api c) (lk_sock c) (request_for m cp) w1 = Some (ok, w2)"
    and "save_checkpoint (checkpoint_path_for_output P) cp fs = (saved, fs2)"
  shows "receiver_session (lk_api c) (lk_sock c) dir fs w =
    (if \<not> ok then Some (exit_status (lk_api c) w2 1, fs, w2) else if \<not> saved then Some (1, fs2, w2)
     else chunk_phase c m P cp loaded fs2 w2)"
  using assms(1,3-5) unfolding receiver_session_def chunk_phase_def assms(2)
  by (simp add: request_for_eq Let_def)

subsection \<open>Any peer\<close>

definition accepted_input ::
    "'w link \<Rightarrow> FileManifest \<Rightarrow> u64 list \<Rightarrow> bytes \<Rightarrow> 'w \<Rightarrow> 'w \<Rightarrow> bool" where
  "accepted_input c m is v w w' \<longleftrightarrow>
     (\<exists>ps. map fst ps = is \<and> pieces_ok m ps \<and>
        lk_in c w = frames m ps @ serialize_hash_packet
          \<lparr>hp_session_id = fm_session_id m, hp_sha256_hex = sha256_reference v\<rparr> @ lk_in c w')"

lemma chunk_phase_any:
  assumes safe: "link_safe c" and con: "manifest_consistent m"
  shows "\<exists>code fs' w'. chunk_phase c m P cp loaded fs w = Some (code, fs', w') \<and>
    lk_out c w' = lk_out c w \<and> only_touches P (checkpoint_path_for_output P) fs fs' \<and>
    (code = 0 \<and> (\<exists>v. fs_files fs' P = Some v \<and> accepted_input c m (missing_chunks cp) v w w') \<or>
     code = 1)"
proof -
  let ?CP = "checkpoint_path_for_output P"
  obtain ok cp' p' fs1 w1 where rc: "receive_file_chunks (lk_api c) (lk_sock c) P ?CP m
      (missing_chunks cp) cp (ProgressTracker_new (bytes_for_chunks m (missing_chunks cp))
      (of_nat (length (missing_chunks cp))) (sys_clock (lk_api c) w)) (\<not> loaded) fs w =
      Some (ok, cp', p', fs1, w1)"
    "lk_out c w1 = lk_out c w" "only_touches P ?CP fs fs1"
    "ok \<longrightarrow> (\<exists>ps. map fst ps = missing_chunks cp \<and> pieces_ok m ps \<and> lk_in c w = frames m ps @ lk_in c w1)"
    using receive_file_chunks_any [OF safe con paths_apart] by blast
  show ?thesis
  proof (cases ok)
    case False
    then show ?thesis
      using rc by (simp add: chunk_phase_def)
  next
    case True
    obtain code fs' w' where v:
      "verify_received (lk_api c) (lk_sock c) m P ?CP fs1 w1 = Some (code, fs', w')"
      "lk_out c w' = lk_out c w1" "only_touches P ?CP fs1 fs'" "fs_files fs' P = fs_files fs1 P"
      "code = 0 \<and> verified c m P fs1 w1 w' \<and> fs' = snd (remove_checkpoint ?CP fs1) \<or>
       code = 1 \<and> fs' = fs1"
      using verify_received_result [OF safe paths_apart(1)] by blast
    have run: "chunk_phase c m P cp loaded fs w = Some (code, fs', w')"
      using rc(1) v(1) True by (simp add: chunk_phase_def)
    have "\<exists>v. fs_files fs' P = Some v \<and> accepted_input c m (missing_chunks cp) v w w'" if code0: "code = 0"
    proof -
      obtain x where x: "fs_files fs1 P = Some x"
        "lk_in c w1 = serialize_hash_packet
          \<lparr>hp_session_id = fm_session_id m, hp_sha256_hex = sha256_reference x\<rparr> @ lk_in c w'"
        using v(5) code0 by (auto simp: verified_def)
      obtain ps where "map fst ps = missing_chunks cp" "pieces_ok m ps" "lk_in c w = frames m ps @ lk_in c w1"
        using rc(4) True by blast
      then show ?thesis
        using x v(4) unfolding accepted_input_def by (intro exI [of _ x] conjI exI [of _ ps]) simp_all
    qed
    then show ?thesis
      using run v(2,5) rc(2) only_touches_trans [OF rc(3) v(3)] by auto
  qed
qed

definition accepted_run ::
    "'w link \<Rightarrow> string \<Rightarrow> fs \<Rightarrow> 'w \<Rightarrow> fs \<Rightarrow> 'w \<Rightarrow> bool" where
  "accepted_run c dir fs w fs' w' \<longleftrightarrow>
     (\<exists>m flags v w1. manifest_wf m \<and> lk_in c w = manifest_frame m flags @ lk_in c w1 \<and>
        fs_files fs' (output_path_for dir m) = Some v \<and>
        accepted_input c m (missing_chunks (snd (initial_checkpoint (output_path_for dir m) m fs)))
          v w1 w')"

definition confined :: "string \<Rightarrow> fs \<Rightarrow> fs \<Rightarrow> bool" where
  "confined dir fs fs' \<longleftrightarrow>
     fs' = fs \<or>
     (\<exists>m. manifest_wf m \<and> only_touches (output_path_for dir m)
        (checkpoint_path_for_output (output_path_for dir m)) fs fs')"

lemma receiver_session_any:
  assumes safe: "link_safe c"
    and bound: "\<And>m w1. receive_file_manifest (lk_api c) (lk_sock c) FileManifest_init w =
      Some (True, m, w1) \<Longrightarrow> cnt m < 2 ^ 59"
  shows "\<exists>code fs' w'. receiver_session (lk_api c) (lk_sock c) dir fs w = Some (code, fs', w') \<and>
    confined dir fs fs' \<and>
    (code = 0 \<and> accepted_run c dir fs w fs' w' \<or> ends_with_failure (lk_api c) code w')"
proof -
  obtain ok m w1 where man:
    "receive_file_manifest (lk_api c) (lk_sock c) FileManifest_init w = Some (ok, m, w1)"
    using receive_file_manifest_returns [OF safe] by blast
  show ?thesis
  proof (cases ok)
    case False
    then show ?thesis
      using man by (simp add: receiver_session_def confined_def)
  next
    case True
    then have man': "receive_file_manifest (lk_api c) (lk_sock c) FileManifest_init w = Some (True, m, w1)"
      using man by simp
    obtain flags where m: "manifest_wf m" "lk_in c w = manifest_frame m flags @ lk_in c w1"
      using receive_file_manifest_True [OF safe man'] by blast
    let ?P = "output_path_for dir m"
    let ?CP = "checkpoint_path_for_output ?P"
    obtain loaded cp where init: "initial_checkpoint ?P m fs = (loaded, cp)"
      by (cases "initial_checkpoint ?P m fs")
    have con: "manifest_consistent m"
      using m(1) by (simp add: manifest_wf_def)
    obtain ok2 w2 where send:
      "send_continue_request (lk_api c) (lk_sock c) (request_for m cp) w1 = Some (ok2, w2)"
      "sends c (serialize_continue_request (request_for m cp)) w1 ok2 w2"
      using sends_request [OF safe initial_checkpoint_props(1) [OF init] bound [OF man']] by blast
    obtain saved fs2 where save: "save_checkpoint ?CP cp fs = (saved, fs2)"
      by (cases "save_checkpoint ?CP cp fs")
    note split = receiver_session_split [OF man' refl init send(1) save]
    have touch: "only_touches ?P ?CP fs fs2"
      by (rule only_touches_save [OF save])
    obtain code fs' w' where ph: "chunk_phase c m ?P cp loaded fs2 w2 = Some (code, fs', w')"
      "only_touches ?P ?CP fs2 fs'"
      "code = 0 \<and> (\<exists>v. fs_files fs' ?P = Some v \<and> accepted_input c m (missing_chunks cp) v w2 w') \<or>
       code = 1"
      using chunk_phase_any [OF safe con] by blast
    have "accepted_run c dir fs w fs' w'" if code0: "code = 0"
    proof -
      obtain v where "fs_files fs' ?P = Some v" "accepted_input c m (missing_chunks cp) v w2 w'"
        using ph(3) code0 by auto
      moreover have "lk_in c w2 = lk_in c w1"
        using send(2) by (simp add: sends_def)
      ultimately have "accepted_input c m (missing_chunks (snd (initial_checkpoint ?P m fs))) v w1 w'"
        using init by (simp add: accepted_input_def)
      with m \<open>fs_files fs' ?P = Some v\<close> show ?thesis
        unfolding accepted_run_def by blast
    qed
    moreover have "confined dir fs fs2" "confined dir fs fs'"
      using touch ph(2) m(1) only_touches_trans unfolding confined_def by blast+
    ultimately show ?thesis
      using split ph(1,3) by (cases ok2; cases saved) (auto simp: confined_def)
  qed
qed

subsection \<open>The sender of a fixed file\<close>

text \<open>
  What a receiver's host has to allow for a transfer of \<open>m\<close> to \<open>P\<close>; none of it depends on the
  files that exist.
\<close>

definition receiver_storage :: "FileManifest \<Rightarrow> string \<Rightarrow> fs \<Rightarrow> bool" where
  "receiver_storage m P fs \<longleftrightarrow>
     fs_may_read fs P \<and> fs_may_write fs P \<and> fs_bad fs P = None \<and>
     ample m P (checkpoint_path_for_output P) (create_checkpoint_from_manifest m) fs"

text \<open>The transfer: a manifest as the sender fills it in, and the file it describes.\<close>

definition transfer_of :: "FileManifest \<Rightarrow> bytes \<Rightarrow> bool" where
  "transfer_of m data \<longleftrightarrow>
     manifest_wf m \<and> manifest_received m = m \<and> newline \<notin> set (fm_filename m) \<and>
     length data = fsz m \<and> fsz m + csz m - 1 < 2 ^ 64 \<and> cnt m \<le> 1000000"

text \<open>A state on disk from which the transfer can continue: what the checkpoint claims is there.\<close>

definition resumable :: "FileManifest \<Rightarrow> bytes \<Rightarrow> string \<Rightarrow> fs \<Rightarrow> bool" where
  "resumable m data P fs \<longleftrightarrow>
     (case initial_checkpoint P m fs of
        (loaded, cp) \<Rightarrow> loaded \<longrightarrow>
          (\<exists>v. fs_files fs P = Some v \<and> partial_file m data (cp_completed_chunks cp) v))"

lemma receiver_storage_env: "fs_env f g \<Longrightarrow> receiver_storage m P g = receiver_storage m P f"
  by (simp add: receiver_storage_def ample_env fs_env_fields)

lemma storable_any:
  assumes "receiver_storage m P fs" and "same_transfer m cp"
    and "cp_completed_chunks cp \<subseteq> {i. i < fm_chunk_count m}"
  shows "checkpoint_storable fs (checkpoint_path_for_output P) cp"
  using assms same_transfer_eq [OF assms(2), of "cp_completed_chunks cp"]
  by (auto simp: receiver_storage_def ample_def)

lemma initial_checkpoint_holds:
  assumes "holds_checkpoint fs (checkpoint_path_for_output P) cp" and "can_open P fs"
    and "same_transfer m cp" and "newline \<notin> set (fm_filename m)"
    and "cp_completed_chunks cp \<subseteq> {i. i < fm_chunk_count m}"
  shows "initial_checkpoint P m fs = (True, cp)"
proof -
  have "load_checkpoint (checkpoint_path_for_output P) cp0 fs = (True, cp)" for cp0
    using load_checkpoint_text [OF assms(1)] assms(3,4) by (simp add: same_transfer_def)
  moreover have "checkpoint_matches_manifest cp m"
    using assms(3,5) by (simp add: checkpoint_matches_manifest_iff same_transfer_def)
  ultimately show ?thesis
    using assms(2) by (simp add: initial_checkpoint_def file_exists_iff)
qed

lemma resumable_holds:
  assumes "holds_checkpoint fs (checkpoint_path_for_output P) cp" and "same_transfer m cp"
    and "newline \<notin> set (fm_filename m)" and "cp_completed_chunks cp \<subseteq> {i. i < fm_chunk_count m}"
    and "fs_may_read fs P" and "fs_files fs P = Some v"
    and "partial_file m data (cp_completed_chunks cp) v"
  shows "resumable m data P fs"
  using initial_checkpoint_holds [OF assms(1) _ assms(2,3,4)] assms(5-7)
  by (simp add: resumable_def can_open_def)

lemma resumable_no_checkpoint:
  "fs_files fs (checkpoint_path_for_output P) = None \<Longrightarrow> resumable m data P fs"
  by (auto simp: resumable_def initial_checkpoint_def load_checkpoint_def istream_ok_def
      ifstream_open_def can_open_def split: if_splits)

text \<open>The chunk phase of such a run, from a checkpoint that tells the truth.\<close>

definition chunk_phase_outcome ::
    "FileManifest \<Rightarrow> bytes \<Rightarrow> string \<Rightarrow> int \<Rightarrow> fs \<Rightarrow> bool" where
  "chunk_phase_outcome m data P code fs' \<longleftrightarrow>
     resumable m data P fs' \<and>
     (code = 0 \<longrightarrow> fs_files fs' P = Some data \<and> fs_files fs' (checkpoint_path_for_output P) = None)"

lemma transfer_facts:
  assumes "transfer_of m data"
  shows "manifest_consistent m" and "length data = fsz m" and "fsz m + csz m - 1 < 2 ^ 64"
  using assms by (simp_all add: transfer_of_def manifest_wf_def)

lemma pieces_stored:
  assumes tr: "transfer_of m data" and st: "receiver_storage m P fs'"
    and cp: "same_transfer m cp" "cp_completed_chunks cp \<subseteq> {i. i < fm_chunk_count m}"
    and CP: "holds_checkpoint fs (checkpoint_path_for_output P) cp"
    and env: "fs_env fs fs'"
    and v: "partial_file m data (cp_completed_chunks cp) v"
    and ps: "ps = honest m data (take n (missing_chunks cp))"
    and stored: "stored_pieces m P (checkpoint_path_for_output P) cp v ps fs fs'"
  shows "resumable m data P fs'"
    and "partial_file m data (cp_completed_chunks cp \<union> set (take n (missing_chunks cp)))
      (write_chunks m ps v)"
proof -
  let ?A = "set (take n (missing_chunks cp))"
  note facts = transfer_facts [OF tr]
  have A: "\<forall>i \<in> ?A. unat i < cnt m"
    using missing_in_range [OF cp(1)] by (auto dest: in_set_takeD)
  show part: "partial_file m data (cp_completed_chunks cp \<union> ?A) (write_chunks m ps v)"
    unfolding ps by (rule write_honest [OF facts(1,2) v A])
  have fst_ps: "fst ` set ps = ?A"
    by (metis honest_simps(1) list.set_map ps)
  have "holds_checkpoint fs' (checkpoint_path_for_output P) (completed_with cp ?A)"
  proof (cases "ps = []")
    case True
    then have A0: "?A = {}"
      using fst_ps by simp
    show ?thesis
      unfolding A0 using stored CP env True
      by (simp add: stored_pieces_def holds_checkpoint_def fs_env_fields)
  next
    case False
    then show ?thesis
      using stored fst_ps by (simp add: stored_pieces_def)
  qed
  moreover have "cp_completed_chunks (completed_with cp ?A) \<subseteq> {i. i < fm_chunk_count m}"
    using cp(2) A by (auto simp: cnt_def word_less_nat_alt)
  ultimately show "resumable m data P fs'"
    using cp(1) tr st stored part
    by (intro resumable_holds [of fs' P "completed_with cp ?A" m "write_chunks m ps v"])
      (simp_all add: transfer_of_def receiver_storage_def stored_pieces_def)
qed

lemma received_everything:
  assumes "transfer_of m data" and "same_transfer m cp"
    and "partial_file m data (cp_completed_chunks cp \<union> set (missing_chunks cp)) v"
  shows "v = data"
proof -
  have "{i. i < fm_chunk_count m} \<subseteq> cp_completed_chunks cp \<union> set (missing_chunks cp)"
    using assms(2) by (auto simp: set_missing_chunks same_transfer_def)
  then show ?thesis
    using partial_file_complete [OF transfer_facts(1,3,2) [OF assms(1)]] partial_file_mono assms(3) by blast
qed

lemma hash_of_own_file:
  assumes safe: "link_safe c" and live: "link_live c"
    and have_file: "fs_files fs P = Some data" "fs_may_read fs P" "fs_bad fs P = None"
    and inb: "lk_in c w = serialize_hash_packet (hash_packet_for m data) @ rest"
  shows "\<exists>w'. verify_received (lk_api c) (lk_sock c) m P CP fs w =
    Some (0, snd (remove_checkpoint CP fs), w') \<and> lk_in c w' = rest"
proof -
  obtain w' where "receive_hash_packet (lk_api c) (lk_sock c) HashPacket_init w =
      Some (True, hash_packet_for m data, w')" "lk_in c w' = rest"
    using receive_hash_packet_live [OF safe live hash_packet_for_wf inb] by blast
  moreover have "sha256_file P fs = Some (Inr (sha256_reference data))"
    using have_file by (simp add: sha256_file_eq unreadable_def)
  ultimately show ?thesis
    by (auto simp: verify_received_def hash_packet_for_def split: prod.split)
qed

lemma chunk_phase_honest:
  assumes safe: "link_safe c" and tr: "transfer_of m data" and st: "receiver_storage m P fs"
    and cp: "same_transfer m cp" "cp_completed_chunks cp \<subseteq> {i. i < fm_chunk_count m}"
    and CP: "holds_checkpoint fs (checkpoint_path_for_output P) cp"
    and loaded: "loaded \<longrightarrow> fs_files fs P \<noteq> None"
    and v: "partial_file m data (cp_completed_chunks cp) (starting_content P (\<not> loaded) fs)"
    and inb: "lk_in c w @ y = (chunk_stream m data (missing_chunks cp) @
      serialize_hash_packet (hash_packet_for m data)) @ z"
  shows "\<exists>code fs' w'. chunk_phase c m P cp loaded fs w = Some (code, fs', w') \<and>
    lk_out c w' = lk_out c w \<and> chunk_phase_outcome m data P code fs' \<and>
    (link_live c \<and> y = [] \<longrightarrow> code = 0 \<and> lk_in c w' = z)"
proof -
  let ?CP = "checkpoint_path_for_output P" and ?is = "missing_chunks cp"
  let ?v = "starting_content P (\<not> loaded) fs"
  let ?p = "ProgressTracker_new (bytes_for_chunks m ?is) (of_nat (length ?is)) (sys_clock (lk_api c) w)"
  note facts = transfer_facts [OF tr]
  have ready: "storage_ready m P ?CP cp (\<not> loaded) fs"
    using st cp loaded by (simp add: storage_ready_def receiver_storage_def ample_same_transfer)
  obtain ok cp' p' fs1 w1 n ps x where rc:
    "receive_file_chunks (lk_api c) (lk_sock c) P ?CP m ?is cp ?p (\<not> loaded) fs w =
      Some (ok, cp', p', fs1, w1)"
    "map fst ps = take n ?is" "lk_in c w = frames m ps @ x"
    "stored_pieces m P ?CP cp ?v ps fs fs1" "ok \<longrightarrow> map fst ps = ?is \<and> x = lk_in c w1"
    "link_live c \<longrightarrow> ok \<or>
       (\<forall>ps rest. map fst ps = ?is \<longrightarrow> pieces_ok m ps \<longrightarrow> lk_in c w \<noteq> frames m ps @ rest)"
    using receive_file_chunks_ready [OF safe facts(1) paths_apart ready, of "?is" ?p w] by blast
  have range: "\<forall>i \<in> set ?is. unat i < cnt m"
    using missing_in_range [OF cp(1)] by blast
  have more: "lk_out c w1 = lk_out c w" "only_touches P ?CP fs fs1"
    using receive_file_chunks_any [OF safe facts(1) paths_apart, of P "?is" cp ?p "\<not> loaded" fs w] rc(1)
    by auto
  have ps: "ps = honest m data (take n ?is)"
    using frames_honest [OF facts(2) range rc(2), of "x @ y"] rc(3,4) inb
    by (auto simp: stored_pieces_def)
  have env: "fs_env fs fs1" and st1: "receiver_storage m P fs1"
    using more(2) st receiver_storage_env by (auto simp: only_touches_def)
  note stored = pieces_stored [OF tr st1 cp CP env v ps rc(4)]
  show ?thesis
  proof (cases ok)
    case False
    have "\<not> (link_live c \<and> y = [])"
    proof
      assume "link_live c \<and> y = []"
      then have "lk_in c w = frames m (honest m data ?is) @
          (serialize_hash_packet (hash_packet_for m data) @ z)"
        using inb by (simp add: chunk_stream_frames)
      then show False
        using rc(6) False honest_ok [OF facts(2) range] \<open>link_live c \<and> y = []\<close> by (metis honest_simps(1))
    qed
    moreover have "chunk_phase c m P cp loaded fs w = Some (1, fs1, w1)"
      using rc(1) False by (simp add: chunk_phase_def)
    ultimately show ?thesis
      using more(1) stored(1) by (simp add: chunk_phase_outcome_def)
  next
    case True
    then have full: "take n ?is = ?is" "x = lk_in c w1"
      using rc(2,5) by simp_all
    have P1: "fs_files fs1 P = Some data"
      using rc(4) received_everything [OF tr cp(1)] stored(2) full(1) by (simp add: stored_pieces_def)
    have in1: "lk_in c w1 @ y = serialize_hash_packet (hash_packet_for m data) @ z"
      using rc(3) inb ps full by (simp add: chunk_stream_frames)
    obtain code fs' w' where ver:
      "verify_received (lk_api c) (lk_sock c) m P ?CP fs1 w1 = Some (code, fs', w')"
      "lk_out c w' = lk_out c w1" "fs_files fs' P = fs_files fs1 P"
      "code = 0 \<and> verified c m P fs1 w1 w' \<and> fs' = snd (remove_checkpoint ?CP fs1) \<or>
       code = 1 \<and> fs' = fs1"
      using verify_received_result [OF safe paths_apart(1)] by blast
    have unlink: "fs_may_unlink fs1 ?CP"
      using storable_any [OF st1 cp] by (simp add: checkpoint_storable_def)
    have gone: "fs_files (snd (remove_checkpoint ?CP fs1)) ?CP = None"
      using remove_checkpoint_result(4) [OF _ unlink] by (metis surj_pair snd_conv)
    have "code = 0 \<and> lk_in c w' = z" if "link_live c \<and> y = []"
      using hash_of_own_file [OF safe _ P1, of w1 m z ?CP] that in1 st1 ver(1)
      by (auto simp: receiver_storage_def)
    moreover have "chunk_phase_outcome m data P code fs'"
      using ver(3,4) P1 gone stored(1) resumable_no_checkpoint
      by (auto simp: chunk_phase_outcome_def)
    moreover have "chunk_phase c m P cp loaded fs w = Some (code, fs', w')"
      using rc(1) ver(1) True by (simp add: chunk_phase_def)
    ultimately show ?thesis
      using ver(2) more(1) by simp
  qed
qed

lemma manifest_frame_unique:
  assumes "manifest_wf m" and "manifest_wf m'" and "manifest_received m = m" and "manifest_received m' = m'"
    and "manifest_frame m f @ x = manifest_frame m' f' @ y"
  shows "m = m' \<and> x = y"
proof -
  let ?n = "length (fm_filename m)" and ?n' = "length (fm_filename m')"
  have n: "?n \<le> 255" "?n' \<le> 255"
    using assms(1,2) by (simp_all add: manifest_wf_def kMaxFilenameLength_def)
  have "take 4 (manifest_frame m f) = take 4 (manifest_frame m' f')"
    using arg_cong [OF assms(5), of "take 4"] by (simp add: length_manifest_frame)
  then have "be_bytes 4 (of_nat (38 + ?n) :: u32) = be_bytes 4 (of_nat (38 + ?n') :: u32)"
    by (simp only: manifest_frame_fields(1) [OF refl])
  then have "(of_nat (38 + ?n) :: u32) = of_nat (38 + ?n')"
    by (metis be_word_be_bytes_width)
  then have "?n = ?n'"
    using frame_numbers(1) [OF n(1)] frame_numbers(1) [OF n(2)] by (metis add_left_cancel)
  then have "manifest_frame m f = manifest_frame m' f'" "x = y"
    using assms(5) by (simp_all add: length_manifest_frame)
  then show ?thesis
    using deserialize_manifest_frame [OF assms(1), of f m] deserialize_manifest_frame [OF assms(2), of f' m]
      assms(3,4) by simp
qed

lemma received_manifest:
  assumes safe: "link_safe c" and tr: "transfer_of m data"
    and man: "receive_file_manifest (lk_api c) (lk_sock c) m0 w = Some (True, m', w1)"
    and inb: "lk_in c w @ y = serialize_file_manifest m @ z"
  shows "m' = m" and "lk_in c w1 @ y = z"
proof -
  obtain flags where m': "manifest_wf m'" "manifest_received m' = m'"
    "lk_in c w = manifest_frame m' flags @ lk_in c w1"
    using receive_file_manifest_True [OF safe man] by blast
  have "manifest_wf m" "manifest_received m = m" "length (fm_filename m) \<le> 255"
    using tr by (simp_all add: transfer_of_def manifest_wf_def kMaxFilenameLength_def)
  then have "m' = m \<and> lk_in c w1 @ y = z"
    using manifest_frame_unique [OF m'(1) _ m'(2), of m flags "lk_in c w1 @ y" 0 z] m'(3) inb
    by (simp add: serialize_file_manifest_eq)
  then show "m' = m" and "lk_in c w1 @ y = z" by simp_all
qed

definition honest_outcome ::
    "FileManifest \<Rightarrow> bytes \<Rightarrow> string \<Rightarrow> fs \<Rightarrow> int \<Rightarrow> fs \<Rightarrow> bool" where
  "honest_outcome m data P fs code fs' \<longleftrightarrow>
     chunk_phase_outcome m data P code fs' \<and>
     only_touches P (checkpoint_path_for_output P) fs fs'"

lemma receiver_session_honest:
  assumes safe: "link_safe c" and tr: "transfer_of m data"
    and P: "P = output_path_for dir m" and st: "receiver_storage m P fs"
    and res: "resumable m data P fs" and init: "initial_checkpoint P m fs = (loaded, cp)"
    and inb: "lk_in c w @ y = sender_stream m data (missing_chunks cp) @ z"
  shows "\<exists>code fs' w'. receiver_session (lk_api c) (lk_sock c) dir fs w = Some (code, fs', w') \<and>
    honest_outcome m data P fs code fs' \<and>
    (link_live c \<and> y = [] \<longrightarrow> code = 0 \<and> lk_in c w' = z \<and>
       lk_out c w' = lk_out c w @ serialize_continue_request (request_for m cp))"
proof -
  let ?CP = "checkpoint_path_for_output P"
  let ?body = "chunk_stream m data (missing_chunks cp) @ serialize_hash_packet (hash_packet_for m data)"
  note cp = initial_checkpoint_props [OF init]
  have wf: "manifest_wf m" "manifest_received m = m" and small: "cnt m < 2 ^ 59"
    using tr by (simp_all add: transfer_of_def)
  have stay: "code \<noteq> 0 \<Longrightarrow> honest_outcome m data P fs code fs" for code
    using res by (simp add: honest_outcome_def chunk_phase_outcome_def)
  have inb': "lk_in c w @ y = serialize_file_manifest m @ (?body @ z)"
    using inb by (simp add: sender_stream_def)
  obtain ok m1 w1 where man:
    "receive_file_manifest (lk_api c) (lk_sock c) FileManifest_init w = Some (ok, m1, w1)"
    "lk_out c w1 = lk_out c w"
    using receive_file_manifest_returns [OF safe] by blast
  show ?thesis
  proof (cases ok)
    case False
    have "\<not> (link_live c \<and> y = [])"
      using receive_file_manifest_live [OF safe _ wf(1), of w "?body @ z" FileManifest_init] inb' man False
      by auto
    then show ?thesis
      using man False stay by (simp add: receiver_session_def)
  next
    case True
    then have man': "receive_file_manifest (lk_api c) (lk_sock c) FileManifest_init w = Some (True, m, w1)"
      and in1: "lk_in c w1 @ y = ?body @ z"
      using received_manifest [OF safe tr _ inb'] man by auto
    obtain ok2 w2 where send:
      "send_continue_request (lk_api c) (lk_sock c) (request_for m cp) w1 = Some (ok2, w2)"
      "sends c (serialize_continue_request (request_for m cp)) w1 ok2 w2"
      using sends_request [OF safe cp(1) small] by blast
    obtain fs2 where save: "save_checkpoint ?CP cp fs = (True, fs2)" "holds_checkpoint fs2 ?CP cp"
      using save_checkpoint_ok storable_any [OF st cp(1,2)] by blast
    note split = receiver_session_split [OF man' P init send(1) save(1)]
    have touch: "only_touches P ?CP fs fs2" and same: "fs_files fs2 P = fs_files fs P"
      using only_touches_save [OF save(1)] save_checkpoint_result(2) [OF save(1) paths_apart] by simp_all
    have st2: "receiver_storage m P fs2"
      using st touch receiver_storage_env by (auto simp: only_touches_def)
    have v: "partial_file m data (cp_completed_chunks cp) (starting_content P (\<not> loaded) fs2)"
      using res cp(4) partial_file_empty
      by (cases loaded) (auto simp: resumable_def init starting_content_def same)
    have in2: "lk_in c w2 @ y = ?body @ z"
      using in1 send(2) by (simp add: sends_def)
    obtain code fs' w' where ph: "chunk_phase c m P cp loaded fs2 w2 = Some (code, fs', w')"
      "lk_out c w' = lk_out c w2" "chunk_phase_outcome m data P code fs'"
      "link_live c \<and> y = [] \<longrightarrow> code = 0 \<and> lk_in c w' = z"
      using chunk_phase_honest [OF safe tr st2 cp(1,2) save(2) _ v in2] cp(3) same by auto
    have "only_touches P ?CP fs2 fs'"
      using chunk_phase_any [OF safe transfer_facts(1) [OF tr], of P cp loaded fs2 w2] ph(1) by auto
    then have "honest_outcome m data P fs code fs'"
      using ph(3) only_touches_trans [OF touch] by (simp add: honest_outcome_def)
    then show ?thesis
      using split ph send(2) man(2) stay by (cases ok2) (auto simp: sends_def)
  qed
qed

subsection \<open>A run that starts from a full checkpoint\<close>

lemma missing_of_full: "cp_completed_chunks cp = {i. i < cp_total_chunks cp} \<Longrightarrow> missing_chunks cp = []"
  using set_missing_chunks [of cp] by simp

lemma chunk_phase_nothing_missing:
  assumes safe: "link_safe c" and live: "link_live c" and con: "manifest_consistent m"
    and st: "receiver_storage m P fs" and cp: "same_transfer m cp"
    and full: "cp_completed_chunks cp = {i. i < cp_total_chunks cp}"
    and P: "fs_files fs P = Some v"
  shows "\<exists>fs1 w1. chunk_phase c m P cp True fs w =
      verify_received (lk_api c) (lk_sock c) m P (checkpoint_path_for_output P) fs1 w1 \<and>
    fs_env fs fs1 \<and> fs_files fs1 P = Some v \<and> lk_in c w1 = lk_in c w \<and>
    fs_files fs1 (checkpoint_path_for_output P) = fs_files fs (checkpoint_path_for_output P) \<and>
    lk_out c w1 = lk_out c w"
proof -
  let ?CP = "checkpoint_path_for_output P"
  let ?is = "missing_chunks cp"
  let ?p = "ProgressTracker_new (bytes_for_chunks m ?is) (of_nat (length ?is)) (sys_clock (lk_api c) w)"
  have none: "?is = []"
    using full by (rule missing_of_full)
  have ready: "storage_ready m P ?CP cp False fs"
    using st cp full P
    by (simp add: storage_ready_def receiver_storage_def ample_same_transfer same_transfer_def)
  obtain ok cp' p' fs1 w1 n ps x where rc:
    "receive_file_chunks (lk_api c) (lk_sock c) P ?CP m ?is cp ?p False fs w = Some (ok, cp', p', fs1, w1)"
    "map fst ps = take n ?is" "lk_in c w = frames m ps @ x"
    "stored_pieces m P ?CP cp (starting_content P False fs) ps fs fs1" "ok \<longrightarrow> map fst ps = ?is \<and> x = lk_in c w1"
    "link_live c \<longrightarrow> ok \<or>
       (\<forall>ps rest. map fst ps = ?is \<longrightarrow> pieces_ok m ps \<longrightarrow> lk_in c w \<noteq> frames m ps @ rest)"
    using receive_file_chunks_ready [OF safe con paths_apart ready, of "?is" ?p w] by blast
  have ok
    using rc(6) live none by simp
  have ps: "ps = []"
    using rc(2) none by simp
  have "only_touches P ?CP fs fs1" and out: "lk_out c w1 = lk_out c w"
    using receive_file_chunks_any [OF safe con paths_apart, of P "?is" cp ?p False fs w] rc(1) by auto
  then have "fs_env fs fs1"
    by (simp add: only_touches_def)
  moreover have "chunk_phase c m P cp True fs w = verify_received (lk_api c) (lk_sock c) m P ?CP fs1 w1"
    using rc(1) \<open>ok\<close> by (simp add: chunk_phase_def)
  moreover have "fs_files fs1 P = Some v" "fs_files fs1 ?CP = fs_files fs ?CP" "lk_in c w1 = lk_in c w"
    using rc(3-5) ps P \<open>ok\<close> by (simp_all add: stored_pieces_def starting_content_def)
  ultimately show ?thesis
    using out by blast
qed

lemma verify_mismatch:
  assumes safe: "link_safe c" and live: "link_live c" and hex: "is_sha256_hex h"
    and P: "fs_files fs P = Some v" "fs_may_read fs P" "fs_bad fs P = None"
    and differs: "h \<noteq> sha256_reference v"
    and inb: "lk_in c w = serialize_hash_packet \<lparr>hp_session_id = fm_session_id m, hp_sha256_hex = h\<rparr> @ rest"
  shows "\<exists>w'. verify_received (lk_api c) (lk_sock c) m P CP fs w = Some (1, fs, w') \<and> lk_in c w' = rest"
proof -
  have "hash_wf \<lparr>hp_session_id = fm_session_id m, hp_sha256_hex = h\<rparr>"
    using hex by (simp add: hash_wf_def)
  then obtain w' where "receive_hash_packet (lk_api c) (lk_sock c) HashPacket_init w =
      Some (True, \<lparr>hp_session_id = fm_session_id m, hp_sha256_hex = h\<rparr>, w')" "lk_in c w' = rest"
    using receive_hash_packet_live [OF safe live _ inb] by blast
  moreover have "sha256_file P fs = Some (Inr (sha256_reference v))"
    using P by (simp add: sha256_file_eq unreadable_def)
  ultimately show ?thesis
    using differs by (simp add: verify_received_def)
qed

lemma full_checkpoint_stuck:
  assumes safe: "link_safe c" and live: "link_live c" and tr: "transfer_of m data"
    and P: "P = output_path_for dir m" and st: "receiver_storage m P fs"
    and CP: "holds_checkpoint fs (checkpoint_path_for_output P) cp" and cp: "same_transfer m cp"
    and full: "cp_completed_chunks cp = {i. i < cp_total_chunks cp}"
    and v: "fs_files fs P = Some v" and hex: "is_sha256_hex h" and differs: "h \<noteq> sha256_reference v"
    and inb: "lk_in c w = serialize_file_manifest m @
      serialize_hash_packet \<lparr>hp_session_id = fm_session_id m, hp_sha256_hex = h\<rparr> @ rest"
  shows "\<exists>fs' w'. receiver_session (lk_api c) (lk_sock c) dir fs w = Some (1, fs', w') \<and>
    lk_out c w' = lk_out c w @ serialize_continue_request \<lparr>cr_session_id = fm_session_id m,
      cr_total_chunks = fm_chunk_count m, cr_missing_chunk_indexes = []\<rparr> \<and> lk_in c w' = rest \<and>
    fs_files fs' P = Some v \<and> holds_checkpoint fs' (checkpoint_path_for_output P) cp \<and>
    receiver_storage m P fs'"
proof -
  let ?CP = "checkpoint_path_for_output P"
  have wf: "manifest_wf m" "manifest_received m = m" "newline \<notin> set (fm_filename m)" "cnt m < 2 ^ 59"
    using tr by (simp_all add: transfer_of_def)
  have sub: "cp_completed_chunks cp \<subseteq> {i. i < fm_chunk_count m}"
    using full cp by (simp add: same_transfer_def)
  have "can_open P fs"
    using v st by (simp add: can_open_def receiver_storage_def)
  then have init: "initial_checkpoint P m fs = (True, cp)"
    using initial_checkpoint_holds [OF CP _ cp wf(3) sub] by simp
  obtain w1 where man: "receive_file_manifest (lk_api c) (lk_sock c) FileManifest_init w = Some (True, m, w1)"
    "lk_in c w1 = serialize_hash_packet \<lparr>hp_session_id = fm_session_id m, hp_sha256_hex = h\<rparr> @ rest"
    "lk_out c w1 = lk_out c w"
    using receive_file_manifest_live [OF safe live wf(1) inb] wf(2) by fastforce
  obtain ok w2 where send:
    "send_continue_request (lk_api c) (lk_sock c) (request_for m cp) w1 = Some (ok, w2)"
    "sends c (serialize_continue_request (request_for m cp)) w1 ok w2"
    using sends_request [OF safe cp wf(4)] by blast
  obtain fs2 where save: "save_checkpoint ?CP cp fs = (True, fs2)" "holds_checkpoint fs2 ?CP cp"
    using save_checkpoint_ok storable_any [OF st cp sub] by blast
  have fs2: "fs_env fs fs2" "fs_files fs2 P = Some v"
    using save_checkpoint_result(1,2) [OF save(1)] paths_apart v by simp_all
  have st2: "receiver_storage m P fs2"
    using st receiver_storage_env [OF fs2(1)] by simp
  obtain fs3 w3 where ph: "chunk_phase c m P cp True fs2 w2 =
      verify_received (lk_api c) (lk_sock c) m P ?CP fs3 w3"
    "fs_env fs2 fs3" "fs_files fs3 P = Some v" "lk_in c w3 = lk_in c w2"
    "fs_files fs3 ?CP = fs_files fs2 ?CP" "lk_out c w3 = lk_out c w2"
    using chunk_phase_nothing_missing [OF safe live transfer_facts(1) [OF tr] st2 cp full fs2(2)] by blast
  have st3: "receiver_storage m P fs3"
    using st2 receiver_storage_env [OF ph(2)] by simp
  have ok: ok and in3: "lk_in c w3 = serialize_hash_packet
      \<lparr>hp_session_id = fm_session_id m, hp_sha256_hex = h\<rparr> @ rest"
    using send(2) live ph(4) man(2) by (simp_all add: sends_def)
  have "fs_may_read fs3 P" "fs_bad fs3 P = None"
    using st3 by (simp_all add: receiver_storage_def)
  then obtain w4 where ver: "verify_received (lk_api c) (lk_sock c) m P ?CP fs3 w3 = Some (1, fs3, w4)"
    "lk_in c w4 = rest"
    using verify_mismatch [OF safe live hex ph(3) _ _ differs in3] by blast
  have "lk_out c w4 = lk_out c w3"
    using verify_received_result [OF safe paths_apart(1), of m P fs3 w3] ver(1) by auto
  moreover have "request_for m cp = \<lparr>cr_session_id = fm_session_id m, cr_total_chunks = fm_chunk_count m,
      cr_missing_chunk_indexes = []\<rparr>"
    using missing_of_full [OF full] by (simp add: request_for_def)
  ultimately have "lk_out c w4 = lk_out c w @ serialize_continue_request \<lparr>cr_session_id = fm_session_id m,
      cr_total_chunks = fm_chunk_count m, cr_missing_chunk_indexes = []\<rparr>"
    using send(2) \<open>ok\<close> man(3) ph(6) by (simp add: sends_def)
  moreover have "holds_checkpoint fs3 ?CP cp"
    using save(2) ph(2,5) by (simp add: holds_checkpoint_def fs_env_fields)
  ultimately show ?thesis
    using receiver_session_split [OF man(1) P init send(1) save(1)] ok ph(1,3) st3 ver by simp
qed

text \<open>
  A run that is cut off just before the digest: all chunks are on disk and recorded, nothing has
  been verified.
\<close>

lemma verify_nothing:
  assumes "link_safe c" and "lk_in c w = []"
  shows "\<exists>w'. verify_received (lk_api c) (lk_sock c) m P (checkpoint_path_for_output P) fs w =
    Some (1, fs, w')"
proof -
  have "serialize_hash_packet \<lparr>hp_session_id = fm_session_id m, hp_sha256_hex = sha256_reference v\<rparr> \<noteq> []" for v
    using hashp.length_enc [OF hash_packet_for_wf, of m v] by (auto simp: hash_packet_for_def)
  then have "\<not> verified c m P fs w w'" for w'
    using assms(2) by (auto simp: verified_def)
  then show ?thesis
    using verify_received_result [OF assms(1) paths_apart(1), of m P fs w] by auto
qed

lemma session_without_digest:
  assumes safe: "link_safe c" and live: "link_live c" and tr: "transfer_of m data"
    and P: "P = output_path_for dir m" and st: "receiver_storage m P fs"
    and init: "initial_checkpoint P m fs = (loaded, cp)" and some: "missing_chunks cp \<noteq> []"
    and inb: "lk_in c w = serialize_file_manifest m @ chunk_stream m data (missing_chunks cp)"
  shows "\<exists>fs' w'. receiver_session (lk_api c) (lk_sock c) dir fs w = Some (1, fs', w') \<and>
    initial_checkpoint P m fs' = (True, completed_with cp (set (missing_chunks cp)))"
proof -
  let ?CP = "checkpoint_path_for_output P" and ?is = "missing_chunks cp"
  note cp = initial_checkpoint_props [OF init] and facts = transfer_facts [OF tr]
  have wf: "manifest_wf m" "manifest_received m = m" "newline \<notin> set (fm_filename m)" "cnt m < 2 ^ 59"
    using tr by (simp_all add: transfer_of_def)
  obtain w1 where man: "receive_file_manifest (lk_api c) (lk_sock c) FileManifest_init w = Some (True, m, w1)"
    "lk_in c w1 = chunk_stream m data ?is"
    using receive_file_manifest_live [OF safe live wf(1) inb] wf(2) by fastforce
  obtain ok w2 where send:
    "send_continue_request (lk_api c) (lk_sock c) (request_for m cp) w1 = Some (ok, w2)"
    "sends c (serialize_continue_request (request_for m cp)) w1 ok w2"
    using sends_request [OF safe cp(1) wf(4)] by blast
  have ok: ok and in2: "lk_in c w2 = frames m (honest m data ?is) @ []"
    using send(2) live man(2) by (simp_all add: sends_def chunk_stream_frames)
  obtain fs2 where save: "save_checkpoint ?CP cp fs = (True, fs2)" "holds_checkpoint fs2 ?CP cp"
    using save_checkpoint_ok storable_any [OF st cp(1,2)] by blast
  have fs2: "fs_env fs fs2" "fs_files fs2 P = fs_files fs P"
    using save_checkpoint_result(1,2) [OF save(1)] paths_apart by simp_all
  have st2: "receiver_storage m P fs2"
    using st receiver_storage_env [OF fs2(1)] by simp
  have ready: "storage_ready m P ?CP cp (\<not> loaded) fs2"
    using st2 cp(1-3) fs2(2) by (simp add: storage_ready_def receiver_storage_def ample_same_transfer)
  have range: "\<forall>i \<in> set ?is. unat i < cnt m"
    using missing_in_range [OF cp(1)] by blast
  let ?p = "ProgressTracker_new (bytes_for_chunks m ?is) (of_nat (length ?is)) (sys_clock (lk_api c) w2)"
  obtain ok3 cp' p' fs3 w3 n ps x where rc:
    "receive_file_chunks (lk_api c) (lk_sock c) P ?CP m ?is cp ?p (\<not> loaded) fs2 w2 =
      Some (ok3, cp', p', fs3, w3)"
    "map fst ps = take n ?is" "lk_in c w2 = frames m ps @ x"
    "stored_pieces m P ?CP cp (starting_content P (\<not> loaded) fs2) ps fs2 fs3"
    "ok3 \<longrightarrow> map fst ps = ?is \<and> x = lk_in c w3"
    "link_live c \<longrightarrow> ok3 \<or>
       (\<forall>ps rest. map fst ps = ?is \<longrightarrow> pieces_ok m ps \<longrightarrow> lk_in c w2 \<noteq> frames m ps @ rest)"
    using receive_file_chunks_ready [OF safe facts(1) paths_apart ready, of "?is" ?p w2] by blast
  have ok3
    using rc(6) live in2 honest_ok [OF facts(2) range] by (metis honest_simps(1))
  have full: "map fst ps = ?is"
    using rc(5) \<open>ok3\<close> by simp
  have okps: "pieces_ok m ps"
    using rc(4) by (simp add: stored_pieces_def)
  have "lk_in c w3 = []"
    using frames_unique [of ps "honest m data ?is" m x "[]"] full okps honest_ok [OF facts(2) range]
      rc(3,5) in2 \<open>ok3\<close> by simp
  then obtain w4 where ver: "verify_received (lk_api c) (lk_sock c) m P ?CP fs3 w3 = Some (1, fs3, w4)"
    using verify_nothing [OF safe] by blast
  have fst_ps: "fst ` set ps = set ?is"
    using full by (metis list.set_map)
  have "ps \<noteq> []"
    using full some by auto
  then have CP3: "holds_checkpoint fs3 ?CP (completed_with cp (set ?is))"
    using rc(4) fst_ps by (simp add: stored_pieces_def)
  have touch: "only_touches P ?CP fs2 fs3"
    using receive_file_chunks_any [OF safe facts(1) paths_apart, of P "?is" cp ?p "\<not> loaded" fs2 w2] rc(1)
    by auto
  then have "receiver_storage m P fs3"
    using st2 receiver_storage_env [of fs2 fs3] by (simp add: only_touches_def)
  then have "fs_may_read fs3 P"
    by (simp add: receiver_storage_def)
  then have "can_open P fs3"
    using rc(4) by (simp add: can_open_def stored_pieces_def)
  then have "initial_checkpoint P m fs3 = (True, completed_with cp (set ?is))"
    using cp(1,2) range
    by (intro initial_checkpoint_holds [OF CP3 _ _ wf(3)])
      (auto simp: cnt_def word_less_nat_alt)
  moreover have "chunk_phase c m P cp loaded fs2 w2 = Some (1, fs3, w4)"
    using rc(1) ver \<open>ok3\<close> by (simp add: chunk_phase_def)
  ultimately show ?thesis
    using receiver_session_split [OF man(1) P init send(1) save(1)] ok by simp
qed

end
