(* ===== verification/End_To_End.thy ===== *)
theory End_To_End
  imports Resumption
begin

text \<open>
  A sender and a receiver connected to each other: what one sends is what the other gets. The
  argument is the one for deterministic stream processes: the manifest does not depend on the
  peer, the request depends on the manifest only, and the rest of the sender's stream on the
  request.
\<close>

subsection \<open>The manifest that the sender fills in\<close>

lemma kDefaultChunkSize_u32: "(ucast kDefaultChunkSize :: u32) = 65536"
  by (simp add: kDefaultChunkSize_def)

lemma csz_sender: "csz (sender_manifest path n) = 65536"
  by (simp add: csz_def sender_manifest_def Let_def kDefaultChunkSize_u32)

lemma sender_manifest_consistent: "manifest_consistent (sender_manifest path n)"
  by (simp add: manifest_consistent_def sender_manifest_def Let_def kDefaultChunkSize_u32)

lemma safe_char_not_newline: "safe_char c \<Longrightarrow> c \<noteq> newline"
  by (auto simp: safe_char_def isalnum_def)

lemma sender_transfer:
  assumes "length (basename_from_path path) \<le> 255" and "length data \<le> 65536 * 1000000"
    and m: "m = sender_manifest path (of_nat (length data))"
  shows "transfer_of m data" and "fsz m = length data"
proof -
  let ?n = "of_nat (length data) :: u64"
  have "length data < 2 ^ 64"
    using assms(2) by simp
  then have fsz: "fsz (sender_manifest path ?n) = length data"
    by (simp add: fsz_def sender_manifest_def Let_def unat_of_nat)
  then show "fsz m = length data"
    by (simp add: m)
  have name: "fm_filename (sender_manifest path ?n) = sanitize_filename (basename_from_path path)"
    by (simp add: sender_manifest_def Let_def)
  have safe: "list_all safe_char (sanitize_filename (basename_from_path path))"
    "sanitize_filename (basename_from_path path) \<noteq> []"
    using sanitize_filename_safe by blast+
  have len: "length (sanitize_filename (basename_from_path path)) \<le> 255"
    using length_sanitize_filename [of "basename_from_path path"] assms(1) by linarith
  have count: "cnt (sender_manifest path ?n) \<le> 1000000"
  proof (rule ccontr)
    assume "\<not> cnt (sender_manifest path ?n) \<le> 1000000"
    then have "1000000 < cnt (sender_manifest path ?n)"
      by simp
    then show False
      using less_cnt_iff [OF sender_manifest_consistent, of 1000000 path ?n] assms(2)
      by (simp add: csz_sender fsz)
  qed
  have "manifest_wf (sender_manifest path ?n)"
    using safe(2) len by (simp add: manifest_wf_def sender_manifest_consistent name kMaxFilenameLength_def)
      (simp add: sender_manifest_def Let_def)
  moreover have "manifest_received (sender_manifest path ?n) = sender_manifest path ?n"
    by (simp add: manifest_received_def sender_manifest_def Let_def FileManifest_init_def)
  moreover have "newline \<notin> set (fm_filename (sender_manifest path ?n))"
    using safe(1) safe_char_not_newline by (auto simp: name list_all_iff)
  ultimately show "transfer_of m data"
    using fsz count assms(2) by (simp add: m transfer_of_def csz_sender)
qed

text \<open>What \<open>main\<close> of the sender does with a readable file, in terms of the session.\<close>

lemma sender_main_run:
  assumes "fs_files fs path = Some data" and "fs_may_read fs path" and "fs_bad fs path = None"
    and "length data < 2 ^ 63"
    and "connect_to api kInvalidSocket \<lparr>ep_host = ip, ep_port = kDefaultTransferTcpPort\<rparr> w =
      (True, s, w1)"
  shows "sender_main api [ip, path] fs w =
    map_option (\<lambda>(code, w). (code, snd (sock_close api s w)))
      (sender_session api s path (sender_manifest path (of_nat (length data)))
        (sha256_reference data) fs w1)"
proof -
  have "file_size path fs = Inr (of_nat (length data))"
    using assms(1,2,4) by (simp add: file_size_def istream_ok_def ifstream_open_def can_open_def
        ifstream_content_def Let_def)
  moreover have "sha256_file path fs = Some (Inr (sha256_reference data))"
    using assms(1-3) by (simp add: sha256_file_eq unreadable_def)
  ultimately show ?thesis
    using assms(5)
    by (cases "sender_session api s path (sender_manifest path (of_nat (length data)))
        (sha256_reference data) fs w1") (auto simp: sender_main_def Let_def)
qed

lemma receiver_main_run:
  assumes "bind_and_listen api kInvalidSocket kDefaultTransferTcpPort 16 w = (True, server, w1)"
    and "accept_client api server w1 = (client, w2)" and "is_valid_socket client"
    and "\<not> is_help_arg dir"
  shows "receiver_main api [dir] fs w =
    map_option (\<lambda>(code, fs, w).
        (code, fs, snd (sock_close api server (snd (sock_close api client w)))))
      (receiver_session api client dir fs w2)"
  using assms
  by (cases "receiver_session api client dir fs w2") (auto simp: receiver_main_def Let_def)

subsection \<open>What each side sends\<close>

lemma sender_emits_manifest:
  assumes safe: "link_safe c" and live: "link_live c" and src: "source_file fs path m data"
    and name: "length (fm_filename m) \<le> 255"
    and run: "sender_session (lk_api c) (lk_sock c) path m (sha256_reference data) fs w = Some (code, w')"
  shows "\<exists>x. lk_out c w' = lk_out c w @ serialize_file_manifest m @ x"
proof -
  obtain w1 where man: "send_file_manifest (lk_api c) (lk_sock c) m w = Some (True, w1)"
    "lk_out c w1 = lk_out c w @ serialize_file_manifest m"
    using send_file_manifest_live [OF safe live name] by blast
  obtain ok r w2 where req:
    "receive_continue_request (lk_api c) (lk_sock c) ContinueRequest_init w1 = Some (ok, r, w2)"
    "lk_out c w2 = lk_out c w1"
    using receive_continue_request_returns [OF safe] by blast
  note split = sender_session_split [OF man(1) req(1), of path data fs]
  show ?thesis
  proof (cases "ok \<and> validate_continue_request m r")
    case False
    then have "w' = w2"
      using run by (simp add: split split: if_splits)
    then show ?thesis
      using man(2) req(2) by simp
  next
    case True
    then have "send_body c path m data fs r w2 = Some (code, w')"
      using run by (simp add: split)
    then obtain k where "lk_out c w' = lk_out c w2 @ take k (chunk_stream m data
        (cr_missing_chunk_indexes r) @ serialize_hash_packet (hash_packet_for m data))"
      using send_body_sends [OF safe src, of r w2] True by (auto simp: sends_def)
    then show ?thesis
      using man(2) req(2) by simp
  qed
qed

lemma receiver_emits_request:
  assumes safe: "link_safe c" and live: "link_live c" and tr: "transfer_of m data"
    and P: "P = output_path_for dir m" and init: "initial_checkpoint P m fs = (loaded, cp)"
    and inb: "lk_in c w = serialize_file_manifest m @ x"
    and run: "receiver_session (lk_api c) (lk_sock c) dir fs w = Some (code, fs', w')"
  shows "lk_out c w' = lk_out c w @ serialize_continue_request (request_for m cp)"
proof -
  have wf: "manifest_wf m" "manifest_received m = m" and small: "cnt m < 2 ^ 59"
    using tr by (simp_all add: transfer_of_def)
  obtain w1 where man: "receive_file_manifest (lk_api c) (lk_sock c) FileManifest_init w = Some (True, m, w1)"
    "lk_out c w1 = lk_out c w"
    using receive_file_manifest_live [OF safe live wf(1) inb] wf(2) by fastforce
  obtain ok w2 where send:
    "send_continue_request (lk_api c) (lk_sock c) (request_for m cp) w1 = Some (ok, w2)"
    "sends c (serialize_continue_request (request_for m cp)) w1 ok w2"
    using sends_request [OF safe initial_checkpoint_props(1) [OF init] small] by blast
  obtain saved fs2 where save: "save_checkpoint (checkpoint_path_for_output P) cp fs = (saved, fs2)"
    by (cases "save_checkpoint (checkpoint_path_for_output P) cp fs")
  have out2: "lk_out c w2 = lk_out c w @ serialize_continue_request (request_for m cp)" and ok
    using send(2) live man(2) by (simp_all add: sends_def)
  have "lk_out c w' = lk_out c w2"
    using receiver_session_split [OF man(1) P init send(1) save] run \<open>ok\<close>
      chunk_phase_any [OF safe transfer_facts(1) [OF tr], of P cp loaded fs2 w2]
    by (cases saved) auto
  with out2 show ?thesis
    by simp
qed

text \<open>The two sessions together.\<close>

definition connected :: "'a link \<Rightarrow> 'a \<Rightarrow> 'a \<Rightarrow> 'b link \<Rightarrow> 'b \<Rightarrow> 'b \<Rightarrow> bool" where
  "connected cs ws ws' cr wr wr' \<longleftrightarrow>
     lk_out cs ws = [] \<and> lk_out cr wr = [] \<and>
     lk_in cr wr = lk_out cs ws' \<and> lk_in cs ws = lk_out cr wr'"

lemma sessions_complete:
  assumes s: "link_safe cs" "link_live cs" and r: "link_safe cr" "link_live cr"
    and tr: "transfer_of m data" and src: "source_file sfs path m data"
    and P: "P = output_path_for dir m" and st: "receiver_storage m P fs"
    and res: "resumable m data P fs"
    and run_s: "sender_session (lk_api cs) (lk_sock cs) path m (sha256_reference data) sfs ws = Some (a, ws')"
    and run_r: "receiver_session (lk_api cr) (lk_sock cr) dir fs wr = Some (b, fs', wr')"
    and wires: "connected cs ws ws' cr wr wr'"
  shows "a = 0 \<and> b = 0 \<and> fs_files fs' P = Some data \<and>
    fs_files fs' (checkpoint_path_for_output P) = None \<and>
    only_touches P (checkpoint_path_for_output P) fs fs'"
proof -
  obtain loaded cp where init: "initial_checkpoint P m fs = (loaded, cp)"
    by (cases "initial_checkpoint P m fs")
  note cp = initial_checkpoint_props(1) [OF init]
  have name: "length (fm_filename m) \<le> 255" and few: "cnt m \<le> 1000000"
    using tr by (simp_all add: transfer_of_def manifest_wf_def kMaxFilenameLength_def)
  obtain x where "lk_in cr wr = serialize_file_manifest m @ x"
    using sender_emits_manifest [OF s src name run_s] wires by (auto simp: connected_def)
  then have "lk_in cs ws = serialize_continue_request (request_for m cp) @ []"
    using receiver_emits_request [OF r tr P init _ run_r] wires by (simp add: connected_def)
  then have "a = 0 \<and> lk_out cs ws' = sender_stream m data (missing_chunks cp)"
    using sender_session_live [OF s src name request_for_wf [OF cp few] request_for_valid [OF cp]]
      run_s wires by (fastforce simp: connected_def request_for_def)
  moreover from this have "lk_in cr wr @ [] = sender_stream m data (missing_chunks cp) @ []"
    using wires by (simp add: connected_def)
  then have "b = 0 \<and> honest_outcome m data P fs b fs'"
    using receiver_session_honest [OF r(1) tr P st res init] run_r r(2) by fastforce
  ultimately show ?thesis
    by (simp add: honest_outcome_def chunk_phase_outcome_def)
qed

end
