(* ===== verification/Pipe.thy ===== *)
theory Pipe
  imports End_To_End
begin

text \<open>
  A concrete system to try the results on: the world is a pair of byte sequences, what is still
  to be received and what has been sent, every call succeeds and moves as much as it is asked
  to, and the file system grants everything. It shows that the hypotheses about the operating
  system can hold together.
\<close>

type_synonym pipe = "bytes \<times> bytes"

definition pipe_api :: "pipe sock_api" where
  "pipe_api =
     \<lparr>sys_socket = \<lambda>_ _ _ w. (3, w), sys_close = \<lambda>_ w. w, sys_errno = \<lambda>_. 0,
      sys_setsockopt = \<lambda>_ _ w. (0, w),
      sys_getaddrinfo = \<lambda>_ _ _ k p w.
        (0, [\<lparr>ai_family = AF_INET, ai_socktype = k, ai_protocol = p, ai_addr = Sockaddr_in 0 0\<rparr>], w),
      sys_connect = \<lambda>_ _ w. (0, w), sys_bind = \<lambda>_ _ w. (0, w), sys_listen = \<lambda>_ _ w. (0, w),
      sys_accept = \<lambda>_ w. (3, w),
      sys_send = \<lambda>_ bs w. (int (length bs), (fst w, snd w @ bs)),
      sys_recv = \<lambda>_ k w. (int (length (take k (fst w))), take k (fst w), (drop k (fst w), snd w)),
      sys_sendto = \<lambda>_ bs _ w. (int (length bs), w),
      sys_recvfrom = \<lambda>_ _ w. (0, [], Sockaddr_other, w),
      sys_inet_ntop = \<lambda>_. [], sys_clock = \<lambda>_. 0, sys_killed = \<lambda>_. False\<rparr>"

definition pipe_link :: "pipe link" where
  "pipe_link = \<lparr>lk_api = pipe_api, lk_sock = 3, lk_in = fst, lk_out = snd\<rparr>"

definition plain_fs :: "(string \<Rightarrow> bytes option) \<Rightarrow> fs" where
  "plain_fs files =
     \<lparr>fs_files = files, fs_may_read = \<lambda>_. True, fs_may_write = \<lambda>_. True,
      fs_may_unlink = \<lambda>_. True, fs_bad = \<lambda>_. None, fs_room = \<lambda>_. 10 ^ 12, fs_buffer = 1024\<rparr>"

lemma pipe_simps [simp]:
  "lk_api pipe_link = pipe_api" "lk_sock pipe_link = 3" "lk_in pipe_link = fst" "lk_out pipe_link = snd"
  by (simp_all add: pipe_link_def)

lemma pipe_safe: "link_safe pipe_link"
  by (auto simp: link_safe_def is_valid_socket_def kInvalidSocket_def stream_safe_def pipe_api_def)

lemma pipe_live: "link_live pipe_link"
  by (auto simp: link_live_def stream_live_def pipe_api_def)

lemma plain_storage:
  assumes "fsz m \<le> 10 ^ 9" and "cnt m \<le> 1000000" and "length (fm_filename m) \<le> 255"
  shows "receiver_storage m P (plain_fs files)"
proof -
  have "length (checkpoint_text ((create_checkpoint_from_manifest m)\<lparr>cp_completed_chunks := A\<rparr>)) \<le> 10 ^ 12"
    if "A \<subseteq> {i. i < fm_chunk_count m}" for A
  proof -
    have "card A \<le> 1000000"
      using card_below [OF that] assms(2) by (simp add: cnt_def)
    then show ?thesis
      using length_checkpoint_text [of "(create_checkpoint_from_manifest m)\<lparr>cp_completed_chunks := A\<rparr>"]
        assms(3) by (simp add: create_checkpoint_from_manifest_def)
  qed
  then show ?thesis
    using assms(1) by (simp add: receiver_storage_def ample_def checkpoint_storable_def plain_fs_def)
qed

text \<open>
  A second system: connections are made, but the peer goes away before it has read anything. The
  first \<open>send\<close> then fails and the signal ends the process. The second component of the world is
  the record of that.
\<close>

definition gone_api :: "(pipe \<times> bool) sock_api" where
  "gone_api =
     \<lparr>sys_socket = \<lambda>_ _ _ w. (3, w), sys_close = \<lambda>_ w. w, sys_errno = \<lambda>_. 32,
      sys_setsockopt = \<lambda>_ _ w. (0, w),
      sys_getaddrinfo = \<lambda>_ _ _ k p w.
        (0, [\<lparr>ai_family = AF_INET, ai_socktype = k, ai_protocol = p, ai_addr = Sockaddr_in 0 0\<rparr>], w),
      sys_connect = \<lambda>_ _ w. (0, w), sys_bind = \<lambda>_ _ w. (0, w), sys_listen = \<lambda>_ _ w. (0, w),
      sys_accept = \<lambda>_ w. (3, w),
      sys_send = \<lambda>_ _ w. (-1, (fst w, True)),
      sys_recv = \<lambda>_ _ w. (0, [], w),
      sys_sendto = \<lambda>_ bs _ w. (int (length bs), w),
      sys_recvfrom = \<lambda>_ _ w. (0, [], Sockaddr_other, w),
      sys_inet_ntop = \<lambda>_. [], sys_clock = \<lambda>_. 0, sys_killed = snd\<rparr>"

definition gone_link :: "(pipe \<times> bool) link" where
  "gone_link = \<lparr>lk_api = gone_api, lk_sock = 3, lk_in = fst \<circ> fst, lk_out = snd \<circ> fst\<rparr>"

lemma gone_simps [simp]:
  "lk_api gone_link = gone_api" "lk_sock gone_link = 3" "lk_in gone_link = fst \<circ> fst"
  "lk_out gone_link = snd \<circ> fst" "sys_killed gone_api = snd"
  by (simp_all add: gone_link_def gone_api_def)

lemma gone_safe: "link_safe gone_link"
  by (auto simp: link_safe_def is_valid_socket_def kInvalidSocket_def stream_safe_def gone_link_def
      gone_api_def)

lemma gone_send: "bs \<noteq> [] \<Longrightarrow> length bs < 2 ^ 63 \<Longrightarrow> send_all gone_api 3 bs w = Some (False, (fst w, True))"
  using send_loop_step [of 0 bs gone_api 3 w "-1" "(fst w, True)"]
  by (simp add: send_all_def is_valid_socket_def kInvalidSocket_def gone_api_def)

text \<open>Both sessions of a transfer over pipes that carry what the other side sends.\<close>

lemma pipe_runs:
  assumes tr: "transfer_of m data" and src: "source_file sfs path m data"
    and P: "P = output_path_for dir m" and st: "receiver_storage m P fs"
    and res: "resumable m data P fs" and init: "initial_checkpoint P m fs = (loaded, cp)"
    and req: "q = serialize_continue_request (request_for m cp)"
    and str: "d = sender_stream m data (missing_chunks cp)"
  shows "\<exists>a ws' b fs' wr'.
    sender_session pipe_api 3 path m (sha256_reference data) sfs (q, []) = Some (a, ws') \<and>
    receiver_session pipe_api 3 dir fs (d, []) = Some (b, fs', wr') \<and>
    connected pipe_link (q, []) ws' pipe_link (d, []) wr'"
proof -
  note cp = initial_checkpoint_props(1) [OF init]
  have name: "length (fm_filename m) \<le> 255" and few: "cnt m \<le> 1000000"
    using tr by (simp_all add: transfer_of_def manifest_wf_def kMaxFilenameLength_def)
  obtain ws' where "sender_session pipe_api 3 path m (sha256_reference data) sfs (q, []) = Some (0, ws')"
    "snd ws' = d"
    using sender_session_live [OF pipe_safe pipe_live src name request_for_wf [OF cp few]
        request_for_valid [OF cp], of "(q, [])" "[]"] req str by (auto simp: request_for_def)
  moreover obtain b fs' wr' where "receiver_session pipe_api 3 dir fs (d, []) = Some (b, fs', wr')"
    "snd wr' = q"
    using receiver_session_honest [OF pipe_safe tr P st res init, of "(d, [])" "[]" "[]"] pipe_live req str
    by auto
  ultimately show ?thesis
    by (auto simp: connected_def)
qed

lemma pipe_close [simp]: "sys_close pipe_api s w = w"
  by (simp add: pipe_api_def)

text \<open>The transfer of a small file that the witnesses use.\<close>

definition demo_data :: bytes where
  "demo_data = [1, 2, 3]"

definition demo_path :: string where
  "demo_path = ''dir/a.bin''"

definition demo_manifest :: FileManifest where
  "demo_manifest = sender_manifest demo_path (of_nat (length demo_data))"

definition demo_target :: string where
  "demo_target = output_path_for ''out'' demo_manifest"

definition demo_source :: fs where
  "demo_source = plain_fs [demo_path \<mapsto> demo_data]"

definition demo_fs :: fs where
  "demo_fs = plain_fs (\<lambda>_. None)"

definition demo_request :: bytes where
  "demo_request = serialize_continue_request
     (request_for demo_manifest (create_checkpoint_from_manifest demo_manifest))"

definition demo_stream :: bytes where
  "demo_stream = sender_stream demo_manifest demo_data
     (missing_chunks (create_checkpoint_from_manifest demo_manifest))"

lemma demo_basename: "length (basename_from_path demo_path) \<le> 255"
  by (simp add: demo_path_def basename_from_path_def path_separators_def)

lemma demo_transfer: "transfer_of demo_manifest demo_data" "fsz demo_manifest = 3"
  using sender_transfer [OF demo_basename _ demo_manifest_def] by (simp_all add: demo_data_def)

lemma demo_source_file: "source_file demo_source demo_path demo_manifest demo_data"
  using demo_transfer sender_manifest_consistent
  by (simp add: source_file_def demo_source_def plain_fs_def demo_manifest_def demo_data_def)

lemma demo_storage: "receiver_storage demo_manifest P (plain_fs files)"
  using demo_transfer
  by (intro plain_storage) (simp_all add: transfer_of_def manifest_wf_def kMaxFilenameLength_def)

lemma demo_file:
  "fs_files demo_source demo_path = Some demo_data" "fs_may_read demo_source demo_path"
  "fs_bad demo_source demo_path = None" "length demo_data = 3"
  by (simp_all add: demo_source_def plain_fs_def demo_data_def)

lemma demo_fs_storage: "receiver_storage demo_manifest P demo_fs"
  unfolding demo_fs_def by (rule demo_storage)

lemma demo_initial:
  "initial_checkpoint P demo_manifest demo_fs = (False, create_checkpoint_from_manifest demo_manifest)"
  by (simp add: initial_checkpoint_def demo_fs_def plain_fs_def file_exists_iff can_open_def)

lemma demo_resumable: "resumable demo_manifest demo_data P demo_fs"
  by (simp add: resumable_def demo_initial)

lemma demo_stream_eq:
  "demo_stream = sender_stream demo_manifest demo_data
     (missing_chunks (snd (initial_checkpoint P demo_manifest demo_fs)))"
  by (simp add: demo_stream_def demo_initial)

lemma demo_received:
  assumes "receive_file_manifest pipe_api 3 m0 (demo_stream, []) = Some (True, m', w1)"
  shows "m' = demo_manifest"
  using received_manifest(1) [OF pipe_safe demo_transfer(1), of m0 "(demo_stream, [])" m' w1 "[]"] assms
  by (simp add: demo_stream_def sender_stream_def)

lemma demo_count: "cnt demo_manifest \<le> 1000000"
  using demo_transfer(1) by (simp add: transfer_of_def)

lemma demo_session:
  "\<exists>fs' w'. receiver_session pipe_api 3 ''out'' demo_fs (demo_stream, []) = Some (0, fs', w')"
  using receiver_session_honest [OF pipe_safe demo_transfer(1) refl demo_fs_storage demo_resumable
      demo_initial, where w = "(demo_stream, [])" and y = "[]" and z = "[]" and dir = "''out''"] pipe_live
  by (auto simp: demo_stream_def)

definition demo_cut :: bytes where
  "demo_cut = serialize_file_manifest demo_manifest @ chunk_stream demo_manifest demo_data
     (missing_chunks (create_checkpoint_from_manifest demo_manifest))"

lemma demo_count_1: "fm_chunk_count demo_manifest = 1"
  by (simp add: demo_manifest_def sender_manifest_def demo_data_def chunk_count_def
      kDefaultChunkSize_def Let_def)

lemma demo_missing: "missing_chunks (create_checkpoint_from_manifest demo_manifest) = [0]"
  by (simp add: missing_chunks_eq create_checkpoint_from_manifest_def TransferCheckpoint_init_def
      demo_count_1)

lemma demo_cut_run:
  "\<exists>fs' w'. receiver_session pipe_api 3 ''out'' demo_fs (demo_cut, []) = Some (1, fs', w') \<and>
     initial_checkpoint demo_target demo_manifest fs' =
       (True, completed_with (create_checkpoint_from_manifest demo_manifest) {0})"
  using session_without_digest [OF pipe_safe pipe_live demo_transfer(1) demo_target_def
      demo_fs_storage demo_initial, of "(demo_cut, [])"]
  by (simp add: demo_cut_def demo_missing)

lemma pipe_connect:
  "connect_to pipe_api kInvalidSocket e w = (True, 3, w)"
  "bind_and_listen pipe_api kInvalidSocket kDefaultTransferTcpPort 16 w = (True, 3, w)"
  "accept_client pipe_api 3 w = (3, w)"
  by (simp_all add: connect_to_def bind_and_listen_def accept_client_def sock_close_def
      set_reuse_address_def pipe_api_def is_valid_socket_def kInvalidSocket_def)

lemma pipe_resolve:
  "sys_getaddrinfo pipe_api h p f k t w =
     (0, [\<lparr>ai_family = AF_INET, ai_socktype = k, ai_protocol = t, ai_addr = Sockaddr_in 0 0\<rparr>], w)"
  by (simp add: pipe_api_def)

end
