(* ===== verification/Tcp_Streams.thy ===== *)
theory Tcp_Streams
  imports Pipe
begin

text \<open>
  What \<open>TcpSocket\<close> promises its callers, read off the interpretation of the stream interface,
  and which of the resolved addresses \<open>connect_to\<close> ends up with.
\<close>

text \<open>
  C22: a call of \<open>send_all\<close> ends on every connection: it returns true or false, or \<open>SIGPIPE\<close> ends
  the process inside it, for which the model has false and the record \<open>sys_killed\<close>. In all three
  cases what has gone out is a prefix of the message, in order and without repetition, whatever
  portions the system accepts, and nothing is read. True is returned exactly if the prefix is the
  whole message, and then the process is alive if it has sent anything; on a connection that does
  not fail it is returned. The message is shorter than \<open>2 ^ 63\<close> bytes.
\<close>

theorem send_all_sends_prefix:
  assumes "link_safe c" and "length data < 2 ^ 63"
  shows "\<exists>ok k w'. send_all (lk_api c) (lk_sock c) data w = Some (ok, w') \<and>
    lk_out c w' = lk_out c w @ take k data \<and> k \<le> length data \<and> (ok \<longleftrightarrow> k = length data) \<and>
    lk_in c w' = lk_in c w \<and> (ok \<longrightarrow> w' = w \<or> \<not> sys_killed (lk_api c) w') \<and> (link_live c \<longrightarrow> ok)"
proof -
  obtain ok k w' where *: "send_all (lk_api c) (lk_sock c) data w = Some (ok, w')"
    "lk_out c w' = lk_out c w @ take k data" "k \<le> length data" "ok = (k = length data)"
    "lk_in c w' = lk_in c w" "link_live c \<longrightarrow> ok"
    using tcp.send_law [OF assms, of w] unfolding link_send_def by blast
  moreover have "ok \<longrightarrow> w' = w \<or> \<not> sys_killed (lk_api c) w'"
    using *(1) by (cases ok) (auto dest: send_all_alive)
  ultimately show ?thesis by blast
qed

theorem send_all_sends_prefix_witness:
  "(\<exists>w'. send_all pipe_api 3 [1, 2, 3] ([], []) = Some (True, w') \<and> snd w' = [1, 2, 3]) \<and>
   (\<exists>w'. send_all gone_api 3 [1, 2, 3] (([], []), False) = Some (False, w') \<and> snd w')"
proof
  show "\<exists>w'. send_all pipe_api 3 [1, 2, 3] ([], []) = Some (True, w') \<and> snd w' = [1, 2, 3]"
    using send_all_sends_prefix [OF pipe_safe, of "[1, 2, 3]" "([], [])"] pipe_live by auto
  show "\<exists>w'. send_all gone_api 3 [1, 2, 3] (([], []), False) = Some (False, w') \<and> snd w'"
    using send_all_sends_prefix [OF gone_safe, of "[1, 2, 3]" "(([], []), False)"]
      gone_send [of "[1, 2, 3]"] by auto
qed

text \<open>
  C23: \<open>recv_exact\<close> returns on every connection. The bytes it delivers are the next ones of the
  stream, in order, and exactly those are consumed; success means that the requested number has
  been delivered, and it is certain on a connection that does not fail and on which so many
  bytes arrive. Nothing is sent.
\<close>

theorem recv_exact_reads_prefix:
  assumes "link_safe c" and "n < 2 ^ 63"
  shows "\<exists>ok d w'. recv_exact (lk_api c) (lk_sock c) n w = Some (ok, d, w') \<and>
    lk_in c w = d @ lk_in c w' \<and> length d \<le> n \<and> (ok \<longleftrightarrow> length d = n) \<and>
    lk_out c w' = lk_out c w \<and> (link_live c \<and> n \<le> length (lk_in c w) \<longrightarrow> ok)"
  using tcp.recv_law [OF assms, of w] unfolding link_recv_def by blast

theorem recv_exact_reads_prefix_witness:
  "\<exists>w'. recv_exact pipe_api 3 2 ([1, 2, 3], []) = Some (True, [1, 2], w') \<and> fst w' = [3]"
proof -
  let ?w = "([1, 2, 3], []) :: pipe"
  have cap: "(2 :: nat) < 2 ^ 63"
    by simp
  obtain ok d w' where *: "recv_exact pipe_api 3 2 ?w = Some (ok, d, w')" "fst ?w = d @ fst w'"
    "ok \<longleftrightarrow> length d = 2" "link_live pipe_link \<and> 2 \<le> length (fst ?w) \<longrightarrow> ok"
    using recv_exact_reads_prefix [OF pipe_safe cap, of ?w, unfolded pipe_simps] by blast
  have "ok"
    using *(4) pipe_live by simp
  moreover have len: "length d = 2"
    using *(3) \<open>ok\<close> by simp
  moreover have "d = take 2 (fst ?w)" "fst w' = drop 2 (fst ?w)"
    unfolding *(2) using len by simp_all
  ultimately show ?thesis
    using *(1) by simp
qed

subsection \<open>Which address is connected\<close>

text \<open>
  \<open>attempts\<close> is the specification: the list of addresses is tried from the front, each with a
  socket of its own, and the first that accepts the connection is kept.
\<close>

inductive attempts :: "'w sock_api \<Rightarrow> addrinfo list \<Rightarrow> 'w \<Rightarrow> (addrinfo \<times> socket_t) option \<Rightarrow> 'w \<Rightarrow> bool"
  for api where
  exhausted: "attempts api [] w None w"
| no_socket: "\<lbrakk>sys_socket api (ai_family c) (ai_socktype c) (ai_protocol c) w = (s, w1);
    \<not> is_valid_socket s; attempts api cs w1 r w'\<rbrakk> \<Longrightarrow> attempts api (c # cs) w r w'"
| refused: "\<lbrakk>sys_socket api (ai_family c) (ai_socktype c) (ai_protocol c) w = (s, w1);
    is_valid_socket s; sys_connect api s (ai_addr c) w1 = (n, w2); n \<noteq> 0;
    attempts api cs (sys_close api s w2) r w'\<rbrakk> \<Longrightarrow> attempts api (c # cs) w r w'"
| accepted: "\<lbrakk>sys_socket api (ai_family c) (ai_socktype c) (ai_protocol c) w = (s, w1);
    is_valid_socket s; sys_connect api s (ai_addr c) w1 = (0, w2)\<rbrakk>
    \<Longrightarrow> attempts api (c # cs) w (Some (c, s)) w2"

inductive_cases attemptsE: "attempts api cs w r w'"

lemma connect_candidates_attempts:
  "connect_candidates api cs w = (r, w') \<Longrightarrow>
     \<exists>q. attempts api cs w q w' \<and> r = map_option snd q"
proof (induction cs arbitrary: w)
  case Nil
  then show ?case
    by (auto intro!: exI [of _ None] attempts.exhausted)
next
  case (Cons c cs)
  obtain s w1 where sock: "sys_socket api (ai_family c) (ai_socktype c) (ai_protocol c) w = (s, w1)"
    by (metis surj_pair)
  obtain n w2 where conn: "sys_connect api s (ai_addr c) w1 = (n, w2)"
    by (metis surj_pair)
  show ?case
  proof (cases "is_valid_socket s")
    case False
    then have "connect_candidates api cs w1 = (r, w')"
      using Cons.prems by (simp add: sock)
    then show ?thesis
      using Cons.IH attempts.no_socket [OF sock False] by blast
  next
    case True
    show ?thesis
    proof (cases "n = 0")
      case zero: True
      then have "r = Some s" "w' = w2"
        using Cons.prems by (simp_all add: sock conn True)
      then show ?thesis
        using attempts.accepted [OF sock True] conn zero by (intro exI [of _ "Some (c, s)"]) simp
    next
      case False
      then have "connect_candidates api cs (sys_close api s w2) = (r, w')"
        using Cons.prems by (simp add: sock conn True close_socket_def)
      then show ?thesis
        using Cons.IH attempts.refused [OF sock True conn False] by blast
    qed
  qed
qed

lemma attempts_member: "attempts api cs w q w' \<Longrightarrow> q = Some (c, s) \<Longrightarrow> c \<in> set cs \<and> is_valid_socket s"
  by (induction rule: attempts.induct) auto

text \<open>
  C38: a fresh socket connects to the first of the resolved addresses that accepts. The result is
  false exactly when resolving fails or no address accepts, and then the object stays closed.
\<close>

theorem connect_to_first_accepting:
  assumes "connect_to api kInvalidSocket e w = (ok, s, w')"
    and "sys_getaddrinfo api (ep_host e) (to_string (ep_port e)) AF_UNSPEC SOCK_STREAM IPPROTO_TCP w =
      (r, results, w1)"
  shows "if r \<noteq> 0 then \<not> ok \<and> s = kInvalidSocket \<and> w' = w1
    else if ok then \<exists>c \<in> set results. attempts api results w1 (Some (c, s)) w' \<and> is_valid_socket s
    else attempts api results w1 None w' \<and> s = kInvalidSocket"
proof -
  obtain q w2 where cand: "connect_candidates api results w1 = (q, w2)"
    by (metis surj_pair)
  obtain x where x: "attempts api results w1 x w2" "q = map_option snd x"
    using connect_candidates_attempts [OF cand] by blast
  have start: "sock_close api kInvalidSocket w = (kInvalidSocket, w)"
    by (simp add: sock_close_def is_valid_socket_def)
  show ?thesis
  proof (cases x)
    case None
    then show ?thesis
      using assms x cand by (auto simp: connect_to_def start split: if_splits)
  next
    case (Some cs)
    then show ?thesis
      using assms x cand attempts_member [OF x(1), of "fst cs" "snd cs"]
      by (cases cs) (auto simp: connect_to_def start split: if_splits)
  qed
qed

theorem connect_to_first_accepting_witness:
  "\<exists>c. attempts pipe_api [c] ([], []) (Some (c, 3)) ([], [])"
  using connect_to_first_accepting [OF pipe_connect(1) pipe_resolve, of "([], [])"] by auto

end
