(* ===== verification/Udp_Socket.thy ===== *)
theory Udp_Socket
  imports Sockets "HOL-Library.Signed_Division"
begin

text \<open>
  The class \<open>UdpSocket\<close> of \<open>src/net/udp_socket.cpp\<close> with \<open>is_timeout_error\<close>, in the POSIX
  variant. A socket object is its descriptor, as for TCP. \<open>send_to\<close> reads the first address of
  the resolver's list without looking whether there is one; an empty list would be a null
  pointer and is \<^const>\<open>None\<close>. A received datagram is stored at the front of the caller's buffer.
  The two error numbers are those of Linux, where they are equal.
\<close>

definition EAGAIN :: int where
  "EAGAIN = 11"

definition EWOULDBLOCK :: int where
  "EWOULDBLOCK = 11"

definition is_timeout_error :: "int \<Rightarrow> bool" where
  "is_timeout_error error_code \<longleftrightarrow> error_code = EAGAIN \<or> error_code = EWOULDBLOCK"

record UdpReceiveResult =
  ur_ok :: bool
  ur_timed_out :: bool
  ur_bytes_received :: nat
  ur_remote :: Endpoint

definition UdpReceiveResult_init :: UdpReceiveResult where
  "UdpReceiveResult_init =
     \<lparr>ur_ok = False, ur_timed_out = False, ur_bytes_received = 0,
      ur_remote = \<lparr>ep_host = [], ep_port = 0\<rparr>\<rparr>"

definition endpoint_from_sockaddr :: "'w sock_api \<Rightarrow> sockaddr \<Rightarrow> Endpoint" where
  "endpoint_from_sockaddr api storage =
     (case storage of
        Sockaddr_in addr port \<Rightarrow> \<lparr>ep_host = sys_inet_ntop api storage, ep_port = port\<rparr>
      | Sockaddr_in6 addr port \<Rightarrow> \<lparr>ep_host = sys_inet_ntop api storage, ep_port = port\<rparr>
      | Sockaddr_other \<Rightarrow> \<lparr>ep_host = [], ep_port = 0\<rparr>)"

definition udp_open :: "'w sock_api \<Rightarrow> socket_t \<Rightarrow> 'w \<Rightarrow> bool \<times> socket_t \<times> 'w" where
  "udp_open api s w =
     (let (s, w) = sock_close api s w;
          (s, w) = sys_socket api AF_INET SOCK_DGRAM IPPROTO_UDP w
      in if \<not> is_valid_socket s then (False, s, w) else (True, s, w))"

definition udp_bind_to :: "'w sock_api \<Rightarrow> socket_t \<Rightarrow> u16 \<Rightarrow> 'w \<Rightarrow> bool \<times> socket_t \<times> 'w" where
  "udp_bind_to api s port w =
     (let (ready, s, w) = (if is_valid_socket s then (True, s, w) else udp_open api s w)
      in if \<not> ready then (False, s, w)
         else
           let (ok, w) = set_reuse_address api s w
           in if \<not> ok then let (s, w) = sock_close api s w in (False, s, w)
              else
                let (r, w) = sys_bind api s (Sockaddr_in 0 port) w
                in if r \<noteq> 0 then let (s, w) = sock_close api s w in (False, s, w)
                   else (True, s, w))"

definition udp_enable_broadcast :: "'w sock_api \<Rightarrow> socket_t \<Rightarrow> 'w \<Rightarrow> bool \<times> 'w" where
  "udp_enable_broadcast api s w =
     (if \<not> is_valid_socket s then (False, w)
      else let (r, w) = sys_setsockopt api s SO_BROADCAST w in (r = 0, w))"

text \<open>The timeout is in milliseconds; C++ division truncates towards zero.\<close>

definition udp_set_receive_timeout :: "'w sock_api \<Rightarrow> socket_t \<Rightarrow> int \<Rightarrow> 'w \<Rightarrow> bool \<times> 'w" where
  "udp_set_receive_timeout api s timeout w =
     (if \<not> is_valid_socket s then (False, w)
      else
        let (r, w) = sys_setsockopt api s
              (SO_RCVTIMEO (timeout sdiv 1000) ((timeout smod 1000) * 1000)) w
        in (r = 0, w))"

definition udp_send_to ::
    "'w sock_api \<Rightarrow> socket_t \<Rightarrow> bytes \<Rightarrow> Endpoint \<Rightarrow> 'w \<Rightarrow> (bool \<times> 'w) option" where
  "udp_send_to api s data endpoint w =
     (if \<not> is_valid_socket s then Some (False, w)
      else
        let port = to_string (ep_port endpoint);
            (resolve_result, results, w) =
              sys_getaddrinfo api (ep_host endpoint) port AF_INET SOCK_DGRAM IPPROTO_UDP w
        in if resolve_result \<noteq> 0 then Some (False, w)
           else
             case results of
               [] \<Rightarrow> None
             | result # _ \<Rightarrow>
                 let send_size = unat (min (of_nat (length data)) int_max);
                     (sent, w) = sys_sendto api s (take send_size data) (ai_addr result) w
                 in if sent < 0 then Some (False, w)
                    else if (of_int sent :: u64) \<noteq> of_nat (length data) then Some (False, w)
                    else Some (True, w))"

definition udp_receive_from ::
    "'w sock_api \<Rightarrow> socket_t \<Rightarrow> bytes \<Rightarrow> 'w \<Rightarrow> UdpReceiveResult \<times> bytes \<times> 'w" where
  "udp_receive_from api s buffer w =
     (let result = UdpReceiveResult_init
      in if \<not> is_valid_socket s then (result, buffer, w)
         else
           let receive_size = unat (min (of_nat (length buffer)) int_max);
               (received, d, remote_address, w) = sys_recvfrom api s receive_size w
           in if received < 0 then
                if is_timeout_error (sys_errno api w)
                then (result\<lparr>ur_timed_out := True\<rparr>, buffer, w)
                else (result, buffer, w)
              else
                (result\<lparr>ur_ok := True, ur_bytes_received := nat received,
                        ur_remote := endpoint_from_sockaddr api remote_address\<rparr>,
                 d @ drop (length d) buffer, w))"

subsection \<open>What the code relies on\<close>

text \<open>
  \<open>sent w\<close> are the datagrams that have left the host on the socket, oldest first. A call sends
  one datagram with a prefix of the data or reports failure and sends nothing; receiving
  stores at most as many bytes as the caller has room for.
\<close>

definition datagram_safe ::
    "'w sock_api \<Rightarrow> socket_t \<Rightarrow> ('w \<Rightarrow> (sockaddr \<times> bytes) list) \<Rightarrow> bool" where
  "datagram_safe api s sent \<longleftrightarrow>
     (\<forall>bs a w n w'. sys_sendto api s bs a w = (n, w') \<longrightarrow>
        n < 0 \<and> sent w' = sent w \<or>
        0 \<le> n \<and> n \<le> int (length bs) \<and> sent w' = sent w @ [(a, take (nat n) bs)]) \<and>
     (\<forall>h p f k t w r l w'. sys_getaddrinfo api h p f k t w = (r, l, w') \<longrightarrow>
        sent w' = sent w \<and> (r = 0 \<longrightarrow> l \<noteq> [])) \<and>
     (\<forall>k w n d a w'. sys_recvfrom api s k w = (n, d, a, w') \<longrightarrow>
        sent w' = sent w \<and> (0 \<le> n \<longrightarrow> n = int (length d) \<and> length d \<le> k))"

lemma datagram_safe_sendto:
  "datagram_safe api s sent \<Longrightarrow> sys_sendto api s bs a w = (n, w') \<Longrightarrow>
     n < 0 \<and> sent w' = sent w \<or>
     0 \<le> n \<and> n \<le> int (length bs) \<and> sent w' = sent w @ [(a, take (nat n) bs)]"
  unfolding datagram_safe_def by blast

lemma datagram_safe_resolve:
  "datagram_safe api s sent \<Longrightarrow> sys_getaddrinfo api h p f k t w = (r, l, w') \<Longrightarrow>
     sent w' = sent w \<and> (r = 0 \<longrightarrow> l \<noteq> [])"
  unfolding datagram_safe_def by blast

lemma datagram_safe_recvfrom:
  "datagram_safe api s sent \<Longrightarrow> sys_recvfrom api s k w = (n, d, a, w') \<Longrightarrow>
     sent w' = sent w \<and> (0 \<le> n \<longrightarrow> n = int (length d) \<and> length d \<le> k)"
  unfolding datagram_safe_def by blast

subsection \<open>Sending and receiving\<close>

lemma min_int_max: "n < 2 ^ 63 \<Longrightarrow> unat (min (of_nat n :: u64) int_max) = min n chunk_limit"
  by (cases "n = 0") (simp_all add: chunk_size_eq [of 0 n, simplified] chunk_limit_def)

lemma sent_equals_size:
  assumes "0 \<le> k" and "k \<le> int n" and "n < 2 ^ 63"
  shows "(of_int k :: u64) = of_nat n \<longleftrightarrow> nat k = n"
proof -
  have "(of_int k :: u64) = of_nat (nat k)"
    using assms(1) by simp
  moreover have "unat (of_nat (nat k) :: u64) = nat k" "unat (of_nat n :: u64) = n"
    using assms by (intro unat_of_nat_u64; simp)+
  ultimately show ?thesis
    by (metis word_unat_eq_iff)
qed

text \<open>
  C37: sending a datagram always returns. It reports success exactly when the datagram that has
  left the host is the whole message; after a failure at most one truncated datagram has left.
  A message of more than \<open>2 ^ 31 - 1\<close> bytes is never reported as sent.
\<close>

theorem udp_send_to_exact:
  assumes "datagram_safe api s sent" and "length data < 2 ^ 63"
  shows "\<exists>ok w'. udp_send_to api s data endpoint w = Some (ok, w') \<and>
    (if ok then (\<exists>a. sent w' = sent w @ [(a, data)]) \<and> length data < 2 ^ 31 \<and> is_valid_socket s
     else sent w' = sent w \<or> (\<exists>a n. n < length data \<and> sent w' = sent w @ [(a, take n data)]))"
proof (cases "is_valid_socket s")
  case False
  then show ?thesis by (intro exI [of _ False] exI [of _ w]) (simp add: udp_send_to_def)
next
  case valid: True
  obtain r l w1 where res: "sys_getaddrinfo api (ep_host endpoint) (to_string (ep_port endpoint))
      AF_INET SOCK_DGRAM IPPROTO_UDP w = (r, l, w1)"
    by (metis prod_cases3)
  note res' = datagram_safe_resolve [OF assms(1) res]
  show ?thesis
  proof (cases "r = 0")
    case False
    then show ?thesis
      using res' by (intro exI [of _ False] exI [of _ w1]) (simp add: udp_send_to_def valid res)
  next
    case True
    then obtain a l' where l: "l = a # l'"
      using res' by (cases l) auto
    define bs where "bs = take (min (length data) chunk_limit) data"
    obtain n w2 where send: "sys_sendto api s bs (ai_addr a) w1 = (n, w2)"
      by (cases "sys_sendto api s bs (ai_addr a) w1")
    have run: "udp_send_to api s data endpoint w =
        Some (0 \<le> n \<and> (of_int n :: u64) = of_nat (length data), w2)"
      using send True by (simp add: udp_send_to_def valid res l min_int_max [OF assms(2)] bs_def)
    have len: "length bs \<le> length data" "length bs \<le> chunk_limit"
      by (simp_all add: bs_def)
    consider "n < 0" "sent w2 = sent w"
      | "0 \<le> n" "n \<le> int (length bs)" "sent w2 = sent w @ [(ai_addr a, take (nat n) bs)]"
      using datagram_safe_sendto [OF assms(1) send] res' by auto
    then show ?thesis
    proof cases
      case 1
      then show ?thesis
        using run by (intro exI [of _ False] exI [of _ w2]) simp
    next
      case 2
      then have eq: "(of_int n :: u64) = of_nat (length data) \<longleftrightarrow> nat n = length data"
        using len assms(2) by (intro sent_equals_size) simp_all
      have n: "nat n \<le> length bs"
        using 2(2) by simp
      have data: "take (nat n) bs = take (nat n) data"
        using n by (simp add: bs_def)
      show ?thesis
      proof (cases "nat n = length data")
        case True
        moreover have "length data < 2 ^ 31"
          using True n len(2) by (simp add: chunk_limit_def)
        moreover have "\<exists>a. sent w2 = sent w @ [(a, data)]"
          using 2(3) True unfolding data by simp
        ultimately show ?thesis
          using run 2(1) eq valid by (intro exI [of _ True] exI [of _ w2]) simp
      next
        case False
        then have "nat n < length data"
          using n len(1) by simp
        then have "\<exists>a n. n < length data \<and> sent w2 = sent w @ [(a, take n data)]"
          using 2(3) by (auto simp: data)
        then show ?thesis
          using run eq False by (intro exI [of _ False] exI [of _ w2]) simp
      qed
    qed
  qed
qed

lemma udp_receive_from_cases:
  assumes "datagram_safe api s sent" and "length buffer < 2 ^ 31"
    and "udp_receive_from api s buffer w = (r, buffer', w')"
  shows "sent w' = sent w \<and> length buffer' = length buffer \<and>
    (if ur_ok r then \<not> ur_timed_out r \<and> is_valid_socket s \<and>
        (\<exists>d a. sys_recvfrom api s (length buffer) w = (int (length d), d, a, w') \<and>
           ur_bytes_received r = length d \<and> length d \<le> length buffer \<and>
           ur_remote r = endpoint_from_sockaddr api a \<and> buffer' = d @ drop (length d) buffer)
     else buffer' = buffer \<and> ur_bytes_received r = 0 \<and>
        ur_timed_out r = (is_valid_socket s \<and> is_timeout_error (sys_errno api w')))"
proof (cases "is_valid_socket s")
  case False
  then show ?thesis
    using assms(3) by (auto simp: udp_receive_from_def UdpReceiveResult_init_def)
next
  case True
  have sz: "unat (min (of_nat (length buffer) :: u64) int_max) = length buffer"
    using assms(2) by (subst min_int_max) (simp_all add: chunk_limit_def)
  obtain n d a w1 where recv: "sys_recvfrom api s (length buffer) w = (n, d, a, w1)"
    by (metis prod_cases4)
  note law = datagram_safe_recvfrom [OF assms(1) recv]
  show ?thesis
    using assms(3) True law
    by (auto simp: udp_receive_from_def sz recv UdpReceiveResult_init_def Let_def split: if_splits)
qed

end
