(* ===== verification/Host.thy ===== *)
theory Host
  imports Udp_Socket
begin

text \<open>
  What the two discovery programs use of their host beside sockets: the steady clock in
  nanoseconds, the host name, sleeping, the console, and the flag \<open>g_running\<close>, which a signal
  handler clears at any time. As with sockets these are parameters, functions on the world.
  \<open>h_gethostname n\<close> gives the return code and the first \<open>n\<close> bytes of the buffer.
\<close>

record 'w host =
  h_api :: "'w sock_api"
  h_now :: "'w \<Rightarrow> int \<times> 'w"
  h_gethostname :: "nat \<Rightarrow> 'w \<Rightarrow> int \<times> string \<times> 'w"
  h_sleep :: "int \<Rightarrow> 'w \<Rightarrow> 'w"
  h_print :: "string \<Rightarrow> 'w \<Rightarrow> 'w"
  h_running :: "'w \<Rightarrow> bool"

definition seconds :: "int \<Rightarrow> int" where
  "seconds n = n * 1000000000"

text \<open>The characters of a zero-filled array of 256, read as a C string.\<close>

definition c_string :: "string \<Rightarrow> string" where
  "c_string buf = takeWhile (\<lambda>c. c \<noteq> CHR 0x00) (take 255 buf)"

end
