(* ===== verification/Discovery.thy ===== *)
theory Discovery
  imports Text Protocol
begin

text \<open>
  \<open>src/discovery/discovery_message.cpp\<close> and the struct \<open>Peer\<close>: the announcement that a
  broadcaster sends and a listener parses. \<open>now\<close> is the clock reading the parser takes.
  \<open>unsigned long\<close> has 64 bits.
\<close>

record Peer =
  pe_name :: string
  pe_ip_address :: string
  pe_transfer_port :: u16
  pe_last_seen :: int
  pe_protocol_version :: u16

definition kDiscoveryMarker :: string where
  "kDiscoveryMarker = ''PACKETBRIDGE_DISCOVER''"

abbreviation bar :: char where
  "bar \<equiv> CHR ''|''"

function split_loop :: "string \<Rightarrow> string list \<Rightarrow> string list" where
  "split_loop stream parts =
     (case getline bar stream of
        None \<Rightarrow> parts
      | Some (part, rest) \<Rightarrow> split_loop rest (parts @ [part]))"
  by pat_completeness auto
termination
  by (relation "measure (length \<circ> fst)") (auto dest: getline_shorter)

declare split_loop.simps [simp del]

definition split_message :: "string \<Rightarrow> string list" where
  "split_message message = split_loop message []"

definition parse_unsigned :: "string \<Rightarrow> u64 option" where
  "parse_unsigned value =
     (if value = [] then None
      else if \<not> list_all is_digit value then None
      else case stoull value of Inl e \<Rightarrow> None | Inr v \<Rightarrow> Some v)"

definition is_valid_peer_name :: "string \<Rightarrow> bool" where
  "is_valid_peer_name peer_name \<longleftrightarrow>
     peer_name \<noteq> [] \<and> length peer_name \<le> kMaxPeerNameLength \<and> bar \<notin> set peer_name"

definition build_discovery_message :: "string \<Rightarrow> u16 \<Rightarrow> string" where
  "build_discovery_message peer_name transfer_port =
     kDiscoveryMarker @ ''|'' @ to_string kProtocolVersion @ ''|'' @ peer_name @ ''|'' @
     to_string transfer_port"

definition parse_discovery_message :: "string \<Rightarrow> string \<Rightarrow> int \<Rightarrow> Peer option" where
  "parse_discovery_message message sender_ip now =
     (let parts = split_message message
      in if length parts \<noteq> 4 \<or> parts ! 0 \<noteq> kDiscoveryMarker then None
         else
           case parse_unsigned (parts ! 1) of
             None \<Rightarrow> None
           | Some version \<Rightarrow>
               if version \<noteq> ucast kProtocolVersion then None
               else if \<not> is_valid_peer_name (parts ! 2) then None
               else
                 case parse_unsigned (parts ! 3) of
                   None \<Rightarrow> None
                 | Some transfer_port \<Rightarrow>
                     if transfer_port = 0 \<or> transfer_port > 65535 then None
                     else Some \<lparr>pe_name = parts ! 2, pe_ip_address = sender_ip,
                                pe_transfer_port = ucast transfer_port, pe_last_seen = now,
                                pe_protocol_version = ucast version\<rparr>)"

subsection \<open>Splitting\<close>

lemma split_loop_acc: "split_loop s acc = acc @ split_loop s []"
proof (induction "length s" arbitrary: s acc rule: less_induct)
  case less
  show ?case
  proof (cases "getline bar s")
    case None
    then show ?thesis by (subst (1 2) split_loop.simps) simp
  next
    case (Some pr)
    obtain p r where pr: "pr = (p, r)" by (cases pr)
    then have "length r < length s"
      using Some getline_shorter by simp
    then have "split_loop r ([] @ [p]) = [p] @ split_loop r []"
      and "split_loop r (acc @ [p]) = (acc @ [p]) @ split_loop r []"
      using less.hyps [of r "[p]"] less.hyps [of r "acc @ [p]"] by simp_all
    then show ?thesis
      using Some pr by (subst (1 2) split_loop.simps) simp
  qed
qed

lemma split_message_step:
  "split_message s = (case getline bar s of None \<Rightarrow> [] | Some (p, r) \<Rightarrow> p # split_message r)"
proof (cases "getline bar s")
  case None
  then show ?thesis
    unfolding split_message_def by (subst split_loop.simps) simp
next
  case (Some pr)
  obtain p r where pr: "pr = (p, r)" by (cases pr)
  then show ?thesis
    using Some split_loop_acc [of r "[p]"] unfolding split_message_def
    by (subst split_loop.simps) simp
qed

lemma split_Nil_iff: "split_message s = [] \<longleftrightarrow> s = []"
  by (subst split_message_step) (auto simp: getline_None_iff split: option.split)

lemma split_Cons_iff:
  "split_message s = p # ps \<longleftrightarrow>
     bar \<notin> set p \<and>
     ((\<exists>r. s = p @ bar # r \<and> split_message r = ps) \<or> s = p \<and> p \<noteq> [] \<and> ps = [])"
proof -
  have "split_message s = p # ps \<longleftrightarrow> (\<exists>r. getline bar s = Some (p, r) \<and> split_message r = ps)"
    by (subst split_message_step) (auto split: option.split)
  then show ?thesis
    by (auto simp: getline_Some_iff split_Nil_iff)
qed

text \<open>The messages with four parts: the last one may be followed by one more bar.\<close>

lemma split_four_iff:
  "split_message s = [a, b, c, d] \<longleftrightarrow>
     bar \<notin> set a \<and> bar \<notin> set b \<and> bar \<notin> set c \<and> bar \<notin> set d \<and>
     (s = a @ bar # b @ bar # c @ bar # d @ [bar] \<or> s = a @ bar # b @ bar # c @ bar # d \<and> d \<noteq> [])"
  by (auto simp: split_Cons_iff split_Nil_iff)

subsection \<open>Numbers\<close>

definition decimal :: "string \<Rightarrow> int \<Rightarrow> bool" where
  "decimal s n \<longleftrightarrow> s \<noteq> [] \<and> list_all is_digit s \<and> dec_value s = n"

lemma dec_value_nonneg: "list_all is_digit s \<Longrightarrow> 0 \<le> dec_value s"
  by (induction s rule: rev_induct) (auto simp: dec_value_snoc is_digit_def Let_def dec_value_def)

lemma parse_unsigned_iff: "parse_unsigned s = Some v \<longleftrightarrow> decimal s (uint v)"
proof (cases "s \<noteq> [] \<and> list_all is_digit s")
  case True
  then have "stoull s = (if dec_value s \<ge> 2 ^ 64 then Inl Out_of_range else Inr (of_int (dec_value s)))"
    by (intro stoull_digits) (auto simp: list_all_iff)
  moreover have "0 \<le> dec_value s"
    using True dec_value_nonneg by blast
  moreover have "uint (of_int n :: u64) = n" if "0 \<le> n" "n < 2 ^ 64" for n
    using that by (simp add: uint_word_of_int)
  moreover have "uint v < 2 ^ 64"
    using uint_lt2p [of v] by simp
  ultimately show ?thesis
    using True by (auto simp: parse_unsigned_def decimal_def)
next
  case False
  then show ?thesis by (auto simp: parse_unsigned_def decimal_def)
qed

lemma decimal_to_string: "decimal (to_string w) (uint w)"
  by (simp add: decimal_def to_string_nonempty list_all_iff digits_to_string dec_value_to_string)

lemma no_bar_in_digits: "list_all is_digit s \<Longrightarrow> bar \<notin> set s"
  using digit_not_special(5) by (fastforce simp: list_all_iff)

lemma uint_ucast_port: "uint (ucast (port :: u16) :: u64) = uint port"
  using uint_lt2p [of port] by (simp add: unsigned_ucast_eq take_bit_int_eq_self)

lemma unat_ucast_port: "unat (ucast (port :: u16) :: u64) = unat port"
  using unat_bound [of port] by (simp add: unsigned_ucast_eq take_bit_nat_eq_self)

subsection \<open>Parsing\<close>

lemma ucast_port:
  fixes v :: u64
  assumes "v \<noteq> 0" and "v \<le> 65535"
  shows "uint (ucast v :: u16) = uint v" and "(ucast v :: u16) \<noteq> 0"
proof -
  have "unat v \<le> 65535"
    using assms(2) by (simp add: word_le_nat_alt)
  then have eq: "unat (ucast v :: u16) = unat v"
    by (simp add: unsigned_ucast_eq take_bit_nat_eq_self)
  then show "uint (ucast v :: u16) = uint v"
    by (metis uint_nat)
  show "(ucast v :: u16) \<noteq> 0"
    using eq assms(1) by (metis unat_0 unat_eq_0)
qed

lemma parse_discovery_Some:
  assumes "parse_discovery_message msg ip now = Some p"
  shows "is_valid_peer_name (pe_name p) \<and> pe_ip_address p = ip \<and> pe_last_seen p = now \<and>
    pe_transfer_port p \<noteq> 0 \<and> pe_protocol_version p = kProtocolVersion"
  using assms
  by (auto simp: parse_discovery_message_def Let_def ucast_port(2) not_less ucast_down_ucast_id is_down
      split: if_splits option.splits)

text \<open>
  C36: which datagrams the listener accepts as an announcement and what it makes of them: the
  marker, the number 1, a name of 1 to 64 characters without a bar, and a port from 1 to 65535,
  separated by bars; numbers may have leading zeros and one bar may follow at the end. Every
  other text is rejected.
\<close>

theorem discovery_message_accepted_iff:
  "parse_discovery_message msg ip now = Some p \<longleftrightarrow>
     (\<exists>v port tail.
        msg = kDiscoveryMarker @ ''|'' @ v @ ''|'' @ pe_name p @ ''|'' @ port @ tail \<and> tail \<in> {[], ''|''} \<and>
        decimal v 1 \<and> decimal port (uint (pe_transfer_port p)) \<and> pe_transfer_port p \<noteq> 0 \<and>
        is_valid_peer_name (pe_name p) \<and> pe_ip_address p = ip \<and> pe_last_seen p = now \<and>
        pe_protocol_version p = 1)"
  (is "?l \<longleftrightarrow> ?r")
proof
  assume l: ?l
  then obtain a b c d where parts: "split_message msg = [a, b, c, d]"
    unfolding parse_discovery_message_def
    by (auto simp: Let_def length_Suc_conv numeral_eq_Suc split: if_splits)
  then obtain ver port where *: "a = kDiscoveryMarker" "parse_unsigned b = Some ver"
    "ver = ucast kProtocolVersion" "is_valid_peer_name c" "parse_unsigned d = Some port" "port \<noteq> 0"
    "port \<le> 65535"
    "p = \<lparr>pe_name = c, pe_ip_address = ip, pe_transfer_port = ucast port, pe_last_seen = now,
          pe_protocol_version = ucast ver\<rparr>"
    using l by (auto simp: parse_discovery_message_def Let_def split: if_splits option.splits)
  have up: "uint (ucast port :: u16) = uint port" and nz: "(ucast port :: u16) \<noteq> 0"
    using ucast_port [OF *(6,7)] by simp_all
  have "decimal b 1"
    using *(2,3) by (simp add: parse_unsigned_iff kProtocolVersion_def)
  moreover have "decimal d (uint (ucast port :: u16))"
    using *(5) up by (simp add: parse_unsigned_iff)
  moreover have "(ucast ver :: u16) = 1"
    using *(3) by (simp add: kProtocolVersion_def)
  moreover have "\<exists>tl \<in> {[], ''|''}. msg = a @ ''|'' @ b @ ''|'' @ c @ ''|'' @ d @ tl"
    using parts by (auto simp: split_four_iff)
  then obtain tl where "tl \<in> {[], ''|''}" "msg = a @ ''|'' @ b @ ''|'' @ c @ ''|'' @ d @ tl"
    by blast
  ultimately show ?r
    using *(1,4,8) nz by (intro exI [of _ b] exI [of _ d] exI [of _ tl]) simp
next
  assume ?r
  then obtain v port tail where *:
    "msg = kDiscoveryMarker @ ''|'' @ v @ ''|'' @ pe_name p @ ''|'' @ port @ tail" "tail \<in> {[], ''|''}"
    "decimal v 1" "decimal port (uint (pe_transfer_port p))" "pe_transfer_port p \<noteq> 0"
    "is_valid_peer_name (pe_name p)" "pe_ip_address p = ip" "pe_last_seen p = now"
    "pe_protocol_version p = 1"
    by blast
  let ?w = "ucast (pe_transfer_port p) :: u64"
  have w: "uint ?w = uint (pe_transfer_port p)" "unat ?w = unat (pe_transfer_port p)"
    by (simp_all add: uint_ucast_port unat_ucast_port)
  have "bar \<notin> set kDiscoveryMarker" "bar \<notin> set v" "bar \<notin> set port" "bar \<notin> set (pe_name p)" "port \<noteq> []"
    using *(3,4,6) no_bar_in_digits
    by (auto simp: kDiscoveryMarker_def decimal_def is_valid_peer_name_def)
  then have parts: "split_message msg = [kDiscoveryMarker, v, pe_name p, port]"
    using *(1,2) by (auto simp: split_four_iff)
  have "parse_unsigned v = Some (ucast kProtocolVersion)"
    using *(3) by (simp add: parse_unsigned_iff kProtocolVersion_def)
  moreover have "parse_unsigned port = Some ?w"
    using *(4) by (simp add: parse_unsigned_iff uint_ucast_port)
  moreover have "?w \<noteq> 0"
    using *(5) w(2) by (metis unat_eq_0)
  moreover have "\<not> ?w > 65535"
    using unat_bound [of "pe_transfer_port p"] w(2) by (simp add: word_less_nat_alt)
  moreover have "(ucast ?w :: u16) = pe_transfer_port p"
    by (simp add: ucast_down_ucast_id is_down)
  ultimately show ?l
    using parts *(6-9) by (simp add: parse_discovery_message_def kProtocolVersion_def)
qed

lemma parse_build:
  assumes "is_valid_peer_name name" and "port \<noteq> 0"
  shows "parse_discovery_message (build_discovery_message name port) ip now =
    Some \<lparr>pe_name = name, pe_ip_address = ip, pe_transfer_port = port, pe_last_seen = now,
          pe_protocol_version = kProtocolVersion\<rparr>"
proof -
  let ?p = "\<lparr>pe_name = name, pe_ip_address = ip, pe_transfer_port = port, pe_last_seen = now,
    pe_protocol_version = kProtocolVersion\<rparr>"
  have "parse_unsigned (to_string kProtocolVersion) = Some (ucast kProtocolVersion)"
    using decimal_to_string [of kProtocolVersion] by (simp add: parse_unsigned_iff uint_ucast_port)
  moreover have "ucast (ucast w :: u64) = w" for w :: u16
    by (simp add: ucast_down_ucast_id is_down)
  moreover have "bar \<notin> set (to_string kProtocolVersion)" "bar \<notin> set (to_string port)"
    "bar \<notin> set kDiscoveryMarker" "bar \<notin> set name" "to_string port \<noteq> []"
    using digits_to_string digit_not_special(5) assms(1)
    by (auto simp: kDiscoveryMarker_def is_valid_peer_name_def to_string_nonempty)
  then have "split_message (build_discovery_message name port) =
      [kDiscoveryMarker, to_string kProtocolVersion, name, to_string port]"
    by (simp add: split_four_iff build_discovery_message_def)
  moreover have "parse_unsigned (to_string port) = Some (ucast port)"
    using decimal_to_string [of port] by (simp add: parse_unsigned_iff uint_ucast_port)
  moreover have "(ucast port :: u64) \<noteq> 0" "\<not> (ucast port :: u64) > 65535"
    using assms(2) unat_bound [of port]
    by (simp_all add: word_less_nat_alt unat_ucast_port flip: unat_eq_0)
  ultimately show ?thesis
    using assms(1) by (simp add: parse_discovery_message_def)
qed

end
