(* ===== verification/Ordered_Table.thy ===== *)
theory Ordered_Table
  imports Main
begin

text \<open>
  The interface of a table that is kept in the order of its keys, as \<open>std::map\<close> is, with an
  operation that drops the entries that have become stale at some time. The laws say what a
  lookup returns after each operation and that a table is determined by its lookups; the
  lemmas are consequences for sequences of operations.
\<close>

locale ordered_table =
  fixes lookup :: "'t \<Rightarrow> 'k \<Rightarrow> 'v option"
    and assign :: "'k \<Rightarrow> 'v \<Rightarrow> 't \<Rightarrow> 't"
    and sweep :: "'t \<Rightarrow> 'n \<Rightarrow> 't"
    and stale :: "'n \<Rightarrow> 'v \<Rightarrow> bool"
    and inv :: "'t \<Rightarrow> bool"
  assumes inv_assign: "inv t \<Longrightarrow> inv (assign k v t)"
    and inv_sweep: "inv t \<Longrightarrow> inv (sweep t n)"
    and lookup_assign: "inv t \<Longrightarrow> lookup (assign k v t) = (lookup t)(k \<mapsto> v)"
    and lookup_sweep: "inv t \<Longrightarrow> lookup (sweep t n) k =
      (case lookup t k of None \<Rightarrow> None | Some v \<Rightarrow> if stale n v then None else Some v)"
    and canonical: "inv t \<Longrightarrow> inv t' \<Longrightarrow> lookup t = lookup t' \<Longrightarrow> t = t'"
begin

lemma assign_commute:
  assumes "inv t" and "k \<noteq> k'"
  shows "assign k v (assign k' v' t) = assign k' v' (assign k v t)"
  using assms by (intro canonical) (auto simp: inv_assign lookup_assign fun_eq_iff)

lemma assign_overwrites: "inv t \<Longrightarrow> assign k v (assign k v' t) = assign k v t"
  by (intro canonical) (auto simp: inv_assign lookup_assign)

lemma sweep_assign:
  assumes "inv t" and "\<not> stale n v"
  shows "sweep (assign k v t) n = assign k v (sweep t n)"
  using assms by (intro canonical) (auto simp: inv_assign inv_sweep lookup_assign lookup_sweep fun_eq_iff)

lemma sweep_absorbs:
  assumes "inv t" and "\<And>v. stale n v \<Longrightarrow> stale m v"
  shows "sweep (sweep t n) m = sweep t m"
  using assms
  by (intro canonical) (auto simp: inv_sweep lookup_sweep fun_eq_iff split: option.split)

lemma sweep_fresh: "inv t \<Longrightarrow> lookup (sweep t n) k = Some v \<Longrightarrow> \<not> stale n v \<and> lookup t k = Some v"
  by (auto simp: lookup_sweep split: option.splits if_splits)

lemma sweep_keeps: "inv t \<Longrightarrow> lookup t k = Some v \<Longrightarrow> \<not> stale n v \<Longrightarrow> lookup (sweep t n) k = Some v"
  by (simp add: lookup_sweep)

end

end
