(* ===== verification/Listener.thy ===== *)
theory Listener
  imports Host Discovery Ordered_Table "HOL-Library.Char_ord" "HOL-Library.List_Lexorder"
begin

text \<open>
  \<open>apps/listener.cpp\<close>. The \<open>std::map\<close> of peers is an association list in ascending order of
  its keys; \<open>listener_step\<close> is the body of the main loop, with one exit for the \<open>continue\<close>.
  The loop runs until a signal clears the flag, perhaps for ever; it is a partial function.
  The messages to the logger are added in theory \<open>Discovery_Console\<close>.
\<close>

type_synonym peer_map = "(string \<times> Peer) list"

definition hostname_or_empty :: "'w host \<Rightarrow> 'w \<Rightarrow> string \<times> 'w" where
  "hostname_or_empty h w =
     (let (r, hostname, w) = h_gethostname h 255 w
      in if r = 0 then (c_string hostname, w) else ([], w))"

definition peer_key :: "Peer \<Rightarrow> string" where
  "peer_key peer = pe_ip_address peer @ '':'' @ to_string (pe_transfer_port peer)"

definition looks_like_loopback :: "string \<Rightarrow> bool" where
  "looks_like_loopback ip_address \<longleftrightarrow> ip_address = ''127.0.0.1'' \<or> ip_address = ''::1''"

fun map_assign :: "string \<Rightarrow> Peer \<Rightarrow> peer_map \<Rightarrow> peer_map" where
  "map_assign key peer [] = [(key, peer)]"
| "map_assign key peer ((k, p) # peers) =
     (if key < k then (key, peer) # (k, p) # peers
      else if key = k then (key, peer) # peers
      else (k, p) # map_assign key peer peers)"

definition is_stale :: "int \<Rightarrow> Peer \<Rightarrow> bool" where
  "is_stale now peer \<longleftrightarrow> now - pe_last_seen peer > seconds 10"

fun remove_stale_peers :: "peer_map \<Rightarrow> int \<Rightarrow> peer_map" where
  "remove_stale_peers [] now = []"
| "remove_stale_peers ((key, peer) # peers) now =
     (if is_stale now peer then remove_stale_peers peers now
      else (key, peer) # remove_stale_peers peers now)"

fun peer_lines :: "nat \<Rightarrow> peer_map \<Rightarrow> int \<Rightarrow> string" where
  "peer_lines index [] now = []"
| "peer_lines index ((key, peer) # peers) now =
     (let seconds_ago = (now - pe_last_seen peer) sdiv seconds 1
      in pad_right 6 (show_int (int index)) @
         pad_right 24 (pe_name peer) @
         pad_right 18 (pe_ip_address peer) @
         pad_right 15 (to_string (pe_transfer_port peer)) @
         show_int seconds_ago @ ''s ago'' @ [newline] @
         peer_lines (index + 1) peers now)"

definition peer_table :: "peer_map \<Rightarrow> int \<Rightarrow> string" where
  "peer_table peers now =
     [newline] @ ''Available PacketBridge peers'' @ [newline] @
     pad_right 6 ''Index'' @ pad_right 24 ''Name'' @ pad_right 18 ''IP'' @
     pad_right 15 ''Transfer Port'' @ ''Last Seen'' @ [newline] @
     replicate 75 (CHR ''-'') @ [newline] @
     (if peers = [] then ''No peers discovered yet.'' @ [newline] else peer_lines 1 peers now)"

record listener =
  li_peers :: peer_map
  li_buffer :: bytes
  li_next_table_print :: int

text \<open>The end of the loop body, which a \<open>continue\<close> skips.\<close>

definition finish_step :: "'w host \<Rightarrow> int \<Rightarrow> listener \<Rightarrow> 'w \<Rightarrow> listener \<times> 'w" where
  "finish_step h now st w =
     (let peers = remove_stale_peers (li_peers st) now;
          st = st\<lparr>li_peers := peers\<rparr>
      in if now \<ge> li_next_table_print st
         then (st\<lparr>li_next_table_print := now + seconds 3\<rparr>, h_print h (peer_table peers now) w)
         else (st, w))"

definition own_announcement :: "string \<Rightarrow> Peer \<Rightarrow> bool" where
  "own_announcement local_hostname parsed \<longleftrightarrow>
     local_hostname \<noteq> [] \<and> pe_name parsed = local_hostname \<and>
     looks_like_loopback (pe_ip_address parsed)"

definition listener_step :: "'w host \<Rightarrow> socket_t \<Rightarrow> string \<Rightarrow> listener \<Rightarrow> 'w \<Rightarrow> listener \<times> 'w" where
  "listener_step h s local_hostname st w =
     (let (receive_result, buffer, w) = udp_receive_from (h_api h) s (li_buffer st) w;
          st = st\<lparr>li_buffer := buffer\<rparr>;
          (now, w) = h_now h w
      in if ur_ok receive_result then
           let message = string_of_bytes (take (ur_bytes_received receive_result) buffer);
               (parse_time, w') = h_now h w
           in case parse_discovery_message message (ep_host (ur_remote receive_result)) parse_time of
                None \<Rightarrow> finish_step h now st w
              | Some parsed \<Rightarrow>
                  if own_announcement local_hostname parsed then (st, w')
                  else
                    let key = peer_key parsed
                    in finish_step h now (st\<lparr>li_peers := map_assign key parsed (li_peers st)\<rparr>) w'
         else finish_step h now st w)"

partial_function (option) listener_loop ::
    "'w host \<Rightarrow> socket_t \<Rightarrow> string \<Rightarrow> listener \<Rightarrow> 'w \<Rightarrow> (listener \<times> 'w) option" where
  "listener_loop h s local_hostname st w =
     (if h_running h w
      then let (st, w) = listener_step h s local_hostname st w
           in listener_loop h s local_hostname st w
      else Some (st, w))"

definition listener_start :: "int \<Rightarrow> listener" where
  "listener_start now = \<lparr>li_peers = [], li_buffer = replicate 1024 0, li_next_table_print = now\<rparr>"

definition listener_main :: "'w host \<Rightarrow> string list \<Rightarrow> 'w \<Rightarrow> (int \<times> 'w) option" where
  "listener_main h args w =
     (if args \<noteq> [] then Some (if length args = 1 \<and> is_help_arg (hd args) then 0 else 1, w)
      else
        let (local_hostname, w) = hostname_or_empty h w;
            (bound, s, w) = udp_bind_to (h_api h) kInvalidSocket kDefaultDiscoveryUdpPort w
        in if \<not> bound then Some (1, snd (sock_close (h_api h) s w))
           else
             let (timed, w) = udp_set_receive_timeout (h_api h) s 500 w
             in if \<not> timed then Some (1, snd (sock_close (h_api h) s w))
                else
                  let (now, w) = h_now h w
                  in do {
                    (st, w) \<leftarrow> listener_loop h s local_hostname (listener_start now) w;
                    Some (0, snd (sock_close (h_api h) s w))
                  })"

subsection \<open>The table\<close>

definition sorted_keys :: "peer_map \<Rightarrow> bool" where
  "sorted_keys t \<longleftrightarrow> sorted_wrt (<) (map fst t)"

lemma sorted_keys_simps [simp]:
  "sorted_keys []"
  "sorted_keys ((k, p) # t) \<longleftrightarrow> (\<forall>k' \<in> fst ` set t. k < k') \<and> sorted_keys t"
  by (auto simp: sorted_keys_def)

lemma set_map_assign: "set (map_assign key p t) \<subseteq> insert (key, p) (set t)"
  by (induction key p t rule: map_assign.induct) (simp_all, blast)

lemma map_assign_Cons:
  "key < k \<Longrightarrow> map_assign key peer ((k, p) # peers) = (key, peer) # (k, p) # peers"
  "map_assign k peer ((k, p) # peers) = (k, peer) # peers"
  "k < key \<Longrightarrow> map_assign key peer ((k, p) # peers) = (k, p) # map_assign key peer peers"
  by (simp, simp, metis less_irrefl less_not_sym map_assign.simps(2))

lemma keys_map_assign: "fst ` set (map_assign key p t) = insert key (fst ` set t)"
proof (induction t)
  case (Cons e t)
  obtain k q where e: "e = (k, q)" by (cases e)
  consider "key < k" | "key = k" | "k < key"
    by (rule linorder_cases)
  then show ?case
    using Cons.IH by cases (simp_all add: e map_assign_Cons insert_commute del: map_assign.simps)
qed simp

lemma remove_stale_filter: "remove_stale_peers t now = filter (\<lambda>e. \<not> is_stale now (snd e)) t"
  by (induction t now rule: remove_stale_peers.induct) simp_all

lemma set_remove_stale: "set (remove_stale_peers t now) = {e \<in> set t. \<not> is_stale now (snd e)}"
  by (simp add: remove_stale_filter)

lemma sorted_map_assign: "sorted_keys t \<Longrightarrow> sorted_keys (map_assign key p t)"
proof (induction key p t rule: map_assign.induct)
  case (2 key peer k p peers)
  consider "key < k" | "key = k" | "k < key"
    by (rule linorder_cases)
  then show ?case
  proof cases
    case 1
    then show ?thesis
      using "2.prems" less_trans by fastforce
  next
    case 2
    then show ?thesis
      using "2.prems" by simp
  next
    case 3
    then have "sorted_keys (map_assign key peer peers)"
      using "2.IH" "2.prems" by simp
    then show ?thesis
      using 3 "2.prems" less_not_sym [OF 3] less_imp_neq [OF 3] by (simp add: keys_map_assign)
  qed
qed simp

lemma sorted_remove_stale: "sorted_keys t \<Longrightarrow> sorted_keys (remove_stale_peers t now)"
  unfolding sorted_keys_def remove_stale_filter sorted_wrt_map by (rule sorted_wrt_filter)

lemma map_of_below: "(\<forall>k' \<in> fst ` set t. (k :: string) < k') \<Longrightarrow> map_of t k = None"
  by (metis map_of_eq_None_iff less_irrefl)

lemma map_of_map_assign: "map_of (map_assign key p t) = (map_of t)(key \<mapsto> p)"
  by (induction t) auto

lemma map_of_remove_stale:
  assumes "sorted_keys t"
  shows "map_of (remove_stale_peers t now) k =
    (case map_of t k of None \<Rightarrow> None | Some v \<Rightarrow> if is_stale now v then None else Some v)"
  using assms
proof (induction t)
  case (Cons e t)
  then show ?case
    using map_of_below [of t "fst e"] by (cases e) auto
qed simp

lemma sorted_keys_canonical:
  assumes "sorted_keys t" and "sorted_keys t'" and "map_of t = map_of t'"
  shows "t = t'"
proof -
  have keys: "distinct (map fst u)" "sorted (map fst u)" if "sorted_keys u" for u
    using that by (simp_all add: sorted_keys_def strict_sorted_iff)
  then have "set t = set t'"
    using assms map_of_inject_set by blast
  moreover have "inj_on fst (set t)"
    using keys [OF assms(1)] by (simp add: distinct_map)
  ultimately show ?thesis
    using keys assms(1,2) by (intro map_sorted_distinct_set_unique [of fst]) simp_all
qed

interpretation peers: ordered_table map_of map_assign remove_stale_peers is_stale sorted_keys
  by unfold_locales
    (auto simp: sorted_map_assign sorted_remove_stale map_of_map_assign map_of_remove_stale
      intro: sorted_keys_canonical)

end
