(* ===== verification/Listener_Spec.thy ===== *)
theory Listener_Spec
  imports Listener
begin

text \<open>
  What the listener makes of the network: the abstract table is a function from keys to peers,
  one step hears at most one announcement and then forgets what is stale, and the invariant of
  all states that the main loop reaches.
\<close>

subsection \<open>Keys\<close>

lemma split_at_last:
  assumes "a @ c # b = a' @ c # b'" and "c \<notin> set b" and "c \<notin> set b'"
  shows "a = a' \<and> b = b'"
  using assms by (auto simp: append_eq_append_conv2 Cons_eq_append_conv append_eq_Cons_conv)

lemma to_string_inject: "to_string w = to_string w' \<Longrightarrow> w = w'"
  by (metis dec_value_to_string word_uint_eq_iff)

lemma colon_not_digit: "CHR '':'' \<notin> set (to_string w)"
  using digits_to_string by (fastforce simp: is_digit_def Let_def)

lemma peer_key_inject:
  assumes "peer_key p = peer_key q"
  shows "pe_ip_address p = pe_ip_address q \<and> pe_transfer_port p = pe_transfer_port q"
  using split_at_last [of "pe_ip_address p" "CHR '':''" "to_string (pe_transfer_port p)"
      "pe_ip_address q" "to_string (pe_transfer_port q)"] assms colon_not_digit to_string_inject
  unfolding peer_key_def by auto

subsection \<open>One step\<close>

text \<open>
  \<open>heard\<close> is the announcement in the next datagram, if there is one, and \<open>step_time\<close> the clock
  reading that the step compares with. Neither looks at the buffer.
\<close>

definition step_time :: "'w host \<Rightarrow> socket_t \<Rightarrow> 'w \<Rightarrow> int" where
  "step_time h s w = (let (n, d, a, w1) = sys_recvfrom (h_api h) s 1024 w in fst (h_now h w1))"

definition heard :: "'w host \<Rightarrow> socket_t \<Rightarrow> 'w \<Rightarrow> Peer option" where
  "heard h s w =
     (let (n, d, a, w1) = sys_recvfrom (h_api h) s 1024 w;
          (now, w2) = h_now h w1
      in if n < 0 then None
         else parse_discovery_message (string_of_bytes d)
                (ep_host (endpoint_from_sockaddr (h_api h) a)) (fst (h_now h w2)))"

definition spec_step :: "int \<Rightarrow> Peer option \<Rightarrow> (string \<Rightarrow> Peer option) \<Rightarrow> string \<Rightarrow> Peer option" where
  "spec_step now peer T k =
     (case (case peer of None \<Rightarrow> T | Some p \<Rightarrow> T(peer_key p \<mapsto> p)) k of
        None \<Rightarrow> None
      | Some p \<Rightarrow> if is_stale now p then None else Some p)"

definition learn :: "Peer option \<Rightarrow> peer_map \<Rightarrow> peer_map" where
  "learn peer t = (case peer of None \<Rightarrow> t | Some p \<Rightarrow> map_assign (peer_key p) p t)"

lemma sorted_learn: "sorted_keys t \<Longrightarrow> sorted_keys (learn peer t)"
  by (auto simp: learn_def peers.inv_assign split: option.split)

lemma map_of_learned:
  "sorted_keys t \<Longrightarrow> map_of (remove_stale_peers (learn peer t) now) = spec_step now peer (map_of t)"
  using peers.lookup_sweep [OF sorted_learn, of t peer now]
  by (auto simp: fun_eq_iff spec_step_def learn_def peers.lookup_assign split: option.split)

lemma finish_step_peers:
  "li_peers (fst (finish_step h now st w)) = remove_stale_peers (li_peers st) now"
  "li_buffer (fst (finish_step h now st w)) = li_buffer st"
  by (simp_all add: finish_step_def Let_def)

lemma buffer_size: "unat (min 1024 int_max) = 1024"
  by (simp add: int_max_def min_def)

lemma listener_step_cases:
  assumes "is_valid_socket s" and "datagram_safe (h_api h) s sent" and "length (li_buffer st) = 1024"
    and "listener_step h s name st w = (st', w')"
  shows "length (li_buffer st') = 1024 \<and>
    (if \<exists>p. heard h s w = Some p \<and> own_announcement name p
     then li_peers st' = li_peers st \<and> li_next_table_print st' = li_next_table_print st
     else li_peers st' = remove_stale_peers (learn (heard h s w) (li_peers st)) (step_time h s w))"
proof -
  obtain r b w1 where recv: "udp_receive_from (h_api h) s (li_buffer st) w = (r, b, w1)"
    by (metis prod_cases3)
  obtain n d a w1' where sys: "sys_recvfrom (h_api h) s 1024 w = (n, d, a, w1')"
    by (metis prod_cases4)
  obtain now w2 where now: "h_now h w1 = (now, w2)" by (cases "h_now h w1")
  obtain t w3 where t: "h_now h w2 = (t, w3)" by (cases "h_now h w2")
  note spec = udp_receive_from_cases [OF assms(2) _ recv, unfolded assms(3), simplified]
  have len: "length b = 1024"
    using spec by blast
  have world: "w1' = w1"
    using recv sys assms(1,3)
    by (auto simp: udp_receive_from_def Let_def buffer_size split: if_splits)
  show ?thesis
  proof (cases "ur_ok r")
    case True
    then have d: "n = int (length d)" "ur_bytes_received r = length d" "b = d @ drop (length d) (li_buffer st)"
      "ur_remote r = endpoint_from_sockaddr (h_api h) a"
      using spec sys by auto
    then have "take (ur_bytes_received r) b = d"
      by simp
    then show ?thesis
      using assms(4) True len sys now t d(1,4)
      by (auto simp: listener_step_def recv heard_def step_time_def world learn_def Let_def
          finish_step_peers split: option.splits if_splits dest!: arg_cong [of _ _ fst])
  next
    case False
    then have "n < 0"
      using recv sys assms(1,3)
      by (auto simp: udp_receive_from_def Let_def buffer_size split: if_splits)
    then show ?thesis
      using assms(4) False len sys now
      by (auto simp: listener_step_def recv heard_def step_time_def world learn_def Let_def
          finish_step_peers dest!: arg_cong [of _ _ fst])
  qed
qed

subsection \<open>The main loop\<close>

inductive listening :: "'w host \<Rightarrow> socket_t \<Rightarrow> string \<Rightarrow> listener \<Rightarrow> 'w \<Rightarrow> bool"
  for h s local_hostname where
  start: "listening h s local_hostname (listener_start now) w"
| step: "\<lbrakk>listening h s local_hostname st w; h_running h w;
          listener_step h s local_hostname st w = (st', w')\<rbrakk>
         \<Longrightarrow> listening h s local_hostname st' w'"

inductive_cases listeningE: "listening h s local_hostname st w"

lemma listener_loop_reaches:
  assumes "listener_loop h s name st w = Some (st', w')" and "listening h s name st w"
  shows "listening h s name st' w' \<and> \<not> h_running h w'"
proof -
  have "listening h s name st w \<longrightarrow>
      listening h s name (fst (st', w')) (snd (st', w')) \<and> \<not> h_running h (snd (st', w'))"
    using assms(1)
  proof (rule listener_loop.raw_induct [rotated])
    fix f h s name st w r
    assume IH: "\<And>h s name st w r. f h s name st w = Some r \<Longrightarrow>
        listening h s name st w \<longrightarrow> listening h s name (fst r) (snd r) \<and> \<not> h_running h (snd r)"
      and run: "(if h_running h w
         then let (st, w) = listener_step h s name st w in f h s name st w else Some (st, w)) = Some r"
    show "listening h s name st w \<longrightarrow> listening h s name (fst r) (snd r) \<and> \<not> h_running h (snd r)"
    proof (cases "h_running h w")
      case True
      obtain st1 w1 where s1: "listener_step h s name st w = (st1, w1)"
        by (cases "listener_step h s name st w")
      then have "f h s name st1 w1 = Some r"
        using run True by simp
      then show ?thesis
        using IH listening.step [OF _ True s1] by blast
    next
      case False
      then show ?thesis using run by auto
    qed
  qed
  then show ?thesis using assms(2) by simp
qed

text \<open>What holds of the table: each entry is filed under its own address and is a valid peer.\<close>

definition valid_entry :: "string \<times> Peer \<Rightarrow> bool" where
  "valid_entry e \<longleftrightarrow>
     fst e = peer_key (snd e) \<and> is_valid_peer_name (pe_name (snd e)) \<and>
     pe_transfer_port (snd e) \<noteq> 0 \<and> pe_protocol_version (snd e) = kProtocolVersion"

definition table_ok :: "peer_map \<Rightarrow> bool" where
  "table_ok t \<longleftrightarrow> sorted_keys t \<and> list_all valid_entry t"

lemma heard_valid: "heard h s w = Some p \<Longrightarrow> valid_entry (peer_key p, p)"
  by (auto simp: heard_def valid_entry_def dest!: parse_discovery_Some split: prod.splits if_splits)

lemma table_ok_learn:
  assumes "table_ok t" and "\<And>p. peer = Some p \<Longrightarrow> valid_entry (peer_key p, p)"
  shows "table_ok (remove_stale_peers (learn peer t) now)"
proof -
  have "set (learn peer t) \<subseteq> (case peer of None \<Rightarrow> {} | Some p \<Rightarrow> {(peer_key p, p)}) \<union> set t"
    by (cases peer) (simp_all add: learn_def set_map_assign)
  then have "list_all valid_entry (learn peer t)"
    using assms by (fastforce simp: table_ok_def list_all_iff split: option.splits)
  moreover have "sorted_keys (remove_stale_peers (learn peer t) now)"
    using assms(1) by (simp add: table_ok_def sorted_learn sorted_remove_stale)
  ultimately show ?thesis
    by (simp add: table_ok_def list_all_iff set_remove_stale)
qed

lemma table_ok_step:
  assumes "is_valid_socket s" and "datagram_safe (h_api h) s sent" and "length (li_buffer st) = 1024"
    and "table_ok (li_peers st)" and "listener_step h s name st w = (st', w')"
  shows "length (li_buffer st') = 1024 \<and> table_ok (li_peers st')"
  using listener_step_cases [OF assms(1-3,5)] assms(4) table_ok_learn [OF assms(4) heard_valid]
  by (auto split: if_splits)

lemma listening_ok:
  assumes "is_valid_socket s" and "datagram_safe (h_api h) s sent" and "listening h s name st w"
  shows "length (li_buffer st) = 1024 \<and> table_ok (li_peers st)"
  using assms(3)
proof induction
  case (start now w)
  then show ?case by (simp add: listener_start_def table_ok_def)
next
  case (step st w st' w')
  then show ?case
    using table_ok_step [OF assms(1,2)] by blast
qed

text \<open>
  C11: the listener's table in every state that the main loop reaches, whatever arrives: the
  entries are sorted by key, each has the name, port and version of a valid announcement and is
  filed under its own address, and two different entries differ in address or port.
\<close>

theorem listener_table_invariant:
  assumes "is_valid_socket s" and "datagram_safe (h_api h) s sent" and "listening h s name st w"
  shows "sorted_wrt (<) (map fst (li_peers st)) \<and> length (li_buffer st) = 1024 \<and>
    (\<forall>(k, p) \<in> set (li_peers st). k = peer_key p \<and> is_valid_peer_name (pe_name p) \<and>
       pe_transfer_port p \<noteq> 0 \<and> pe_protocol_version p = kProtocolVersion) \<and>
    inj_on (\<lambda>(k, p). (pe_ip_address p, pe_transfer_port p)) (set (li_peers st))"
proof -
  note ok = listening_ok [OF assms(1-3)]
  then have len: "length (li_buffer st) = 1024" and sorted: "sorted_wrt (<) (map fst (li_peers st))"
    and entries: "\<And>e. e \<in> set (li_peers st) \<Longrightarrow> valid_entry e"
    by (auto simp: table_ok_def sorted_keys_def list_all_iff)
  have "distinct (map fst (li_peers st))"
    using sorted by (simp add: strict_sorted_iff)
  then have same: "e = e'" if "e \<in> set (li_peers st)" "e' \<in> set (li_peers st)" "fst e = fst e'" for e e'
    using that by (auto simp: distinct_map inj_on_def)
  have "inj_on (\<lambda>(k, p). (pe_ip_address p, pe_transfer_port p)) (set (li_peers st))"
  proof (rule inj_onI)
    fix e e'
    assume mem: "e \<in> set (li_peers st)" "e' \<in> set (li_peers st)"
      and eq: "(case e of (k, p) \<Rightarrow> (pe_ip_address p, pe_transfer_port p)) =
        (case e' of (k, p) \<Rightarrow> (pe_ip_address p, pe_transfer_port p))"
    then have "peer_key (snd e) = peer_key (snd e')"
      by (auto simp: peer_key_def split: prod.splits)
    then show "e = e'"
      using same mem entries by (simp add: valid_entry_def)
  qed
  moreover have "\<forall>(k, p) \<in> set (li_peers st). k = peer_key p \<and> is_valid_peer_name (pe_name p) \<and>
       pe_transfer_port p \<noteq> 0 \<and> pe_protocol_version p = kProtocolVersion"
    using entries by (auto simp: valid_entry_def)
  ultimately show ?thesis
    using len sorted by blast
qed

text \<open>
  C10: one step of the listener refines the table of the specification: what an earlier datagram
  left in the buffer has no influence, at most one entry is added or replaced, and exactly the
  entries that are older than ten seconds at the time of the step go. The exception is the
  host's own announcement over the loopback interface: it leaves the table as it is, stale
  entries included.
\<close>

theorem listener_step_refines:
  assumes "is_valid_socket s" and "datagram_safe (h_api h) s sent" and "listening h s name st w"
    and "listener_step h s name st w = (st', w')"
  shows "map_of (li_peers st') =
    (if \<exists>p. heard h s w = Some p \<and> own_announcement name p then map_of (li_peers st)
     else spec_step (step_time h s w) (heard h s w) (map_of (li_peers st)))"
proof -
  note ok = listening_ok [OF assms(1-3)]
  then show ?thesis
    using listener_step_cases [OF assms(1,2) _ assms(4)] map_of_learned
    by (auto simp: table_ok_def)
qed

end
