(* ===== verification/Broadcaster.thy ===== *)
theory Broadcaster
  imports Host Discovery
begin

text \<open>
  \<open>apps/broadcaster.cpp\<close>. The main loop sends the announcement and sleeps until a signal clears
  the flag; it is a partial function. The messages to the logger are added in theory
  \<open>Discovery_Console\<close>.
\<close>

definition hostname_or_default :: "'w host \<Rightarrow> 'w \<Rightarrow> string \<times> 'w" where
  "hostname_or_default h w =
     (let (r, hostname, w) = h_gethostname h 255 w
      in if r = 0 \<and> c_string hostname \<noteq> [] then (c_string hostname, w)
         else (''packetbridge-node'', w))"

definition safe_peer_name :: "string \<Rightarrow> string" where
  "safe_peer_name requested_name =
     (if requested_name = [] \<or> bar \<in> set requested_name then ''packetbridge-node''
      else if length requested_name > kMaxPeerNameLength
      then take kMaxPeerNameLength requested_name
      else requested_name)"

partial_function (option) broadcaster_loop ::
    "'w host \<Rightarrow> socket_t \<Rightarrow> bytes \<Rightarrow> Endpoint \<Rightarrow> 'w \<Rightarrow> 'w option" where
  "broadcaster_loop h s message endpoint w =
     (if h_running h w
      then do {
        (ok, w) \<leftarrow> udp_send_to (h_api h) s message endpoint w;
        broadcaster_loop h s message endpoint (h_sleep h (seconds 2) w)
      }
      else Some w)"

definition broadcast_endpoint :: Endpoint where
  "broadcast_endpoint = \<lparr>ep_host = ''255.255.255.255'', ep_port = kDefaultDiscoveryUdpPort\<rparr>"

definition broadcaster_main :: "'w host \<Rightarrow> string list \<Rightarrow> 'w \<Rightarrow> (int \<times> 'w) option" where
  "broadcaster_main h args w =
     (if length args > 1 \<or> length args = 1 \<and> is_help_arg (hd args)
      then Some (if length args > 1 then 1 else 0, w)
      else
        let (requested, w) = (if args \<noteq> [] then (hd args, w) else hostname_or_default h w);
            peer_name = safe_peer_name requested;
            message = build_discovery_message peer_name kDefaultTransferTcpPort;
            (opened, s, w) = udp_open (h_api h) kInvalidSocket w
        in if \<not> opened then Some (1, snd (sock_close (h_api h) s w))
           else
             let (enabled, w) = udp_enable_broadcast (h_api h) s w
             in if \<not> enabled then Some (1, snd (sock_close (h_api h) s w))
                else do {
                  w \<leftarrow> broadcaster_loop h s (bytes_of_string message) broadcast_endpoint w;
                  Some (0, snd (sock_close (h_api h) s w))
                })"

subsection \<open>The announcement\<close>

lemma safe_peer_name_valid: "is_valid_peer_name (safe_peer_name requested)"
  by (auto simp: safe_peer_name_def is_valid_peer_name_def kMaxPeerNameLength_def dest: in_set_takeD)

lemma safe_peer_name_idem: "is_valid_peer_name name \<Longrightarrow> safe_peer_name name = name"
  by (simp add: safe_peer_name_def is_valid_peer_name_def)

definition announcement :: "string \<Rightarrow> bytes" where
  "announcement requested =
     bytes_of_string (build_discovery_message (safe_peer_name requested) kDefaultTransferTcpPort)"

definition announced_peer :: "string \<Rightarrow> string \<Rightarrow> int \<Rightarrow> Peer" where
  "announced_peer requested ip now =
     \<lparr>pe_name = safe_peer_name requested, pe_ip_address = ip,
      pe_transfer_port = kDefaultTransferTcpPort, pe_last_seen = now,
      pe_protocol_version = kProtocolVersion\<rparr>"

lemma announcement_parses:
  "parse_discovery_message (string_of_bytes (announcement requested)) ip now =
     Some (announced_peer requested ip now)"
  unfolding announcement_def announced_peer_def string_bytes_inverse
  by (rule parse_build [OF safe_peer_name_valid]) (simp add: kDefaultTransferTcpPort_def)

lemma length_to_string_u16: "length (to_string (w :: u16)) \<le> 5"
  unfolding to_string_def using uint_lt2p [of w] length_show_base [of 10 "uint w" 4] by simp

lemma length_announcement: "length (announcement requested) \<le> 98"
  using safe_peer_name_valid [of requested] length_to_string_u16 [of kProtocolVersion]
    length_to_string_u16 [of kDefaultTransferTcpPort]
  by (simp add: announcement_def build_discovery_message_def is_valid_peer_name_def
      kMaxPeerNameLength_def kDiscoveryMarker_def)

subsection \<open>Rounds of the main loop\<close>

fun rounds :: "'w host \<Rightarrow> socket_t \<Rightarrow> bytes \<Rightarrow> Endpoint \<Rightarrow> nat \<Rightarrow> 'w \<Rightarrow> 'w option" where
  "rounds h s message endpoint 0 w = Some w"
| "rounds h s message endpoint (Suc n) w =
     do {
       (ok, w) \<leftarrow> udp_send_to (h_api h) s message endpoint w;
       rounds h s message endpoint n (h_sleep h (seconds 2) w)
     }"

definition stops_after :: "'w host \<Rightarrow> socket_t \<Rightarrow> bytes \<Rightarrow> Endpoint \<Rightarrow> nat \<Rightarrow> 'w \<Rightarrow> 'w \<Rightarrow> bool" where
  "stops_after h s message endpoint n w w' \<longleftrightarrow>
     rounds h s message endpoint n w = Some w' \<and> \<not> h_running h w' \<and>
     (\<forall>k < n. \<exists>v. rounds h s message endpoint k w = Some v \<and> h_running h v)"

lemma broadcaster_loop_stops:
  "stops_after h s message endpoint n w w' \<Longrightarrow> broadcaster_loop h s message endpoint w = Some w'"
proof (induction n arbitrary: w)
  case 0
  then show ?case
    by (subst broadcaster_loop.simps) (simp add: stops_after_def)
next
  case (Suc n)
  then obtain ok v where v: "udp_send_to (h_api h) s message endpoint w = Some (ok, v)"
    "rounds h s message endpoint n (h_sleep h (seconds 2) v) = Some w'" "h_running h w"
    by (force simp: stops_after_def bind_eq_Some_conv)
  have "\<exists>u. rounds h s message endpoint k (h_sleep h (seconds 2) v) = Some u \<and> h_running h u"
    if "k < n" for k
    using Suc.prems that v(1) by (auto simp: stops_after_def dest!: spec [of _ "Suc k"])
  then have "stops_after h s message endpoint n (h_sleep h (seconds 2) v) w'"
    using Suc.prems v(2) by (simp add: stops_after_def)
  then show ?case
    using Suc.IH v(1,3) by (subst broadcaster_loop.simps) simp
qed

text \<open>Sleeping and the set-up of a socket send nothing; a datagram is sent whole or not at all.\<close>

definition whole_datagrams :: "'w sock_api \<Rightarrow> bool" where
  "whole_datagrams api \<longleftrightarrow>
     (\<forall>s bs a w n w'. sys_sendto api s bs a w = (n, w') \<longrightarrow> n < 0 \<or> n = int (length bs))"

definition sleep_quiet :: "'w host \<Rightarrow> ('w \<Rightarrow> (sockaddr \<times> bytes) list) \<Rightarrow> bool" where
  "sleep_quiet h sent \<longleftrightarrow> (\<forall>n w. sent (h_sleep h n w) = sent w)"

lemma udp_send_to_whole:
  assumes "datagram_safe api s sent" and "whole_datagrams api" and "length data < 2 ^ 31"
  shows "\<exists>ok w' a. udp_send_to api s data endpoint w = Some (ok, w') \<and>
    sent w' = sent w @ (if ok then [(a, data)] else [])"
proof (cases "is_valid_socket s")
  case False
  then show ?thesis by (intro exI [of _ False] exI [of _ w]) (simp add: udp_send_to_def)
next
  case valid: True
  obtain r l w1 where res: "sys_getaddrinfo api (ep_host endpoint) (to_string (ep_port endpoint))
      AF_INET SOCK_DGRAM IPPROTO_UDP w = (r, l, w1)"
    by (metis prod_cases3)
  note res' = datagram_safe_resolve [OF assms(1) res]
  show ?thesis
  proof (cases "r = 0")
    case False
    then show ?thesis
      using res' by (intro exI [of _ False] exI [of _ w1]) (simp add: udp_send_to_def valid res)
  next
    case True
    then obtain a l' where l: "l = a # l'"
      using res' by (cases l) auto
    obtain n w2 where send: "sys_sendto api s data (ai_addr a) w1 = (n, w2)"
      by (cases "sys_sendto api s data (ai_addr a) w1")
    have size: "take (unat (min (of_nat (length data)) int_max)) data = data"
      using assms(3) by (subst min_int_max) (simp_all add: chunk_limit_def)
    have "n < 0 \<or> n = int (length data)"
      using assms(2) send unfolding whole_datagrams_def by blast
    then have "udp_send_to api s data endpoint w = Some (0 \<le> n, w2)"
      using send True by (auto simp: udp_send_to_def valid res l size Let_def)
    moreover have "sent w2 = sent w @ (if 0 \<le> n then [(ai_addr a, data)] else [])"
      using datagram_safe_sendto [OF assms(1) send] res' \<open>n < 0 \<or> n = int (length data)\<close> by auto
    ultimately show ?thesis by blast
  qed
qed

lemma rounds_sent:
  assumes "datagram_safe (h_api h) s sent" and "whole_datagrams (h_api h)" and "sleep_quiet h sent"
    and "length data < 2 ^ 31"
  shows "\<exists>w' ds. rounds h s data endpoint n w = Some w' \<and> sent w' = sent w @ ds \<and>
    length ds \<le> n \<and> snd ` set ds \<subseteq> {data}"
proof (induction n arbitrary: w)
  case 0
  then show ?case by simp
next
  case (Suc n)
  obtain ok v a where v: "udp_send_to (h_api h) s data endpoint w = Some (ok, v)"
    "sent v = sent w @ (if ok then [(a, data)] else [])"
    using udp_send_to_whole [OF assms(1,2,4)] by blast
  obtain w' ds where "rounds h s data endpoint n (h_sleep h (seconds 2) v) = Some w'"
    "sent w' = sent (h_sleep h (seconds 2) v) @ ds" "length ds \<le> n" "snd ` set ds \<subseteq> {data}"
    using Suc.IH by blast
  then show ?case
    using v assms(3)
    by (intro exI [of _ w'] exI [of _ "(if ok then [(a, data)] else []) @ ds"])
      (auto simp: sleep_quiet_def)
qed

text \<open>
  C35: the broadcaster. Any number of rounds of its loop can be run; each sends at most one
  datagram, always the same, of fewer than 100 bytes, which a listener at any address parses
  as the announcement of the name derived from the argument; and when the flag is found cleared
  after some rounds the program ends with exit code 0 and its socket closed.
\<close>

theorem broadcaster_announces:
  assumes "datagram_safe (h_api h) s sent" and "whole_datagrams (h_api h)" and "sleep_quiet h sent"
    and "\<not> is_help_arg requested"
    and "udp_open (h_api h) kInvalidSocket w = (True, s, w1)"
    and "udp_enable_broadcast (h_api h) s w1 = (True, w2)"
  shows "\<exists>data. length data < 100 \<and>
    (\<forall>ip now. parse_discovery_message (string_of_bytes data) ip now =
       Some (announced_peer requested ip now)) \<and>
    (\<forall>n. \<exists>w' ds. rounds h s data broadcast_endpoint n w2 = Some w' \<and> sent w' = sent w2 @ ds \<and>
       length ds \<le> n \<and> snd ` set ds \<subseteq> {data} \<and>
       (stops_after h s data broadcast_endpoint n w2 w' \<longrightarrow>
          broadcaster_main h [requested] w = Some (0, snd (sock_close (h_api h) s w'))))"
proof -
  let ?data = "announcement requested"
  have len: "length ?data < 100" "length ?data < 2 ^ 31"
    using length_announcement [of requested] by simp_all
  have "broadcaster_main h [requested] w = Some (0, snd (sock_close (h_api h) s w'))"
    if "stops_after h s ?data broadcast_endpoint n w2 w'" for n w'
    using assms(4-6) broadcaster_loop_stops [OF that]
    by (simp add: broadcaster_main_def announcement_def)
  then show ?thesis
    using len(1) announcement_parses rounds_sent [OF assms(1-3) len(2)]
    by (intro exI [of _ ?data]) blast
qed

end
