(* ===== verification/Discovery_System.thy ===== *)
theory Discovery_System
  imports Listener_Spec Broadcaster
begin

text \<open>
  Broadcaster and listener together, and a concrete host on which the results about discovery
  are tried out: its world holds the datagrams that have been sent, those that wait to be
  received, the time, and how many rounds remain until a signal clears the flag.
\<close>

lemma transfer_port_text: "to_string kDefaultTransferTcpPort = ''47111''"
  by code_simp

text \<open>
  C9: discovery works end to end. When the datagram of a broadcaster, started with any name,
  arrives at a listener in any reachable state, then after that step the table has a row for
  the sender's address and the transfer port with the announced name; the other rows are those
  from before that are not older than ten seconds. Only the listener's own loopback
  announcement is not listed.
\<close>

theorem discovery_end_to_end:
  assumes "is_valid_socket s" and "datagram_safe (h_api h) s sent" and "listening h s name st w"
    and "sys_recvfrom (h_api h) s 1024 w = (int (length (announcement requested)), announcement requested, a, w1)"
    and "h_now h w1 = (now, w2)" and "h_now h w2 = (later, w3)" and "now \<le> later"
    and "ip = ep_host (endpoint_from_sockaddr (h_api h) a)"
    and "\<not> own_announcement name (announced_peer requested ip later)"
    and "listener_step h s name st w = (st', w')"
  shows "map_of (li_peers st') k =
    (if k = ip @ '':47111'' then Some (announced_peer requested ip later)
     else case map_of (li_peers st) k of
            None \<Rightarrow> None
          | Some p \<Rightarrow> if now - pe_last_seen p > seconds 10 then None else Some p)"
proof -
  let ?p = "announced_peer requested ip later"
  have heard: "heard h s w = Some ?p" and time: "step_time h s w = now"
    using assms(4-6,8) announcement_parses by (simp_all add: heard_def step_time_def)
  have key: "peer_key ?p = ip @ '':47111''"
    by (simp add: peer_key_def announced_peer_def transfer_port_text)
  have fresh: "\<not> is_stale now ?p"
    using assms(7) by (simp add: is_stale_def announced_peer_def seconds_def)
  have ok: "length (li_buffer st) = 1024" "sorted_keys (li_peers st)"
    using listening_ok [OF assms(1-3)] by (simp_all add: table_ok_def)
  have "map_of (li_peers st') k = spec_step now (Some ?p) (map_of (li_peers st)) k"
    using listener_step_cases [OF assms(1,2) ok(1) assms(10)] map_of_learned [OF ok(2)] heard time assms(9)
    by simp
  then show ?thesis
    using fresh by (auto simp: spec_step_def key is_stale_def split: option.split)
qed

section \<open>A concrete host\<close>

record lan =
  la_sent :: "(sockaddr \<times> bytes) list"
  la_waiting :: "(sockaddr \<times> bytes) list"
  la_time :: int
  la_rounds :: nat

definition lan_api :: "lan sock_api" where
  "lan_api =
     \<lparr>sys_socket = \<lambda>_ _ _ w. (3, w), sys_close = \<lambda>_ w. w, sys_errno = \<lambda>_. EAGAIN,
      sys_setsockopt = \<lambda>_ _ w. (0, w),
      sys_getaddrinfo = \<lambda>_ _ _ k p w.
        (0, [\<lparr>ai_family = AF_INET, ai_socktype = k, ai_protocol = p,
              ai_addr = Sockaddr_in 0xffffffff 47110\<rparr>], w),
      sys_connect = \<lambda>_ _ w. (0, w), sys_bind = \<lambda>_ _ w. (0, w), sys_listen = \<lambda>_ _ w. (0, w),
      sys_accept = \<lambda>_ w. (4, w),
      sys_send = \<lambda>_ bs w. (int (length bs), w), sys_recv = \<lambda>_ k w. (0, [], w),
      sys_sendto = \<lambda>_ bs a w. (int (length bs), w\<lparr>la_sent := la_sent w @ [(a, bs)]\<rparr>),
      sys_recvfrom = \<lambda>_ k w.
        (case la_waiting w of
           [] \<Rightarrow> (-1, [], Sockaddr_other, w\<lparr>la_rounds := la_rounds w - 1\<rparr>)
         | (a, bs) # rest \<Rightarrow>
             (int (length (take k bs)), take k bs, a,
              w\<lparr>la_waiting := rest, la_rounds := la_rounds w - 1\<rparr>)),
      sys_inet_ntop = \<lambda>a. (case a of Sockaddr_in _ _ \<Rightarrow> ''10.0.0.7'' | _ \<Rightarrow> ''::1''),
      sys_clock = la_time, sys_killed = \<lambda>_. False\<rparr>"

definition lan_host :: "lan host" where
  "lan_host =
     \<lparr>h_api = lan_api, h_now = \<lambda>w. (la_time w, w\<lparr>la_time := la_time w + 1\<rparr>),
      h_gethostname = \<lambda>n w. (0, take n (''here'' @ [CHR 0x00]), w),
      h_sleep = \<lambda>n w. w\<lparr>la_time := la_time w + n, la_rounds := la_rounds w - 1\<rparr>,
      h_print = \<lambda>_ w. w, h_running = \<lambda>w. 0 < la_rounds w\<rparr>"

lemma lan_safe: "datagram_safe (h_api lan_host) s la_sent"
  by (auto simp: datagram_safe_def lan_host_def lan_api_def split: list.splits prod.splits)

lemma lan_whole: "whole_datagrams (h_api lan_host)"
  by (simp add: whole_datagrams_def lan_host_def lan_api_def)

lemma lan_quiet: "sleep_quiet lan_host la_sent"
  by (simp add: sleep_quiet_def lan_host_def)

lemma lan_valid: "is_valid_socket 3"
  by (simp add: is_valid_socket_def kInvalidSocket_def)

definition demo_lan :: lan where
  "demo_lan =
     \<lparr>la_sent = [], la_waiting = [(Sockaddr_in 0 50000, announcement ''laptop'')], la_time = 5,
      la_rounds = 2\<rparr>"

lemma lan_open:
  "udp_open (h_api lan_host) kInvalidSocket w = (True, 3, w)"
  "udp_enable_broadcast (h_api lan_host) 3 w = (True, w)"
  "udp_bind_to (h_api lan_host) kInvalidSocket p w = (True, 3, w)"
  "udp_set_receive_timeout (h_api lan_host) 3 n w = (True, w)"
  by (simp_all add: udp_open_def udp_enable_broadcast_def udp_bind_to_def udp_set_receive_timeout_def
      sock_close_def set_reuse_address_def lan_host_def lan_api_def is_valid_socket_def kInvalidSocket_def)

theorem udp_send_to_exact_witness:
  "\<exists>ok w'. udp_send_to (h_api lan_host) 3 [1, 2, 3] broadcast_endpoint demo_lan = Some (ok, w') \<and>
    (if ok then (\<exists>a. la_sent w' = la_sent demo_lan @ [(a, [1, 2, 3])]) \<and>
        length [1, 2, 3 :: u8] < 2 ^ 31 \<and> is_valid_socket 3
     else la_sent w' = la_sent demo_lan \<or>
        (\<exists>a n. n < length [1, 2, 3 :: u8] \<and> la_sent w' = la_sent demo_lan @ [(a, take n [1, 2, 3])]))"
  by (rule udp_send_to_exact [OF lan_safe]) simp

theorem broadcaster_announces_witness:
  "\<exists>data w'. parse_discovery_message (string_of_bytes data) ''10.0.0.7'' 5 =
      Some (announced_peer ''laptop'' ''10.0.0.7'' 5) \<and>
    rounds lan_host 3 data broadcast_endpoint 2 demo_lan = Some w' \<and> length (la_sent w') \<le> 2"
  using broadcaster_announces [OF lan_safe lan_whole lan_quiet _ lan_open(1,2), of "''laptop''" demo_lan]
  by (simp add: is_help_arg_def demo_lan_def) (elim exE conjE, metis)

lemma demo_start: "listening lan_host 3 ''here'' (listener_start 5) demo_lan"
  by (rule listening.start)

lemma demo_heard:
  "sys_recvfrom (h_api lan_host) 3 1024 demo_lan =
     (int (length (announcement ''laptop'')), announcement ''laptop'', Sockaddr_in 0 50000,
      demo_lan\<lparr>la_waiting := [], la_rounds := 1\<rparr>)"
  using length_announcement [of "''laptop''"] by (simp add: lan_host_def lan_api_def demo_lan_def)

lemma demo_now:
  "h_now lan_host (demo_lan\<lparr>la_waiting := [], la_rounds := 1\<rparr>) =
     (5, demo_lan\<lparr>la_waiting := [], la_time := 6, la_rounds := 1\<rparr>)"
  "h_now lan_host (demo_lan\<lparr>la_waiting := [], la_time := 6, la_rounds := 1\<rparr>) =
     (6, demo_lan\<lparr>la_waiting := [], la_time := 7, la_rounds := 1\<rparr>)"
  by (simp_all add: lan_host_def demo_lan_def)

lemma demo_ip: "ep_host (endpoint_from_sockaddr (h_api lan_host) (Sockaddr_in 0 50000)) = ''10.0.0.7''"
  by (simp add: endpoint_from_sockaddr_def lan_host_def lan_api_def)

lemma demo_foreign: "\<not> own_announcement ''here'' (announced_peer ''laptop'' ''10.0.0.7'' t)"
  by (simp add: own_announcement_def announced_peer_def looks_like_loopback_def)

theorem discovery_end_to_end_witness:
  "map_of (li_peers (fst (listener_step lan_host 3 ''here'' (listener_start 5) demo_lan))) ''10.0.0.7:47111'' =
     Some (announced_peer ''laptop'' ''10.0.0.7'' 6)"
proof -
  obtain st' w' where step: "listener_step lan_host 3 ''here'' (listener_start 5) demo_lan = (st', w')"
    by (cases "listener_step lan_host 3 ''here'' (listener_start 5) demo_lan")
  have "map_of (li_peers st') ''10.0.0.7:47111'' =
    (if ''10.0.0.7:47111'' = ''10.0.0.7'' @ '':47111'' then Some (announced_peer ''laptop'' ''10.0.0.7'' 6)
     else case map_of (li_peers (listener_start 5)) ''10.0.0.7:47111'' of
            None \<Rightarrow> None
          | Some p \<Rightarrow> if 5 - pe_last_seen p > seconds 10 then None else Some p)"
    by (rule discovery_end_to_end [OF lan_valid lan_safe demo_start demo_heard demo_now _ demo_ip [symmetric]
          demo_foreign step]) simp
  then show ?thesis
    by (simp add: step)
qed

theorem listener_table_invariant_witness:
  "length (li_buffer (fst (listener_step lan_host 3 ''here'' (listener_start 5) demo_lan))) = 1024 \<and>
   sorted_wrt (<) (map fst (li_peers (fst (listener_step lan_host 3 ''here'' (listener_start 5) demo_lan))))"
proof -
  obtain st' w' where step: "listener_step lan_host 3 ''here'' (listener_start 5) demo_lan = (st', w')"
    by (cases "listener_step lan_host 3 ''here'' (listener_start 5) demo_lan")
  have "listening lan_host 3 ''here'' st' w'"
    by (rule listening.step [OF demo_start _ step]) (simp add: lan_host_def demo_lan_def)
  from listener_table_invariant [OF lan_valid lan_safe this] show ?thesis
    by (simp add: step)
qed

theorem listener_step_refines_witness:
  "map_of (li_peers (fst (listener_step lan_host 3 ''here'' (listener_start 5) demo_lan))) =
    (if \<exists>p. heard lan_host 3 demo_lan = Some p \<and> own_announcement ''here'' p then map_of []
     else spec_step (step_time lan_host 3 demo_lan) (heard lan_host 3 demo_lan) (map_of []))"
proof -
  obtain st' w' where step: "listener_step lan_host 3 ''here'' (listener_start 5) demo_lan = (st', w')"
    by (cases "listener_step lan_host 3 ''here'' (listener_start 5) demo_lan")
  have empty: "li_peers (listener_start 5) = []"
    by (simp add: listener_start_def)
  show ?thesis
    unfolding step fst_conv
    by (rule listener_step_refines [OF lan_valid lan_safe demo_start step, unfolded empty])
qed

end
