(* ===== verification/Descriptors.thy ===== *)
theory Descriptors
  imports Pipe Discovery_System
begin

text \<open>
  Who owns which descriptor. \<open>opened w\<close> is the set of descriptors that the process has open;
  the discipline says what the system does to it: \<open>socket\<close> and \<open>accept\<close> open a new descriptor
  or fail, \<open>close\<close> closes its argument, everything else leaves the set alone. Under it the
  operations of the socket classes, and so all four programs, close whatever they open. In a
  process that \<open>SIGPIPE\<close> has ended it is the kernel that closes what is open; the closing that the
  programs then still do in the model stands for that.
\<close>

definition io_keeps :: "'w sock_api \<Rightarrow> ('w \<Rightarrow> 'x) \<Rightarrow> bool" where
  "io_keeps api obs \<longleftrightarrow>
     (\<forall>s bs w. obs (snd (sys_send api s bs w)) = obs w) \<and>
     (\<forall>s k w. obs (snd (snd (sys_recv api s k w))) = obs w)"

definition opens :: "('w \<Rightarrow> socket_t set) \<Rightarrow> 'w \<Rightarrow> socket_t \<times> 'w \<Rightarrow> bool" where
  "opens opened w r \<longleftrightarrow>
     (if is_valid_socket (fst r) then fst r \<notin> opened w \<and> opened (snd r) = insert (fst r) (opened w)
      else opened (snd r) = opened w)"

definition fd_discipline :: "'w sock_api \<Rightarrow> ('w \<Rightarrow> socket_t set) \<Rightarrow> bool" where
  "fd_discipline api opened \<longleftrightarrow> io_keeps api opened \<and>
     (\<forall>w. kInvalidSocket \<notin> opened w) \<and>
     (\<forall>f k p w. opens opened w (sys_socket api f k p w)) \<and>
     (\<forall>s w. opens opened w (sys_accept api s w)) \<and>
     (\<forall>s w. opened (sys_close api s w) = opened w - {s}) \<and>
     (\<forall>s x w. opened (snd (sys_setsockopt api s x w)) = opened w) \<and>
     (\<forall>h p f k t w. opened (snd (snd (sys_getaddrinfo api h p f k t w))) = opened w) \<and>
     (\<forall>s a w. opened (snd (sys_connect api s a w)) = opened w) \<and>
     (\<forall>s a w. opened (snd (sys_bind api s a w)) = opened w) \<and>
     (\<forall>s n w. opened (snd (sys_listen api s n w)) = opened w) \<and>
     (\<forall>s bs a w. opened (snd (sys_sendto api s bs a w)) = opened w) \<and>
     (\<forall>s k w. opened (snd (snd (snd (sys_recvfrom api s k w)))) = opened w)"

named_theorems fd

lemma fd_laws:
  assumes "fd_discipline api opened"
  shows "io_keeps api opened"
    and "kInvalidSocket \<notin> opened w"
    and "opens opened w (sys_socket api f k p w)"
    and "opens opened w (sys_accept api s w)"
    and "opened (sys_close api s w) = opened w - {s}"
    and "sys_setsockopt api s x w = (r, w1) \<Longrightarrow> opened w1 = opened w"
    and "sys_getaddrinfo api h p' f k t w = (r, l, w1) \<Longrightarrow> opened w1 = opened w"
    and "sys_connect api s a w = (r, w1) \<Longrightarrow> opened w1 = opened w"
    and "sys_bind api s a w = (r, w1) \<Longrightarrow> opened w1 = opened w"
    and "sys_listen api s n w = (r, w1) \<Longrightarrow> opened w1 = opened w"
    and "sys_sendto api s bs a w = (r, w1) \<Longrightarrow> opened w1 = opened w"
    and "sys_recvfrom api s m w = (r, d, a', w1) \<Longrightarrow> opened w1 = opened w"
  using assms unfolding fd_discipline_def by (metis fst_conv snd_conv)+

subsection \<open>Sending and receiving keep what they do not touch\<close>

lemma send_loop_keeps:
  assumes "send_loop api s data t w = Some (ok, w')" and "io_keeps api obs"
  shows "obs w' = obs w"
proof -
  have "io_keeps api obs \<longrightarrow> obs (snd (ok, w')) = obs w"
    using assms(1)
  proof (rule send_loop.raw_induct [rotated])
    fix f api s data and t :: u64 and w r
    assume IH: "\<And>api s data t w r. f api s data t w = Some r \<Longrightarrow> io_keeps api obs \<longrightarrow> obs (snd r) = obs w"
      and run: "(if t < of_nat (length data)
         then let remaining = of_nat (length data) - t; chunk_size = unat (min remaining int_max);
                  (sent, w) = sys_send api s (take chunk_size (drop (unat t) data)) w
              in if sys_killed api w then Some (False, w)
                 else if sent = -1 then Some (False, w) else if sent = 0 then Some (False, w)
                 else f api s data (t + of_int sent) w
         else Some (True, w)) = Some r"
    show "io_keeps api obs \<longrightarrow> obs (snd r) = obs w"
    proof
      assume keeps: "io_keeps api obs"
      obtain n w1 where send: "sys_send api s
          (take (unat (min (of_nat (length data) - t) int_max)) (drop (unat t) data)) w = (n, w1)"
        by (metis surj_pair)
      have "obs w1 = obs w"
        using keeps send unfolding io_keeps_def by (metis snd_conv)
      then show "obs (snd r) = obs w"
        using run send IH [of api s data "t + of_int n" w1 r] keeps by (auto split: if_splits)
    qed
  qed
  then show ?thesis using assms(2) by simp
qed

lemma recv_loop_keeps:
  assumes "recv_loop api s n t acc w = Some (ok, d, w')" and "io_keeps api obs"
  shows "obs w' = obs w"
proof -
  have "io_keeps api obs \<longrightarrow> obs (snd (snd (ok, d, w'))) = obs w"
    using assms(1)
  proof (rule recv_loop.raw_induct [rotated])
    fix f api s n and t :: u64 and acc w r
    assume IH: "\<And>api s n t acc w r. f api s n t acc w = Some r \<Longrightarrow>
        io_keeps api obs \<longrightarrow> obs (snd (snd r)) = obs w"
      and run: "(if t < of_nat n
         then let remaining = of_nat n - t; chunk_size = unat (min remaining int_max);
                  (k, d, w) = sys_recv api s chunk_size w
              in if k = -1 then Some (False, acc, w) else if k = 0 then Some (False, acc, w)
                 else f api s n (t + of_int k) (acc @ d) w
         else Some (True, acc, w)) = Some r"
    show "io_keeps api obs \<longrightarrow> obs (snd (snd r)) = obs w"
    proof
      assume keeps: "io_keeps api obs"
      obtain k d1 w1 where recv: "sys_recv api s (unat (min (of_nat n - t) int_max)) w = (k, d1, w1)"
        by (metis prod_cases3)
      have "obs w1 = obs w"
        using keeps recv unfolding io_keeps_def by (metis snd_conv)
      then show "obs (snd (snd r)) = obs w"
        using run recv IH [of api s n "t + of_int k" "acc @ d1" w1 r] keeps by (auto split: if_splits)
    qed
  qed
  then show ?thesis using assms(2) by simp
qed

named_theorems keeps

lemmas unfold_run = bind_eq_Some_conv Let_def case_prod_unfold

lemma send_all_keeps [keeps]:
  "io_keeps api obs \<Longrightarrow> send_all api s data w = Some r \<Longrightarrow> obs (snd r) = obs w"
  using send_loop_keeps by (cases r) (auto simp: send_all_def split: if_splits)

lemma recv_exact_keeps [keeps]:
  "io_keeps api obs \<Longrightarrow> recv_exact api s n w = Some r \<Longrightarrow> obs (snd (snd r)) = obs w"
  using recv_loop_keeps by (cases r) (auto simp: recv_exact_def split: if_splits)

lemma send_messages_keep [keeps]:
  assumes "io_keeps api obs"
  shows "send_chunk_header api s h w = Some r \<Longrightarrow> obs (snd r) = obs w"
    and "send_hash_packet api s p w = Some r \<Longrightarrow> obs (snd r) = obs w"
    and "send_file_manifest api s m w = Some r \<Longrightarrow> obs (snd r) = obs w"
    and "send_continue_request api s q w = Some r \<Longrightarrow> obs (snd r) = obs w"
  by (auto simp: send_chunk_header_def send_hash_packet_def send_file_manifest_def
      send_continue_request_def Let_def dest: send_all_keeps [OF assms] split: if_splits)

lemma receive_messages_keep [keeps]:
  assumes "io_keeps api obs"
  shows "receive_chunk_header api s h w = Some rh \<Longrightarrow> obs (snd (snd rh)) = obs w"
    and "receive_hash_packet api s p w = Some rp \<Longrightarrow> obs (snd (snd rp)) = obs w"
    and "receive_file_manifest api s m w = Some rm \<Longrightarrow> obs (snd (snd rm)) = obs w"
    and "receive_continue_request api s q w = Some rq \<Longrightarrow> obs (snd (snd rq)) = obs w"
  by (auto simp: receive_chunk_header_def receive_hash_packet_def receive_file_manifest_def
      receive_continue_request_def unfold_run dest!: recv_exact_keeps [OF assms] split: if_splits)

lemma send_chunks_loop_keeps [keeps]:
  assumes "io_keeps api obs"
  shows "send_chunks_loop api s fs m input is p w = Some r \<Longrightarrow> obs (snd (snd r)) = obs w"
proof (induction "is" arbitrary: input p w)
  case (Cons i "is")
  show ?case
    using Cons.prems by (auto simp: unfold_run split: if_splits dest!: keeps [OF assms] Cons.IH)
qed auto

lemma sender_session_keeps [keeps]:
  assumes "io_keeps api obs"
  shows "sender_session api s path m hash fs w = Some r \<Longrightarrow> obs (snd r) = obs w"
  by (auto simp: sender_session_def send_file_chunks_def unfold_run split: if_splits
      dest!: keeps [OF assms])

lemma receive_one_chunk_keeps [keeps]:
  assumes "io_keeps api obs"
  shows "receive_one_chunk api s cp m i t w = Some r \<Longrightarrow> obs (snd (snd r)) = obs w"
  by (auto simp: receive_one_chunk_def unfold_run split: if_splits dest!: keeps [OF assms])

lemma receive_chunks_loop_keeps [keeps]:
  assumes "io_keeps api obs"
  shows "receive_chunks_loop api s cp m is t w = Some r \<Longrightarrow> obs (snd (snd r)) = obs w"
proof (induction "is" arbitrary: t w)
  case (Cons i "is")
  show ?case
    using Cons.prems
    by (auto simp: unfold_run split: if_splits dest!: receive_one_chunk_keeps [OF assms] Cons.IH)
qed auto

lemma receive_file_chunks_keeps [keeps]:
  assumes "io_keeps api obs"
  shows "receive_file_chunks api s op cp m is c p fresh fs w = Some r \<Longrightarrow>
     obs (snd (snd (snd (snd r)))) = obs w"
  by (auto simp: receive_file_chunks_def unfold_run split: if_splits dest!: keeps [OF assms])

lemma verify_received_keeps [keeps]:
  assumes "io_keeps api obs"
  shows "verify_received api s m op cp fs w = Some r \<Longrightarrow> obs (snd (snd r)) = obs w"
  by (auto simp: verify_received_def unfold_run split: if_splits dest!: keeps [OF assms])
    (auto simp: unfold_run split: sum.splits if_splits)

lemma receiver_session_keeps [keeps]:
  assumes "io_keeps api obs"
  shows "receiver_session api s dir fs w = Some r \<Longrightarrow> obs (snd (snd r)) = obs w"
  by (auto simp: receiver_session_def unfold_run split: if_splits dest!: keeps [OF assms])

subsection \<open>Opening and closing\<close>

lemma fd_close [fd]:
  assumes "fd_discipline api opened"
  shows "opened (snd (sock_close api s w)) = opened w - {s}"
    and "fst (sock_close api s w) = kInvalidSocket"
  using fd_laws(2,5) [OF assms]
  by (auto simp: sock_close_def close_socket_def is_valid_socket_def)

lemma fd_close_socket:
  assumes "fd_discipline api opened"
  shows "opened (close_socket api s w) = opened w - {s}"
  using fd_laws(2,5) [OF assms] by (auto simp: close_socket_def is_valid_socket_def)

lemma fd_reuse:
  assumes "fd_discipline api opened"
  shows "opened (snd (set_reuse_address api s w)) = opened w"
  using fd_laws(6) [OF assms] by (auto simp: set_reuse_address_def split: prod.split)

text \<open>What an operation leaves that ends with a socket: one new descriptor, or none.\<close>

definition delivers :: "('w \<Rightarrow> socket_t set) \<Rightarrow> socket_t set \<Rightarrow> bool \<Rightarrow> socket_t \<Rightarrow> 'w \<Rightarrow> bool" where
  "delivers opened before ok s w \<longleftrightarrow>
     (if ok then is_valid_socket s \<and> s \<notin> before \<and> opened w = insert s before
      else s = kInvalidSocket \<and> opened w = before)"

lemma delivers_release:
  assumes "fd_discipline api opened" and "delivers opened before ok s w"
  shows "opened (snd (sock_close api s w)) = before"
proof -
  have "kInvalidSocket \<notin> before"
    using assms fd_laws(2) [OF assms(1), of w] by (auto simp: delivers_def split: if_splits)
  then show ?thesis
    using assms(2) fd_close(1) [OF assms(1), of s w] by (auto simp: delivers_def split: if_splits)
qed

lemma opens_delivers:
  "opens opened w (s, w') \<Longrightarrow> delivers opened (opened w) (is_valid_socket s) s w'"
  by (auto simp: opens_def delivers_def is_valid_socket_def)

lemma connect_candidates_delivers:
  assumes "fd_discipline api opened" and "connect_candidates api cs w = (r, w')"
  shows "case r of None \<Rightarrow> opened w' = opened w
    | Some s \<Rightarrow> delivers opened (opened w) True s w'"
  using assms(2)
proof (induction cs arbitrary: w)
  case (Cons c cs)
  obtain s w1 where sock: "sys_socket api (ai_family c) (ai_socktype c) (ai_protocol c) w = (s, w1)"
    by (metis surj_pair)
  obtain n w2 where conn: "sys_connect api s (ai_addr c) w1 = (n, w2)"
    by (metis surj_pair)
  have w1: "delivers opened (opened w) (is_valid_socket s) s w1"
    using opens_delivers fd_laws(3) [OF assms(1)] sock by metis
  have w2: "opened w2 = opened w1"
    by (rule fd_laws(8) [OF assms(1) conn])
  have closed: "opened (close_socket api s w2) = opened w" if "is_valid_socket s"
    using that w1 w2 fd_close_socket [OF assms(1), of s w2] by (simp add: delivers_def)
  show ?case
    using Cons.prems Cons.IH [of w1] Cons.IH [of "close_socket api s w2"] w1 w2 closed
    by (auto simp: sock conn delivers_def split: if_splits option.splits)
qed simp

lemma connect_to_delivers:
  assumes "fd_discipline api opened" and "connect_to api kInvalidSocket e w = (ok, s, w')"
  shows "delivers opened (opened w) ok s w'"
proof -
  obtain r l w1 where res: "sys_getaddrinfo api (ep_host e) (to_string (ep_port e)) AF_UNSPEC
      SOCK_STREAM IPPROTO_TCP w = (r, l, w1)"
    by (metis prod_cases3)
  obtain q w2 where cand: "connect_candidates api l w1 = (q, w2)"
    by (metis surj_pair)
  have "sock_close api kInvalidSocket w = (kInvalidSocket, w)"
    by (simp add: sock_close_def is_valid_socket_def)
  then show ?thesis
    using assms(2) fd_laws(7) [OF assms(1) res] connect_candidates_delivers [OF assms(1) cand]
    by (auto simp: connect_to_def res cand delivers_def split: if_splits option.splits)
qed

lemma close_delivers:
  assumes "fd_discipline api opened" and "delivers opened before ok s w"
    and "sock_close api s v = (s', w')" and "opened v = opened w"
  shows "delivers opened before False s' w'"
proof -
  have "kInvalidSocket \<notin> before"
    using assms(1,2) fd_laws(2) [OF assms(1), of w] by (auto simp: delivers_def split: if_splits)
  then show ?thesis
    using assms(2-4) fd_close [OF assms(1), of s v] by (auto simp: delivers_def split: if_splits)
qed

lemma bind_and_listen_delivers:
  assumes "fd_discipline api opened" and "bind_and_listen api kInvalidSocket port n w = (ok, s, w')"
  shows "delivers opened (opened w) ok s w'"
proof -
  obtain s1 w1 where sock: "sys_socket api AF_INET SOCK_STREAM IPPROTO_TCP w = (s1, w1)"
    by (metis surj_pair)
  obtain r2 w2 where reuse: "set_reuse_address api s1 w1 = (r2, w2)" by (metis surj_pair)
  obtain r3 w3 where bound: "sys_bind api s1 (Sockaddr_in 0 port) w2 = (r3, w3)" by (metis surj_pair)
  obtain r4 w4 where listen: "sys_listen api s1 n w3 = (r4, w4)" by (metis surj_pair)
  have same: "opened w2 = opened w1" "opened w3 = opened w1" "opened w4 = opened w1"
    using fd_reuse [OF assms(1), of s1 w1] fd_laws(9) [OF assms(1) bound] fd_laws(10) [OF assms(1) listen]
    by (simp_all add: reuse)
  have d: "delivers opened (opened w) (is_valid_socket s1) s1 w1"
    using opens_delivers fd_laws(3) [OF assms(1)] sock by metis
  note closing = close_delivers [OF assms(1) d _ same(1)] close_delivers [OF assms(1) d _ same(2)]
    close_delivers [OF assms(1) d _ same(3)]
  have start: "sock_close api kInvalidSocket w = (kInvalidSocket, w)"
    by (simp add: sock_close_def is_valid_socket_def)
  show ?thesis
    using assms(2) d closing same
    by (auto simp: bind_and_listen_def start sock reuse bound listen delivers_def split: if_splits prod.splits)
qed

lemma accept_delivers:
  assumes "fd_discipline api opened" and "accept_client api server w = (s, w')"
  shows "delivers opened (opened w) (is_valid_socket s) s w'"
proof -
  obtain s1 w1 where acc: "sys_accept api server w = (s1, w1)" by (metis surj_pair)
  then have "delivers opened (opened w) (is_valid_socket s1) s1 w1"
    using opens_delivers fd_laws(4) [OF assms(1)] by metis
  then show ?thesis
    using assms(2)
    by (auto simp: accept_client_def acc delivers_def is_valid_socket_def split: if_splits)
qed

subsection \<open>The transfer programs\<close>

text \<open>
  The transfer programs close what they open. On a system that hands out and takes back
  descriptors as POSIX describes, whatever the arguments, the files and the peer, when the
  sender or the receiver ends, exactly those descriptors are open that were open before.
\<close>

lemma transfer_programs_close_sockets:
  assumes "fd_discipline api opened"
  shows "(sender_main api args fs w = Some (code, w') \<longrightarrow> opened w' = opened w) \<and>
    (receiver_main api args fs w = Some (code, fs', w') \<longrightarrow> opened w' = opened w)"
proof (intro conjI impI)
  note io = fd_laws(1) [OF assms]
  assume run: "sender_main api args fs w = Some (code, w')"
  show "opened w' = opened w"
  proof (cases "\<exists>ip path n hash. args = [ip, path] \<and> file_size path fs = Inr n \<and>
      sha256_file path fs = Some (Inr hash)")
    case False
    then have "w' = w"
      using run
      by (auto simp: sender_main_def bind_eq_Some_conv split: list.splits sum.splits if_splits)
        (metis obj_sumE)
    then show ?thesis by simp
  next
    case True
    then obtain ip path n hash where args: "args = [ip, path]" "file_size path fs = Inr n"
      "sha256_file path fs = Some (Inr hash)"
      by blast
    obtain ok s w1 where conn: "connect_to api kInvalidSocket
        \<lparr>ep_host = ip, ep_port = kDefaultTransferTcpPort\<rparr> w = (ok, s, w1)"
      by (metis prod_cases3)
    have d: "delivers opened (opened w) ok s w1"
      by (rule connect_to_delivers [OF assms conn])
    have close: "opened (snd (sock_close api s v)) = opened w" if "opened v = opened w1" for v
      using delivers_release [OF assms, of "opened w" ok s v] d that by (simp add: delivers_def)
    then show ?thesis
      using run
      by (auto simp: sender_main_def args conn unfold_run split: if_splits
          dest!: sender_session_keeps [OF io])
  qed
next
  note io = fd_laws(1) [OF assms]
  assume run: "receiver_main api args fs w = Some (code, fs', w')"
  obtain l server w1 where bind: "bind_and_listen api kInvalidSocket kDefaultTransferTcpPort 16 w = (l, server, w1)"
    by (metis prod_cases3)
  obtain client w2 where acc: "accept_client api server w1 = (client, w2)"
    by (metis surj_pair)
  have server: "delivers opened (opened w) l server w1"
    by (rule bind_and_listen_delivers [OF assms bind])
  have client: "delivers opened (opened w1) (is_valid_socket client) client w2"
    by (rule accept_delivers [OF assms acc])
  have close_server: "opened (snd (sock_close api server v)) = opened w" if "opened v = opened w1" for v
    using delivers_release [OF assms, of "opened w" l server v] server that by (simp add: delivers_def)
  have close_client: "opened (snd (sock_close api client v)) = opened w1" if "opened v = opened w2" for v
    using delivers_release [OF assms, of "opened w1" "is_valid_socket client" client v] client that
    by (simp add: delivers_def)
  have no_client: "opened w2 = opened w1" if "\<not> is_valid_socket client"
    using client that by (simp add: delivers_def)
  show "opened w' = opened w"
    using run close_server close_client no_client receiver_session_keeps [OF io]
    by (auto simp: receiver_main_def bind acc unfold_run split: if_splits)
qed

subsection \<open>The discovery programs\<close>

definition host_keeps :: "'w host \<Rightarrow> ('w \<Rightarrow> 'x) \<Rightarrow> bool" where
  "host_keeps h obs \<longleftrightarrow>
     (\<forall>w. obs (snd (h_now h w)) = obs w) \<and>
     (\<forall>n w. obs (snd (snd (h_gethostname h n w))) = obs w) \<and>
     (\<forall>n w. obs (h_sleep h n w) = obs w) \<and> (\<forall>t w. obs (h_print h t w) = obs w)"

lemma udp_receive_from_keeps:
  "fd_discipline api opened \<Longrightarrow> opened (snd (snd (udp_receive_from api s b w))) = opened w"
  using fd_laws(12) [of api opened]
  by (auto simp: udp_receive_from_def Let_def split: prod.split)

lemma udp_send_to_keeps:
  assumes "fd_discipline api opened"
  shows "udp_send_to api s data e w = Some r \<Longrightarrow> opened (snd r) = opened w"
proof -
  obtain n l w1 where res: "sys_getaddrinfo api (ep_host e) (to_string (ep_port e)) AF_INET SOCK_DGRAM
      IPPROTO_UDP w = (n, l, w1)"
    by (metis prod_cases3)
  then show "udp_send_to api s data e w = Some r \<Longrightarrow> opened (snd r) = opened w"
    using fd_laws(7) [OF assms res] fd_laws(11) [OF assms]
    by (auto simp: udp_send_to_def Let_def split: if_splits list.splits prod.splits)
qed

lemma listener_step_keeps:
  assumes "fd_discipline (h_api h) opened" and "host_keeps h opened"
  shows "opened (snd (listener_step h s name st w)) = opened w"
  using assms(2) udp_receive_from_keeps [OF assms(1), of s "li_buffer st" w]
  by (auto simp: listener_step_def finish_step_def Let_def host_keeps_def case_prod_unfold
      split: option.split)

lemma listener_loop_keeps:
  assumes "listener_loop h s name st w = Some r"
  shows "fd_discipline (h_api h) opened \<longrightarrow> host_keeps h opened \<longrightarrow> opened (snd r) = opened w"
  using assms
proof (rule listener_loop.raw_induct [rotated])
  fix f h s name st w r
  assume "\<And>h s name st w r. f h s name st w = Some r \<Longrightarrow>
      fd_discipline (h_api h) opened \<longrightarrow> host_keeps h opened \<longrightarrow> opened (snd r) = opened w"
    and "(if h_running h w then let (st, w) = listener_step h s name st w in f h s name st w
       else Some (st, w)) = Some r"
  then show "fd_discipline (h_api h) opened \<longrightarrow> host_keeps h opened \<longrightarrow> opened (snd r) = opened w"
    using listener_step_keeps [of h opened s name st w]
    by (auto simp: case_prod_unfold Let_def split: if_splits)
qed

lemma broadcaster_loop_keeps:
  assumes "broadcaster_loop h s data e w = Some w'"
  shows "fd_discipline (h_api h) opened \<longrightarrow> host_keeps h opened \<longrightarrow> opened w' = opened w"
  using assms
proof (rule broadcaster_loop.raw_induct [rotated])
  fix f h s data e w r
  assume "\<And>h s data e w r. f h s data e w = Some r \<Longrightarrow>
      fd_discipline (h_api h) opened \<longrightarrow> host_keeps h opened \<longrightarrow> opened r = opened w"
    and "(if h_running h w then do {
         (ok, w) \<leftarrow> udp_send_to (h_api h) s data e w; f h s data e (h_sleep h (seconds 2) w) }
       else Some w) = Some r"
  then show "fd_discipline (h_api h) opened \<longrightarrow> host_keeps h opened \<longrightarrow> opened r = opened w"
    using udp_send_to_keeps [of "h_api h" opened s data e w]
    by (fastforce simp: bind_eq_Some_conv host_keeps_def split: if_splits)
qed

lemma udp_open_delivers:
  assumes "fd_discipline api opened" and "udp_open api kInvalidSocket w = (ok, s, w')"
  shows "delivers opened (opened w) ok s w'"
proof -
  obtain s1 w1 where sock: "sys_socket api AF_INET SOCK_DGRAM IPPROTO_UDP w = (s1, w1)"
    by (metis surj_pair)
  have "delivers opened (opened w) (is_valid_socket s1) s1 w1"
    using opens_delivers fd_laws(3) [OF assms(1)] sock by metis
  moreover have "sock_close api kInvalidSocket w = (kInvalidSocket, w)"
    by (simp add: sock_close_def is_valid_socket_def)
  ultimately show ?thesis
    using assms(2) by (auto simp: udp_open_def sock split: if_splits)
qed

lemma udp_bind_to_delivers:
  assumes "fd_discipline api opened" and "udp_bind_to api kInvalidSocket port w = (ok, s, w')"
  shows "delivers opened (opened w) ok s w'"
proof -
  obtain ok1 s1 w1 where op: "udp_open api kInvalidSocket w = (ok1, s1, w1)" by (metis prod_cases3)
  obtain r2 w2 where reuse: "set_reuse_address api s1 w1 = (r2, w2)" by (metis surj_pair)
  obtain r3 w3 where bound: "sys_bind api s1 (Sockaddr_in 0 port) w2 = (r3, w3)" by (metis surj_pair)
  have d: "delivers opened (opened w) ok1 s1 w1"
    by (rule udp_open_delivers [OF assms(1) op])
  have same: "opened w2 = opened w1" "opened w3 = opened w1"
    using fd_reuse [OF assms(1), of s1 w1] fd_laws(9) [OF assms(1) bound] by (simp_all add: reuse)
  show ?thesis
    using assms(2) d same close_delivers [OF assms(1) d _ same(1)] close_delivers [OF assms(1) d _ same(2)]
    by (auto simp: udp_bind_to_def op reuse bound delivers_def is_valid_socket_def split: if_splits prod.splits)
qed

lemma udp_options_keep:
  assumes "fd_discipline api opened"
  shows "opened (snd (udp_enable_broadcast api s w)) = opened w"
    and "opened (snd (udp_set_receive_timeout api s n w)) = opened w"
  using fd_laws(6) [OF assms]
  by (auto simp: udp_enable_broadcast_def udp_set_receive_timeout_def Let_def split: prod.split)

text \<open>
  The discovery programs close their socket too: when the listener or the broadcaster ends,
  because of its arguments, a failed set-up or a signal, exactly those descriptors are open
  that were open before.
\<close>

lemma discovery_programs_close_sockets:
  assumes "fd_discipline (h_api h) opened" and "host_keeps h opened"
  shows "(listener_main h args w = Some (code, w') \<longrightarrow> opened w' = opened w) \<and>
    (broadcaster_main h args w = Some (code, w') \<longrightarrow> opened w' = opened w)"
proof (intro conjI impI)
  have now: "opened (snd (h_now h v)) = opened v" for v
    using assms(2) by (simp add: host_keeps_def)
  assume run: "listener_main h args w = Some (code, w')"
  obtain n w1 where host: "hostname_or_empty h w = (n, w1)" by (metis surj_pair)
  obtain ok s w2 where bind: "udp_bind_to (h_api h) kInvalidSocket kDefaultDiscoveryUdpPort w1 = (ok, s, w2)"
    by (metis prod_cases3)
  have w1: "opened w1 = opened w"
    using host assms(2) by (auto simp: hostname_or_empty_def host_keeps_def case_prod_unfold Let_def split: if_splits)
  have d: "delivers opened (opened w) ok s w2"
    using udp_bind_to_delivers [OF assms(1) bind] w1 by simp
  have close: "opened (snd (sock_close (h_api h) s v)) = opened w" if "opened v = opened w2" for v
    using delivers_release [OF assms(1), of "opened w" ok s v] d that by (simp add: delivers_def)
  have loop: "opened (snd r) = opened v" if "listener_loop h s name st v = Some r" for name st v r
    using listener_loop_keeps [OF that, of opened] assms by blast
  show "opened w' = opened w"
    using run close udp_options_keep(2) [OF assms(1), of s 500 w2] now
    by (auto simp: listener_main_def host bind unfold_run split: if_splits dest!: loop)
next
  assume run: "broadcaster_main h args w = Some (code, w')"
  obtain n w1 where req: "(if args \<noteq> [] then (hd args, w) else hostname_or_default h w) = (n, w1)"
    by (metis surj_pair)
  obtain ok s w2 where op: "udp_open (h_api h) kInvalidSocket w1 = (ok, s, w2)"
    by (metis prod_cases3)
  have w1: "opened w1 = opened w"
    using req assms(2)
    by (auto simp: hostname_or_default_def host_keeps_def case_prod_unfold Let_def split: if_splits)
  have d: "delivers opened (opened w) ok s w2"
    using udp_open_delivers [OF assms(1) op] w1 by simp
  have close: "opened (snd (sock_close (h_api h) s v)) = opened w" if "opened v = opened w2" for v
    using delivers_release [OF assms(1), of "opened w" ok s v] d that by (simp add: delivers_def)
  have loop: "opened v' = opened v" if "broadcaster_loop h s data e v = Some v'" for data e v v'
    using broadcaster_loop_keeps [OF that, of opened] assms by blast
  show "opened w' = opened w"
    using run close udp_options_keep(1) [OF assms(1), of s w2]
    by (auto simp: broadcaster_main_def req op unfold_run split: if_splits dest!: loop)
qed

subsection \<open>A concrete system\<close>

text \<open>
  A system whose world is the set of open descriptors. It can open one socket, 3, and accept
  one connection, 4; a peer never says anything and closes at once.
\<close>

definition fd_api :: "socket_t set sock_api" where
  "fd_api =
     \<lparr>sys_socket = \<lambda>_ _ _ w. if 3 \<in> w then (-1, w) else (3, insert 3 w), sys_close = \<lambda>s w. w - {s},
      sys_errno = \<lambda>_. EAGAIN, sys_setsockopt = \<lambda>_ _ w. (0, w),
      sys_getaddrinfo = \<lambda>_ _ _ k p w. (-2, [], w),
      sys_connect = \<lambda>_ _ w. (0, w), sys_bind = \<lambda>_ _ w. (0, w), sys_listen = \<lambda>_ _ w. (0, w),
      sys_accept = \<lambda>_ w. if 4 \<in> w then (-1, w) else (4, insert 4 w),
      sys_send = \<lambda>_ bs w. (int (length bs), w), sys_recv = \<lambda>_ k w. (0, [], w),
      sys_sendto = \<lambda>_ bs a w. (-1, w), sys_recvfrom = \<lambda>_ k w. (-1, [], Sockaddr_other, w),
      sys_inet_ntop = \<lambda>_. [], sys_clock = \<lambda>_. 0, sys_killed = \<lambda>_. False\<rparr>"

definition own_fds :: "socket_t set \<Rightarrow> socket_t set" where
  "own_fds w = w - {kInvalidSocket}"

lemma fd_api_discipline: "fd_discipline fd_api own_fds"
  by (auto simp: fd_discipline_def io_keeps_def opens_def fd_api_def own_fds_def is_valid_socket_def
      kInvalidSocket_def)

text \<open>Two runs on such a system.\<close>

lemma fd_receiver_run: "\<exists>w'. receiver_main fd_api [] demo_fs {} = Some (1, demo_fs, w')"
proof -
  have bind: "bind_and_listen fd_api kInvalidSocket kDefaultTransferTcpPort 16 {} = (True, 3, {3})"
    and acc: "accept_client fd_api 3 {3} = (4, {4, 3})"
    by (simp_all add: bind_and_listen_def accept_client_def sock_close_def set_reuse_address_def
        fd_api_def is_valid_socket_def kInvalidSocket_def)
  have "recv_loop fd_api 4 4 0 [] {4, 3} = Some (False, [], {4, 3})"
    by (subst recv_loop.simps) (simp add: fd_api_def)
  then have "receiver_session fd_api 4 ''.'' demo_fs {4, 3} = Some (1, demo_fs, {4, 3})"
    by (simp add: receiver_session_def receive_file_manifest_def recv_exact_def is_valid_socket_def
        kInvalidSocket_def)
  then show ?thesis
    using bind acc by (simp add: receiver_main_def is_valid_socket_def kInvalidSocket_def)
qed

definition fd_host :: "socket_t set host" where
  "fd_host =
     \<lparr>h_api = fd_api, h_now = \<lambda>w. (0, w), h_gethostname = \<lambda>n w. (-1, [], w), h_sleep = \<lambda>n w. w,
      h_print = \<lambda>_ w. w, h_running = \<lambda>_. False\<rparr>"

lemma fd_listener_run: "\<exists>w'. listener_main fd_host [] {} = Some (0, w')"
proof -
  have "udp_bind_to fd_api kInvalidSocket kDefaultDiscoveryUdpPort {} = (True, 3, {3})"
    and "udp_set_receive_timeout fd_api 3 500 {3} = (True, {3})"
    by (simp_all add: udp_bind_to_def udp_open_def udp_set_receive_timeout_def sock_close_def
        set_reuse_address_def fd_api_def is_valid_socket_def kInvalidSocket_def)
  moreover have "listener_loop fd_host 3 [] (listener_start 0) {3} = Some (listener_start 0, {3})"
    by (subst listener_loop.simps) (simp add: fd_host_def)
  ultimately show ?thesis
    by (simp add: listener_main_def hostname_or_empty_def fd_host_def)
qed

lemma fd_host_discipline: "fd_discipline (h_api fd_host) own_fds" "host_keeps fd_host own_fds"
  using fd_api_discipline by (simp_all add: fd_host_def host_keeps_def)

end
