(* ===== verification/Socket_Objects.thy ===== *)
theory Socket_Objects
  imports Descriptors
begin

text \<open>
  The life of socket objects: construction, move, assignment and destruction of \<open>TcpSocket\<close>,
  \<open>TcpServer\<close> and \<open>UdpSocket\<close>. Here the objects have an identity, because a move changes two of
  them and an assignment may name the same one twice: a store maps the live objects of a class
  to their member \<open>socket_\<close>. The three classes write these functions in the same words. The
  step relation lets a program use any number of objects in any order, as far as the types of
  C++ allow it.
\<close>

type_synonym object = nat
type_synonym sockets = "object \<rightharpoonup> socket_t"

subsection \<open>Special member functions\<close>

definition TcpSocket_default :: "object \<Rightarrow> sockets \<Rightarrow> sockets" where
  "TcpSocket_default this m = m(this \<mapsto> kInvalidSocket)"

definition TcpSocket_adopt :: "object \<Rightarrow> socket_t \<Rightarrow> sockets \<Rightarrow> sockets" where
  "TcpSocket_adopt this s m = m(this \<mapsto> s)"

definition TcpSocket_is_open :: "object \<Rightarrow> sockets \<Rightarrow> bool" where
  "TcpSocket_is_open this m = is_valid_socket (the (m this))"

definition TcpSocket_native_handle :: "object \<Rightarrow> sockets \<Rightarrow> socket_t" where
  "TcpSocket_native_handle this m = the (m this)"

definition TcpSocket_close :: "'w sock_api \<Rightarrow> object \<Rightarrow> sockets \<Rightarrow> 'w \<Rightarrow> sockets \<times> 'w" where
  "TcpSocket_close api this m w =
     (if TcpSocket_is_open this m
      then let w = close_socket api (the (m this)) w in (m(this \<mapsto> kInvalidSocket), w)
      else (m, w))"

definition TcpSocket_dtor :: "'w sock_api \<Rightarrow> object \<Rightarrow> sockets \<Rightarrow> 'w \<Rightarrow> sockets \<times> 'w" where
  "TcpSocket_dtor api this m w =
     (let (m, w) = TcpSocket_close api this m w in (m(this := None), w))"

definition TcpSocket_move :: "object \<Rightarrow> object \<Rightarrow> sockets \<Rightarrow> sockets" where
  "TcpSocket_move this other m =
     (let m = m(this \<mapsto> the (m other)) in m(other \<mapsto> kInvalidSocket))"

definition TcpSocket_assign ::
    "'w sock_api \<Rightarrow> object \<Rightarrow> object \<Rightarrow> sockets \<Rightarrow> 'w \<Rightarrow> sockets \<times> 'w" where
  "TcpSocket_assign api this other m w =
     (if this \<noteq> other then
        let (m, w) = TcpSocket_close api this m w;
            m = m(this \<mapsto> the (m other));
            m = m(other \<mapsto> kInvalidSocket)
        in (m, w)
      else (m, w))"

definition TcpServer_default :: "object \<Rightarrow> sockets \<Rightarrow> sockets" where
  "TcpServer_default this m = m(this \<mapsto> kInvalidSocket)"

definition TcpServer_is_open :: "object \<Rightarrow> sockets \<Rightarrow> bool" where
  "TcpServer_is_open this m = is_valid_socket (the (m this))"

definition TcpServer_native_handle :: "object \<Rightarrow> sockets \<Rightarrow> socket_t" where
  "TcpServer_native_handle this m = the (m this)"

definition TcpServer_close :: "'w sock_api \<Rightarrow> object \<Rightarrow> sockets \<Rightarrow> 'w \<Rightarrow> sockets \<times> 'w" where
  "TcpServer_close api this m w =
     (if TcpServer_is_open this m
      then let w = close_socket api (the (m this)) w in (m(this \<mapsto> kInvalidSocket), w)
      else (m, w))"

definition TcpServer_dtor :: "'w sock_api \<Rightarrow> object \<Rightarrow> sockets \<Rightarrow> 'w \<Rightarrow> sockets \<times> 'w" where
  "TcpServer_dtor api this m w =
     (let (m, w) = TcpServer_close api this m w in (m(this := None), w))"

definition TcpServer_move :: "object \<Rightarrow> object \<Rightarrow> sockets \<Rightarrow> sockets" where
  "TcpServer_move this other m =
     (let m = m(this \<mapsto> the (m other)) in m(other \<mapsto> kInvalidSocket))"

definition TcpServer_assign ::
    "'w sock_api \<Rightarrow> object \<Rightarrow> object \<Rightarrow> sockets \<Rightarrow> 'w \<Rightarrow> sockets \<times> 'w" where
  "TcpServer_assign api this other m w =
     (if this \<noteq> other then
        let (m, w) = TcpServer_close api this m w;
            m = m(this \<mapsto> the (m other));
            m = m(other \<mapsto> kInvalidSocket)
        in (m, w)
      else (m, w))"

definition UdpSocket_default :: "object \<Rightarrow> sockets \<Rightarrow> sockets" where
  "UdpSocket_default this m = m(this \<mapsto> kInvalidSocket)"

definition UdpSocket_is_open :: "object \<Rightarrow> sockets \<Rightarrow> bool" where
  "UdpSocket_is_open this m = is_valid_socket (the (m this))"

definition UdpSocket_native_handle :: "object \<Rightarrow> sockets \<Rightarrow> socket_t" where
  "UdpSocket_native_handle this m = the (m this)"

definition UdpSocket_close :: "'w sock_api \<Rightarrow> object \<Rightarrow> sockets \<Rightarrow> 'w \<Rightarrow> sockets \<times> 'w" where
  "UdpSocket_close api this m w =
     (if UdpSocket_is_open this m
      then let w = close_socket api (the (m this)) w in (m(this \<mapsto> kInvalidSocket), w)
      else (m, w))"

definition UdpSocket_dtor :: "'w sock_api \<Rightarrow> object \<Rightarrow> sockets \<Rightarrow> 'w \<Rightarrow> sockets \<times> 'w" where
  "UdpSocket_dtor api this m w =
     (let (m, w) = UdpSocket_close api this m w in (m(this := None), w))"

definition UdpSocket_move :: "object \<Rightarrow> object \<Rightarrow> sockets \<Rightarrow> sockets" where
  "UdpSocket_move this other m =
     (let m = m(this \<mapsto> the (m other)) in m(other \<mapsto> kInvalidSocket))"

definition UdpSocket_assign ::
    "'w sock_api \<Rightarrow> object \<Rightarrow> object \<Rightarrow> sockets \<Rightarrow> 'w \<Rightarrow> sockets \<times> 'w" where
  "UdpSocket_assign api this other m w =
     (if this \<noteq> other then
        let (m, w) = UdpSocket_close api this m w;
            m = m(this \<mapsto> the (m other));
            m = m(other \<mapsto> kInvalidSocket)
        in (m, w)
      else (m, w))"

subsection \<open>Programs over objects\<close>

datatype socket_class = Tcp_class | Server_class | Udp_class

type_synonym objects = "socket_class \<Rightarrow> sockets"

primrec default_of :: "socket_class \<Rightarrow> object \<Rightarrow> sockets \<Rightarrow> sockets" where
  "default_of Tcp_class = TcpSocket_default"
| "default_of Server_class = TcpServer_default"
| "default_of Udp_class = UdpSocket_default"

primrec close_of ::
    "socket_class \<Rightarrow> 'w sock_api \<Rightarrow> object \<Rightarrow> sockets \<Rightarrow> 'w \<Rightarrow> sockets \<times> 'w" where
  "close_of Tcp_class = TcpSocket_close"
| "close_of Server_class = TcpServer_close"
| "close_of Udp_class = UdpSocket_close"

primrec dtor_of ::
    "socket_class \<Rightarrow> 'w sock_api \<Rightarrow> object \<Rightarrow> sockets \<Rightarrow> 'w \<Rightarrow> sockets \<times> 'w" where
  "dtor_of Tcp_class = TcpSocket_dtor"
| "dtor_of Server_class = TcpServer_dtor"
| "dtor_of Udp_class = UdpSocket_dtor"

primrec move_of :: "socket_class \<Rightarrow> object \<Rightarrow> object \<Rightarrow> sockets \<Rightarrow> sockets" where
  "move_of Tcp_class = TcpSocket_move"
| "move_of Server_class = TcpServer_move"
| "move_of Udp_class = UdpSocket_move"

primrec assign_of ::
    "socket_class \<Rightarrow> 'w sock_api \<Rightarrow> object \<Rightarrow> object \<Rightarrow> sockets \<Rightarrow> 'w \<Rightarrow> sockets \<times> 'w" where
  "assign_of Tcp_class = TcpSocket_assign"
| "assign_of Server_class = TcpServer_assign"
| "assign_of Udp_class = UdpSocket_assign"

definition no_objects :: objects where
  "no_objects = (\<lambda>_. Map.empty)"

definition set_member :: "socket_class \<Rightarrow> object \<Rightarrow> socket_t \<Rightarrow> objects \<Rightarrow> objects" where
  "set_member c this s m = m(c := (m c)(this \<mapsto> s))"

subsection \<open>What the code relies on\<close>

text \<open>
  \<open>fds w\<close> maps every open descriptor of the process to what it refers to. The laws are those of
  POSIX. About closing a descriptor that is not open, or accepting on one that does not listen,
  they say nothing at all, so the code must never do it.
\<close>

datatype fd_kind = Fd_stream | Fd_listening | Fd_datagram

primrec kind_of_type :: "socket_kind \<Rightarrow> fd_kind" where
  "kind_of_type SOCK_STREAM = Fd_stream"
| "kind_of_type SOCK_DGRAM = Fd_datagram"

primrec kind_of_class :: "socket_class \<Rightarrow> fd_kind" where
  "kind_of_class Tcp_class = Fd_stream"
| "kind_of_class Server_class = Fd_listening"
| "kind_of_class Udp_class = Fd_datagram"

type_synonym fd_table = "socket_t \<rightharpoonup> fd_kind"

text \<open>The table \<open>F\<close> is \<open>B\<close> with one more descriptor, unless \<open>s\<close> is invalid.\<close>

definition owns :: "fd_table \<Rightarrow> fd_kind \<Rightarrow> socket_t \<Rightarrow> fd_table \<Rightarrow> bool" where
  "owns B k s F \<longleftrightarrow> (if is_valid_socket s then B s = None \<and> F = B(s \<mapsto> k) else F = B)"

definition fd_typed :: "'w sock_api \<Rightarrow> ('w \<Rightarrow> fd_table) \<Rightarrow> bool" where
  "fd_typed api fds \<longleftrightarrow> io_keeps api fds \<and>
     (\<forall>w. fds w kInvalidSocket = None) \<and>
     (\<forall>f k p w s w'. sys_socket api f k p w = (s, w') \<longrightarrow> owns (fds w) (kind_of_type k) s (fds w')) \<and>
     (\<forall>s w c w'. fds w s = Some Fd_listening \<longrightarrow> sys_accept api s w = (c, w') \<longrightarrow>
        owns (fds w) Fd_stream c (fds w')) \<and>
     (\<forall>s w. fds w s \<noteq> None \<longrightarrow> fds (sys_close api s w) = (fds w)(s := None)) \<and>
     (\<forall>s n w r w'. fds w s = Some Fd_stream \<longrightarrow> sys_listen api s n w = (r, w') \<longrightarrow>
        fds w' = (if r = 0 then (fds w)(s \<mapsto> Fd_listening) else fds w)) \<and>
     (\<forall>h p f k t w r l w'. sys_getaddrinfo api h p f k t w = (r, l, w') \<longrightarrow>
        fds w' = fds w \<and> (\<forall>a \<in> set l. ai_socktype a = k)) \<and>
     (\<forall>s x w. fds (snd (sys_setsockopt api s x w)) = fds w) \<and>
     (\<forall>s a w. fds (snd (sys_connect api s a w)) = fds w) \<and>
     (\<forall>s a w. fds (snd (sys_bind api s a w)) = fds w) \<and>
     (\<forall>s bs a w. fds (snd (sys_sendto api s bs a w)) = fds w) \<and>
     (\<forall>s k w. fds (snd (snd (snd (sys_recvfrom api s k w)))) = fds w)"

subsection \<open>Steps\<close>

text \<open>
  One step of a program on its objects. The first five are the special member functions of any
  class; \<open>accept_client\<close> constructs the \<open>TcpSocket\<close> it returns; then come the two uses of the public
  constructor of \<open>TcpSocket\<close> that takes a handle; the others change the member of one object and the
  world as in the theories of the three classes.

  The constructor from a handle has a contract that the code cannot check, because the object
  will close the handle: it must not be in the hands of another object. So a program may construct
  from a handle that it has just got from the system (\<open>adopt_new\<close>), or from any open stream that
  no object holds (\<open>adopt\<close>), or from an invalid one. \<open>TcpSocket b(a.native_handle())\<close> breaks the
  contract: both objects would hold and close the same descriptor. To read a handle and to ask
  whether an object is open are no steps, as they change nothing.
\<close>

inductive sock_step ::
    "'w sock_api \<Rightarrow> ('w \<Rightarrow> fd_table) \<Rightarrow> objects \<times> 'w \<Rightarrow> objects \<times> 'w \<Rightarrow> bool"
  for api :: "'w sock_api" and fds :: "'w \<Rightarrow> fd_table" where
  construct: "m c this = None \<Longrightarrow> sock_step api fds (m, w) (m(c := default_of c this (m c)), w)"
| destroy: "m c this = Some s \<Longrightarrow> dtor_of c api this (m c) w = (k, w') \<Longrightarrow>
    sock_step api fds (m, w) (m(c := k), w')"
| move: "m c this = None \<Longrightarrow> m c other = Some s \<Longrightarrow>
    sock_step api fds (m, w) (m(c := move_of c this other (m c)), w)"
| assign: "m c this = Some s \<Longrightarrow> m c other = Some t \<Longrightarrow>
    assign_of c api this other (m c) w = (k, w') \<Longrightarrow> sock_step api fds (m, w) (m(c := k), w')"
| close: "m c this = Some s \<Longrightarrow> close_of c api this (m c) w = (k, w') \<Longrightarrow>
    sock_step api fds (m, w) (m(c := k), w')"
| connect: "m Tcp_class this = Some s \<Longrightarrow> connect_to api s endpoint w = (ok, s', w') \<Longrightarrow>
    sock_step api fds (m, w) (set_member Tcp_class this s' m, w')"
| send: "m Tcp_class this = Some s \<Longrightarrow> send_all api s data w = Some (ok, w') \<Longrightarrow>
    sock_step api fds (m, w) (m, w')"
| receive: "m Tcp_class this = Some s \<Longrightarrow> recv_exact api s n w = Some (ok, d, w') \<Longrightarrow>
    sock_step api fds (m, w) (m, w')"
| listen: "m Server_class this = Some s \<Longrightarrow>
    bind_and_listen api s port backlog w = (ok, s', w') \<Longrightarrow>
    sock_step api fds (m, w) (set_member Server_class this s' m, w')"
| accept: "m Server_class this = Some s \<Longrightarrow> m Tcp_class result = None \<Longrightarrow>
    accept_client api s w = (client, w') \<Longrightarrow>
    sock_step api fds (m, w) (m(Tcp_class := TcpSocket_adopt result client (m Tcp_class)), w')"
| adopt_new: "m Tcp_class this = None \<Longrightarrow> sys_socket api f SOCK_STREAM p w = (s, w') \<Longrightarrow>
    sock_step api fds (m, w) (m(Tcp_class := TcpSocket_adopt this s (m Tcp_class)), w')"
| adopt: "m Tcp_class this = None \<Longrightarrow>
    is_valid_socket s \<longrightarrow> fds w s = Some Fd_stream \<and> (\<forall>c other. m c other \<noteq> Some s) \<Longrightarrow>
    sock_step api fds (m, w) (m(Tcp_class := TcpSocket_adopt this s (m Tcp_class)), w)"
| udp_open: "m Udp_class this = Some s \<Longrightarrow> udp_open api s w = (ok, s', w') \<Longrightarrow>
    sock_step api fds (m, w) (set_member Udp_class this s' m, w')"
| udp_bind: "m Udp_class this = Some s \<Longrightarrow> udp_bind_to api s port w = (ok, s', w') \<Longrightarrow>
    sock_step api fds (m, w) (set_member Udp_class this s' m, w')"
| udp_broadcast: "m Udp_class this = Some s \<Longrightarrow> udp_enable_broadcast api s w = (ok, w') \<Longrightarrow>
    sock_step api fds (m, w) (m, w')"
| udp_timeout: "m Udp_class this = Some s \<Longrightarrow> udp_set_receive_timeout api s ms w = (ok, w') \<Longrightarrow>
    sock_step api fds (m, w) (m, w')"
| udp_send: "m Udp_class this = Some s \<Longrightarrow> udp_send_to api s data endpoint w = Some (ok, w') \<Longrightarrow>
    sock_step api fds (m, w) (m, w')"
| udp_receive: "m Udp_class this = Some s \<Longrightarrow> udp_receive_from api s buffer w = (result, buffer', w') \<Longrightarrow>
    sock_step api fds (m, w) (m, w')"

subsection \<open>One object\<close>

named_theorems fd_rules

text \<open>Every operation of a class turns what an object owns into what it owns afterwards.\<close>

lemma fd_typed_laws:
  assumes "fd_typed api fds"
  shows "io_keeps api fds"
    and "fds w kInvalidSocket = None"
    and "sys_socket api f k p w = (s, w') \<Longrightarrow> owns (fds w) (kind_of_type k) s (fds w')"
    and "fds w s = Some Fd_listening \<Longrightarrow> sys_accept api s w = (s', w') \<Longrightarrow>
      owns (fds w) Fd_stream s' (fds w')"
    and "fds w s = Some x \<Longrightarrow> fds (sys_close api s w) = (fds w)(s := None)"
    and "fds w s = Some Fd_stream \<Longrightarrow> sys_listen api s n w = (r, w') \<Longrightarrow>
      fds w' = (if r = 0 then (fds w)(s \<mapsto> Fd_listening) else fds w)"
    and "sys_getaddrinfo api h p' f k t w = (r, l, w') \<Longrightarrow>
      fds w' = fds w \<and> (\<forall>a \<in> set l. ai_socktype a = k)"
    and "sys_setsockopt api s opt w = (r, w') \<Longrightarrow> fds w' = fds w"
    and "sys_connect api s a w = (r, w') \<Longrightarrow> fds w' = fds w"
    and "sys_bind api s a w = (r, w') \<Longrightarrow> fds w' = fds w"
    and "sys_sendto api s bs a w = (r, w') \<Longrightarrow> fds w' = fds w"
    and "sys_recvfrom api s n' w = (r, d, a', w') \<Longrightarrow> fds w' = fds w"
  using assms unfolding fd_typed_def by (blast | metis fst_conv snd_conv option.distinct(1))+

lemma owns_invalid [simp]: "owns B k kInvalidSocket F \<longleftrightarrow> F = B"
  by (simp add: owns_def is_valid_socket_def)

lemma owns_close:
  assumes "fd_typed api fds" and "owns B k s (fds w)" and "sock_close api s w = (s', w')"
  shows "s' = kInvalidSocket" and "fds w' = B"
  using assms(2,3) fd_typed_laws(5) [OF assms(1), of w s k]
  by (auto simp: owns_def sock_close_def close_socket_def is_valid_socket_def fun_upd_idem split: if_splits)

lemma owns_close_socket:
  assumes "fd_typed api fds" and "owns B k s (fds w)"
  shows "fds (close_socket api s w) = B"
  using assms(2) owns_close(2) [OF assms, of kInvalidSocket "close_socket api s w"]
  by (cases "is_valid_socket s") (simp_all add: sock_close_def owns_def close_socket_def)

lemma connect_candidates_owns:
  assumes "fd_typed api fds" and "\<forall>a \<in> set l. ai_socktype a = SOCK_STREAM"
  shows "connect_candidates api l w = (r, w') \<Longrightarrow>
    (case r of None \<Rightarrow> fds w' = fds w | Some s \<Rightarrow> owns (fds w) Fd_stream s (fds w'))"
  using assms(2)
proof (induction l arbitrary: w)
  case (Cons a l)
  have stream: "ai_socktype a = SOCK_STREAM"
    using Cons.prems(2) by simp
  obtain s w1 where sock: "sys_socket api (ai_family a) SOCK_STREAM (ai_protocol a) w = (s, w1)"
    by (metis surj_pair)
  obtain n w2 where conn: "sys_connect api s (ai_addr a) w1 = (n, w2)"
    by (metis surj_pair)
  have w1: "owns (fds w) Fd_stream s (fds w1)" and w2: "fds w2 = fds w1"
    using fd_typed_laws(3) [OF assms(1) sock] fd_typed_laws(9) [OF assms(1) conn] by simp_all
  have "fds (close_socket api s w2) = fds w"
    using owns_close_socket [OF assms(1), of "fds w" Fd_stream s w2] w1 w2 by simp
  then show ?case
    using Cons.prems Cons.IH [of "close_socket api s w2"] Cons.IH [of w1] w1 w2
    by (auto simp: sock stream conn owns_def split: if_splits option.splits)
qed simp

lemma connect_to_owns [fd_rules]:
  assumes "fd_typed api fds" and "owns B Fd_stream s (fds w)"
    and "connect_to api s endpoint w = (ok, s', w')"
  shows "owns B Fd_stream s' (fds w')"
proof -
  obtain s1 w1 where close: "sock_close api s w = (s1, w1)" by (metis surj_pair)
  obtain n l w2 where res: "sys_getaddrinfo api (ep_host endpoint) (to_string (ep_port endpoint))
      AF_UNSPEC SOCK_STREAM IPPROTO_TCP w1 = (n, l, w2)" by (metis prod_cases3)
  obtain r w3 where cand: "connect_candidates api l w2 = (r, w3)" by (metis surj_pair)
  note w1 = owns_close [OF assms(1,2) close] and w2 = fd_typed_laws(7) [OF assms(1) res]
  have "case r of None \<Rightarrow> fds w3 = fds w2 | Some s \<Rightarrow> owns (fds w2) Fd_stream s (fds w3)"
    using connect_candidates_owns [OF assms(1) _ cand] w2 by simp
  then show ?thesis
    using assms(3) w1 w2 by (auto simp: connect_to_def close res cand split: if_splits option.splits)
qed

lemma bind_and_listen_owns [fd_rules]:
  assumes "fd_typed api fds" and "owns B Fd_listening s (fds w)"
    and "bind_and_listen api s port backlog w = (ok, s', w')"
  shows "owns B Fd_listening s' (fds w')"
proof -
  obtain s1 w1 where close: "sock_close api s w = (s1, w1)" by (metis surj_pair)
  obtain s2 w2 where sock: "sys_socket api AF_INET SOCK_STREAM IPPROTO_TCP w1 = (s2, w2)" by (metis surj_pair)
  obtain o3 w3 where reuse: "sys_setsockopt api s2 SO_REUSEADDR w2 = (o3, w3)" by (metis surj_pair)
  obtain o4 w4 where bound: "sys_bind api s2 (Sockaddr_in 0 port) w3 = (o4, w4)" by (metis surj_pair)
  obtain o5 w5 where listen: "sys_listen api s2 backlog w4 = (o5, w5)" by (metis surj_pair)
  have B: "fds w1 = B"
    by (rule owns_close(2) [OF assms(1,2) close])
  have s2: "owns B Fd_stream s2 (fds w2)"
    using fd_typed_laws(3) [OF assms(1) sock] B by simp
  have same: "fds w3 = fds w2" "fds w4 = fds w2"
    using fd_typed_laws(8) [OF assms(1) reuse] fd_typed_laws(10) [OF assms(1) bound] by simp_all
  have w5: "owns B (if o5 = 0 then Fd_listening else Fd_stream) s2 (fds w5)" if "is_valid_socket s2"
    using fd_typed_laws(6) [OF assms(1) _ listen] s2 same that by (simp add: owns_def)
  have gone: "owns B Fd_listening a (fds b)"
    if "sock_close api s2 v = (a, b)" "owns B Fd_stream s2 (fds v)" for v a b
    using owns_close [OF assms(1) that(2,1)] by simp
  have "owns B Fd_listening s2 (fds w2)" if "\<not> is_valid_socket s2"
    using s2 that by (simp add: owns_def)
  then show ?thesis
    using assms(3) s2 same w5
    by (auto simp: bind_and_listen_def set_reuse_address_def close sock reuse bound listen
        intro: gone split: if_splits prod.splits)
qed

lemma accept_client_owns [fd_rules]:
  assumes "fd_typed api fds" and "is_valid_socket s \<Longrightarrow> fds w s = Some Fd_listening"
    and "accept_client api s w = (client, w')"
  shows "owns (fds w) Fd_stream client (fds w')"
proof -
  obtain c w1 where acc: "sys_accept api s w = (c, w1)" by (metis surj_pair)
  show ?thesis
    using fd_typed_laws(4) [OF assms(1) _ acc] assms(2,3)
    by (auto simp: accept_client_def acc owns_def is_valid_socket_def split: if_splits)
qed

lemma udp_open_owns [fd_rules]:
  assumes "fd_typed api fds" and "owns B Fd_datagram s (fds w)" and "udp_open api s w = (ok, s', w')"
  shows "owns B Fd_datagram s' (fds w')"
proof -
  obtain s1 w1 where close: "sock_close api s w = (s1, w1)" by (metis surj_pair)
  obtain s2 w2 where sock: "sys_socket api AF_INET SOCK_DGRAM IPPROTO_UDP w1 = (s2, w2)" by (metis surj_pair)
  show ?thesis
    using fd_typed_laws(3) [OF assms(1) sock] owns_close(2) [OF assms(1,2) close] assms(3)
    by (auto simp: udp_open_def close sock split: if_splits)
qed

lemma udp_bind_to_owns [fd_rules]:
  assumes "fd_typed api fds" and "owns B Fd_datagram s (fds w)"
    and "udp_bind_to api s port w = (ok, s', w')"
  shows "owns B Fd_datagram s' (fds w')"
proof -
  obtain r s1 w1 where ready: "(if is_valid_socket s then (True, s, w) else udp_open api s w) = (r, s1, w1)"
    by (metis prod_cases3)
  obtain o2 w2 where reuse: "sys_setsockopt api s1 SO_REUSEADDR w1 = (o2, w2)" by (metis surj_pair)
  obtain o3 w3 where bound: "sys_bind api s1 (Sockaddr_in 0 port) w2 = (o3, w3)" by (metis surj_pair)
  have s1: "owns B Fd_datagram s1 (fds w1)"
    using ready assms(2) udp_open_owns [OF assms(1,2)] by (auto split: if_splits)
  have same: "fds w2 = fds w1" "fds w3 = fds w1"
    using fd_typed_laws(8) [OF assms(1) reuse] fd_typed_laws(10) [OF assms(1) bound] by simp_all
  have gone: "owns B Fd_datagram a (fds b)" if "sock_close api s1 v = (a, b)" "fds v = fds w1" for v a b
    using owns_close [OF assms(1) _ that(1), of B Fd_datagram] s1 that(2) by simp
  show ?thesis
    using assms(3) s1 same
    by (auto simp: udp_bind_to_def set_reuse_address_def ready reuse bound
        intro: gone split: if_splits prod.splits)
qed

lemma udp_keeps_fds:
  assumes "fd_typed api fds"
  shows "udp_enable_broadcast api s w = (ok, w') \<Longrightarrow> fds w' = fds w"
    and "udp_set_receive_timeout api s ms w = (ok, w') \<Longrightarrow> fds w' = fds w"
    and "udp_send_to api s data endpoint w = Some (ok, w') \<Longrightarrow> fds w' = fds w"
    and "udp_receive_from api s buffer w = (res, buffer', w') \<Longrightarrow> fds w' = fds w"
  using fd_typed_laws(7,8,11,12) [OF assms]
  by (auto simp: udp_enable_broadcast_def udp_set_receive_timeout_def udp_send_to_def
      udp_receive_from_def Let_def split: if_splits prod.splits list.splits)

subsection \<open>All objects\<close>

definition holds :: "objects \<Rightarrow> socket_class \<Rightarrow> object \<Rightarrow> socket_t \<Rightarrow> bool" where
  "holds m c this s \<longleftrightarrow> m c this = Some s \<and> is_valid_socket s"

text \<open>
  The invariant: every descriptor that an object holds is open, of the kind its class needs, and
  was opened by the program; no two objects hold the same one; and apart from the held
  descriptors the process has open what it had before.
\<close>

definition sockets_wf :: "fd_table \<Rightarrow> objects \<Rightarrow> fd_table \<Rightarrow> bool" where
  "sockets_wf base m F \<longleftrightarrow>
     (\<forall>c this s. holds m c this s \<longrightarrow> F s = Some (kind_of_class c) \<and> base s = None) \<and>
     (\<forall>c this c' other s. holds m c this s \<longrightarrow> holds m c' other s \<longrightarrow> c = c' \<and> this = other) \<and>
     (\<forall>s. (\<forall>c this. \<not> holds m c this s) \<longrightarrow> F s = base s)"

lemma sockets_wf_dest:
  assumes "sockets_wf base m F"
  shows "holds m c this s \<Longrightarrow> F s = Some (kind_of_class c) \<and> base s = None"
    and "holds m c this s \<Longrightarrow> holds m c' other s \<Longrightarrow> c = c' \<and> this = other"
    and "(\<And>c this. \<not> holds m c this s) \<Longrightarrow> F s = base s"
  using assms unfolding sockets_wf_def by blast+

lemma sockets_wfI:
  assumes "\<And>c this s. holds m c this s \<Longrightarrow> F s = Some (kind_of_class c)"
    and "\<And>c this s. holds m c this s \<Longrightarrow> base s = None"
    and "\<And>c this c' other s. holds m c this s \<Longrightarrow> holds m c' other s \<Longrightarrow> c = c' \<and> this = other"
    and "\<And>s. (\<And>c this. \<not> holds m c this s) \<Longrightarrow> F s = base s"
  shows "sockets_wf base m F"
  using assms unfolding sockets_wf_def by blast

text \<open>The same holders and the same table: an object without a descriptor may come and go.\<close>

lemma sockets_wf_cong:
  assumes "sockets_wf base m F" and "\<And>c this s. holds m' c this s \<longleftrightarrow> holds m c this s"
  shows "sockets_wf base m' F"
  using assms unfolding sockets_wf_def by simp

lemma holds_set_member:
  "holds (set_member c this s m) c' other t \<longleftrightarrow>
     (if c' = c \<and> other = this then t = s \<and> is_valid_socket s else holds m c' other t)"
  by (auto simp: holds_def set_member_def)

text \<open>
  One object exchanges what it owns: if it owns \<open>s\<close> on top of a table \<open>B\<close>, it may own any
  other descriptor on top of \<open>B\<close> instead.
\<close>

lemma sockets_wf_cell:
  assumes wf: "sockets_wf base m F" and cell: "m c this = Some s"
  obtains B where "owns B (kind_of_class c) s F"
    and "\<And>s' F'. owns B (kind_of_class c) s' F' \<Longrightarrow> sockets_wf base (set_member c this s' m) F'"
proof
  define B where "B = (if is_valid_socket s then F(s := None) else F)"
  note dest = sockets_wf_dest [OF wf]
  have s: "holds m c this s \<longleftrightarrow> is_valid_socket s"
    by (simp add: holds_def cell)
  show "owns B (kind_of_class c) s F"
    using dest(1) [of c this s] s by (auto simp: owns_def B_def)
  fix s' F'
  assume own: "owns B (kind_of_class c) s' F'"
  have other: "B t = Some (kind_of_class c') \<and> base t = None \<and> t \<noteq> s" if "holds m c' o' t" "(c', o') \<noteq> (c, this)" for c' o' t
    using dest(1) [OF that(1)] dest(2) [OF that(1), of c this] that(2) s that(1) by (auto simp: B_def holds_def)
  have free: "B t = base t" if "\<And>c' o'. holds m c' o' t \<Longrightarrow> (c', o') = (c, this)" for t
  proof (cases "holds m c this t")
    case True
    then have "t = s" "is_valid_socket s" by (simp_all add: holds_def cell)
    then show ?thesis using dest(1) [OF True] by (simp add: B_def)
  next
    case False
    then have "F t = base t" using that by (intro dest(3)) auto
    then show ?thesis using False s dest(1) [of c this s] by (auto simp: B_def)
  qed
  have new: "base s' = None" if "is_valid_socket s'"
  proof -
    have "B s' = None" using own that by (simp add: owns_def)
    then have "B s' = base s'" using other [of _ _ s'] by (intro free) fastforce
    then show ?thesis using \<open>B s' = None\<close> by simp
  qed
  have F': "F' = (if is_valid_socket s' then B(s' \<mapsto> kind_of_class c) else B)" "is_valid_socket s' \<Longrightarrow> B s' = None"
    using own by (auto simp: owns_def split: if_splits)
  show "sockets_wf base (set_member c this s' m) F'"
  proof (rule sockets_wfI)
    fix c' o' t assume h: "holds (set_member c this s' m) c' o' t"
    show "F' t = Some (kind_of_class c')" "base t = None"
      using h other [of c' o' t] F' new by (auto simp: holds_set_member split: if_splits)
  next
    fix c' o' c'' o'' t
    assume "holds (set_member c this s' m) c' o' t" "holds (set_member c this s' m) c'' o'' t"
    then show "c' = c'' \<and> o' = o''"
      using other [of c' o' t] other [of c'' o'' t] F'(2) dest(2) [of c' o' t c'' o'']
      by (auto simp: holds_set_member split: if_splits)
  next
    fix t assume no: "\<And>c' o'. \<not> holds (set_member c this s' m) c' o' t"
    have "B t = base t"
      using no by (intro free) (metis holds_set_member)
    moreover have "\<not> (is_valid_socket s' \<and> t = s')"
      using no [of c this] by (auto simp: holds_set_member)
    ultimately show "F' t = base t" using F'(1) by auto
  qed
qed


lemmas tcp_object_defs = TcpSocket_default_def TcpSocket_is_open_def TcpSocket_close_def
  TcpSocket_dtor_def TcpSocket_move_def TcpSocket_assign_def

lemmas other_object_defs = TcpServer_default_def TcpServer_is_open_def TcpServer_close_def
  TcpServer_dtor_def TcpServer_move_def TcpServer_assign_def UdpSocket_default_def
  UdpSocket_is_open_def UdpSocket_close_def UdpSocket_dtor_def UdpSocket_move_def UdpSocket_assign_def

text \<open>The three classes do the same, so one proof per function is enough.\<close>

lemma same_for_all_classes:
  "default_of c = TcpSocket_default" "close_of c = TcpSocket_close" "dtor_of c = TcpSocket_dtor"
  "move_of c = TcpSocket_move" "assign_of c = TcpSocket_assign"
  by (cases c; simp add: tcp_object_defs other_object_defs fun_eq_iff)+

lemma TcpSocket_close_eq:
  assumes "m this = Some s"
  shows "TcpSocket_close api this m w =
    (let (s', w') = sock_close api s w in (m(this \<mapsto> s'), w'))"
  using assms by (simp add: TcpSocket_close_def TcpSocket_is_open_def sock_close_def fun_upd_idem)

lemma close_wf:
  assumes "fd_typed api fds" and "sockets_wf base m (fds w)" and "m c this = Some s"
    and "TcpSocket_close api this (m c) w = (k, w')"
  shows "sockets_wf base (m(c := k)) (fds w') \<and> k = (m c)(this \<mapsto> kInvalidSocket)"
proof -
  obtain s' w1 where close: "sock_close api s w = (s', w1)" by (metis surj_pair)
  obtain B where B: "owns B (kind_of_class c) s (fds w)"
    "\<And>s' F'. owns B (kind_of_class c) s' F' \<Longrightarrow> sockets_wf base (set_member c this s' m) F'"
    using sockets_wf_cell [OF assms(2,3)] by blast
  have "s' = kInvalidSocket" "fds w1 = B"
    using owns_close [OF assms(1) B(1) close] by simp_all
  then show ?thesis
    using assms(4) B(2) [of s' "fds w1"] TcpSocket_close_eq [of "m c" this s api w, OF assms(3)]
    by (auto simp: close set_member_def)
qed

lemma move_wf:
  assumes wf: "sockets_wf base m F" and other: "m c other = Some s" and "this \<noteq> other"
    and closed: "\<And>t. m c this = Some t \<Longrightarrow> \<not> is_valid_socket t"
  shows "sockets_wf base (m(c := (m c)(this \<mapsto> s, other \<mapsto> kInvalidSocket))) F"
proof -
  define m' where "m' = m(c := (m c)(this \<mapsto> s, other \<mapsto> kInvalidSocket))"
  define orig where "orig = (\<lambda>(c', o'). if c' = c \<and> o' = this then (c, other) else (c', o'))"
  have h: "holds m' c' o' t \<longleftrightarrow> (c', o') \<noteq> (c, other) \<and> holds m (fst (orig (c', o'))) (snd (orig (c', o'))) t" for c' o' t
    using assms(2,3) by (auto simp: m'_def holds_def orig_def is_valid_socket_def)
  note dest = sockets_wf_dest [OF wf]
  have "sockets_wf base m' F"
  proof (rule sockets_wfI)
    fix c' o' t assume "holds m' c' o' t"
    then show "F t = Some (kind_of_class c')" "base t = None"
      using dest(1) [of "fst (orig (c', o'))" "snd (orig (c', o'))" t]
      by (auto simp: h orig_def split: if_splits)
  next
    fix c' o' c'' o'' t
    assume "holds m' c' o' t" "holds m' c'' o'' t"
    then show "c' = c'' \<and> o' = o''"
      using dest(2) [of "fst (orig (c', o'))" "snd (orig (c', o'))" t "fst (orig (c'', o''))" "snd (orig (c'', o''))"]
      by (auto simp: h orig_def split: if_splits)
  next
    fix t assume no: "\<And>c' o'. \<not> holds m' c' o' t"
    have "\<not> holds m c' o' t" for c' o'
    proof (cases "(c', o') = (c, this)")
      case True
      then show ?thesis using closed by (auto simp: holds_def)
    next
      case False
      then show ?thesis
        using no [of c' o'] no [of c this] by (auto simp: h orig_def split: if_splits)
    qed
    then show "F t = base t" by (rule dest(3))
  qed
  then show ?thesis by (simp add: m'_def)
qed

lemma destroy_wf:
  assumes "fd_typed api fds" and "sockets_wf base m (fds w)" and "m c this = Some s"
    and "TcpSocket_dtor api this (m c) w = (k, w')"
  shows "sockets_wf base (m(c := k)) (fds w')"
proof -
  obtain k1 w1 where close: "TcpSocket_close api this (m c) w = (k1, w1)" by (metis surj_pair)
  have wf: "sockets_wf base (m(c := k1)) (fds w1)" "k1 = (m c)(this \<mapsto> kInvalidSocket)"
    using close_wf [OF assms(1-3) close] by blast+
  have "sockets_wf base (m(c := k1(this := None))) (fds w1)"
    using wf(2) by (intro sockets_wf_cong [OF wf(1)]) (auto simp: holds_def is_valid_socket_def)
  then show ?thesis
    using assms(4) by (auto simp: TcpSocket_dtor_def close)
qed

lemma assign_wf:
  assumes "fd_typed api fds" and "sockets_wf base m (fds w)" and "m c this = Some s"
    and "m c other = Some t" and "TcpSocket_assign api this other (m c) w = (k, w')"
  shows "sockets_wf base (m(c := k)) (fds w')"
proof (cases "this = other")
  case True
  then show ?thesis using assms(2,5) by (auto simp: TcpSocket_assign_def)
next
  case False
  obtain k1 w1 where close: "TcpSocket_close api this (m c) w = (k1, w1)" by (metis surj_pair)
  have wf: "sockets_wf base (m(c := k1)) (fds w1)" "k1 = (m c)(this \<mapsto> kInvalidSocket)"
    using close_wf [OF assms(1-3) close] by blast+
  have "sockets_wf base ((m(c := k1))(c := ((m(c := k1)) c)(this \<mapsto> t, other \<mapsto> kInvalidSocket))) (fds w1)"
    using wf(2) False assms(4) by (intro move_wf [OF wf(1)]) (auto simp: is_valid_socket_def)
  then show ?thesis
    using assms(4,5) False wf(2) by (auto simp: TcpSocket_assign_def close)
qed

lemma construct_wf:
  assumes "fd_typed api fds" and "sockets_wf base m (fds w)" and "m c this = None"
    and "owns (fds w) (kind_of_class c) s (fds w')"
  shows "sockets_wf base (set_member c this s m) (fds w')"
proof -
  have "sockets_wf base (set_member c this kInvalidSocket m) (fds w)"
    by (rule sockets_wf_cong [OF assms(2)])
      (auto simp: holds_def set_member_def is_valid_socket_def assms(3) split: if_splits)
  then obtain B where "owns B (kind_of_class c) kInvalidSocket (fds w)"
    "\<And>s' F'. owns B (kind_of_class c) s' F' \<Longrightarrow>
      sockets_wf base (set_member c this s' (set_member c this kInvalidSocket m)) F'"
    by (rule sockets_wf_cell [of base _ "fds w" c this kInvalidSocket]) (auto simp: set_member_def)
  then show ?thesis
    using assms(4) by (simp add: set_member_def)
qed

text \<open>
  An open stream that no object holds was open from the start, as far as the objects are
  concerned; once it has been adopted it no longer counts as that.
\<close>

lemma adopt_wf:
  assumes wf: "sockets_wf base m F" and fresh: "m Tcp_class this = None"
    and s: "F s = Some Fd_stream" "\<And>c other. m c other \<noteq> Some s" "is_valid_socket s"
  shows "base s = Some Fd_stream" and "sockets_wf (base(s := None)) (set_member Tcp_class this s m) F"
proof -
  note dest = sockets_wf_dest [OF wf]
  have free: "\<not> holds m c' o' s" for c' o'
    using s(2) by (simp add: holds_def)
  show "base s = Some Fd_stream"
    using dest(3) [of s] free s(1) by simp
  have other: "holds (set_member Tcp_class this s m) c' o' t \<longleftrightarrow>
      (c' = Tcp_class \<and> o' = this \<and> t = s \<and> is_valid_socket s) \<or> holds m c' o' t" for c' o' t
    unfolding holds_set_member using fresh by (auto simp: holds_def)
  show "sockets_wf (base(s := None)) (set_member Tcp_class this s m) F"
  proof (rule sockets_wfI)
    fix c' o' t assume "holds (set_member Tcp_class this s m) c' o' t"
    then show "F t = Some (kind_of_class c')" "(base(s := None)) t = None"
      using dest(1) [of c' o' t] s(1) by (auto simp: other)
  next
    fix c' o' c'' o'' t
    assume "holds (set_member Tcp_class this s m) c' o' t" "holds (set_member Tcp_class this s m) c'' o'' t"
    then show "c' = c'' \<and> o' = o''"
      using dest(2) [of c' o' t c'' o''] free by (auto simp: other)
  next
    fix t assume "\<And>c' o'. \<not> holds (set_member Tcp_class this s m) c' o' t"
    then show "F t = (base(s := None)) t"
      using dest(3) [of t] s(3) by (auto simp: other)
  qed
qed

text \<open>\<open>released w0 base\<close>: the table of the start, without streams that have been adopted since.\<close>

definition released :: "fd_table \<Rightarrow> fd_table \<Rightarrow> bool" where
  "released start base \<longleftrightarrow>
     (\<forall>s. base s = start s \<or> base s = None \<and> start s = Some Fd_stream)"

lemma sock_step_wf:
  assumes "sock_step api fds (m, w) (m', w')" and typed: "fd_typed api fds"
    and wf: "sockets_wf base m (fds w)"
  shows "sockets_wf base m' (fds w') \<or>
    (\<exists>s. base s = Some Fd_stream \<and> sockets_wf (base(s := None)) m' (fds w'))"
proof -
  have exchange: "sockets_wf base (set_member c this s' m) (fds w')"
    if "m c this = Some s" "\<And>B. owns B (kind_of_class c) s (fds w) \<Longrightarrow> owns B (kind_of_class c) s' (fds w')"
    for c this s s'
    using sockets_wf_cell [OF wf that(1)] that(2) by blast
  show ?thesis
    using assms(1)
  proof cases
    case (construct c this)
    then show ?thesis
      using construct_wf [OF typed wf, of c this kInvalidSocket w]
      by (simp add: same_for_all_classes TcpSocket_default_def set_member_def)
  next
    case (destroy c this s k)
    then show ?thesis
      using destroy_wf [OF typed wf] by (simp add: same_for_all_classes)
  next
    case (move c this other s)
    then show ?thesis
      using move_wf [OF wf, of c other s this]
      by (cases "this = other") (auto simp: same_for_all_classes TcpSocket_move_def)
  next
    case (assign c this s other t k)
    then show ?thesis
      using assign_wf [OF typed wf] by (simp add: same_for_all_classes)
  next
    case (close c this s k)
    then show ?thesis
      using close_wf [OF typed wf] by (simp add: same_for_all_classes)
  next
    case (connect this s endpoint ok s')
    then show ?thesis
      using exchange [of Tcp_class this s s'] connect_to_owns [OF typed _ connect(3)] by simp
  next
    case (send this s data ok)
    then show ?thesis
      using wf send_all_keeps [OF fd_typed_laws(1) [OF typed], of s data w "(ok, w')"] by simp
  next
    case (receive this s n ok d)
    then show ?thesis
      using wf recv_exact_keeps [OF fd_typed_laws(1) [OF typed], of s n w "(ok, d, w')"] by simp
  next
    case (listen this s port backlog ok s')
    then show ?thesis
      using exchange [of Server_class this s s'] bind_and_listen_owns [OF typed _ listen(3)] by simp
  next
    case (accept this s result client)
    have "fds w s = Some Fd_listening" if "is_valid_socket s"
      using sockets_wf_dest(1) [OF wf, of Server_class this s] that accept(2) by (simp add: holds_def)
    then show ?thesis
      using accept construct_wf [OF typed wf, of Tcp_class result client w']
        accept_client_owns [OF typed _ accept(4)]
      by (simp add: TcpSocket_adopt_def set_member_def)
  next
    case (adopt_new this f p s)
    then show ?thesis
      using construct_wf [OF typed wf, of Tcp_class this s w'] fd_typed_laws(3) [OF typed adopt_new(3)]
      by (simp add: TcpSocket_adopt_def set_member_def)
  next
    case (adopt this s)
    show ?thesis
    proof (cases "is_valid_socket s")
      case True
      then have "fds w s = Some Fd_stream" "\<And>c other. m c other \<noteq> Some s"
        using adopt(4) by blast+
      then show ?thesis
        using adopt_wf [OF wf adopt(3) _ _ True] adopt(1,2) by (auto simp: TcpSocket_adopt_def set_member_def)
    next
      case False
      then have "owns (fds w) (kind_of_class Tcp_class) s (fds w)"
        by (simp add: owns_def)
      then show ?thesis
        using construct_wf [OF typed wf adopt(3)] adopt(1,2)
        by (simp add: TcpSocket_adopt_def set_member_def)
    qed
  next
    case (udp_open this s ok s')
    then show ?thesis
      using exchange [of Udp_class this s s'] udp_open_owns [OF typed _ udp_open(3)] by simp
  next
    case (udp_bind this s port ok s')
    then show ?thesis
      using exchange [of Udp_class this s s'] udp_bind_to_owns [OF typed _ udp_bind(3)] by simp
  qed (use wf udp_keeps_fds [OF typed] in auto)
qed

lemma reachable_wf:
  assumes "(sock_step api fds)\<^sup>*\<^sup>* (no_objects, w0) (m, w)" and "fd_typed api fds"
  shows "\<exists>base. released (fds w0) base \<and> sockets_wf base m (fds w)"
  using assms(1)
proof (induction "(m, w)" arbitrary: m w rule: rtranclp_induct)
  case base
  have "sockets_wf (fds w0) no_objects (fds w0)"
    by (simp add: sockets_wf_def holds_def no_objects_def)
  then show ?case
    by (auto simp: released_def)
next
  case (step y)
  obtain m1 w1 where y: "y = (m1, w1)" by (cases y)
  obtain base where base: "released (fds w0) base" "sockets_wf base m1 (fds w1)"
    using step(3) [OF y] by blast
  have "released (fds w0) (base(s := None))" if "base s = Some Fd_stream" for s
    using base(1) that unfolding released_def by (metis fun_upd_apply option.distinct(1))
  then show ?case
    using sock_step_wf [OF _ assms(2) base(2)] step(2) base(1) y by blast
qed


subsection \<open>A concrete system\<close>

text \<open>A system whose world is the table; it hands out the descriptor 3 and accepts 4.\<close>

definition grant :: "socket_t \<Rightarrow> fd_kind \<Rightarrow> fd_table \<Rightarrow> socket_t \<times> fd_table" where
  "grant s k w = (if w s = None then (s, w(s \<mapsto> k)) else (kInvalidSocket, w))"

definition table_api :: "fd_table sock_api" where
  "table_api =
     \<lparr>sys_socket = \<lambda>_ k _ w. grant 3 (kind_of_type k) w, sys_close = \<lambda>s w. w(s := None),
      sys_errno = \<lambda>_. EAGAIN, sys_setsockopt = \<lambda>_ _ w. (0, w),
      sys_getaddrinfo = \<lambda>_ _ _ _ _ w. (-2, [], w), sys_connect = \<lambda>_ _ w. (0, w),
      sys_bind = \<lambda>_ _ w. (0, w),
      sys_listen = \<lambda>s _ w. (0, if w s = None then w else w(s \<mapsto> Fd_listening)),
      sys_accept = \<lambda>_ w. grant 4 Fd_stream w,
      sys_send = \<lambda>_ bs w. (int (length bs), w), sys_recv = \<lambda>_ _ w. (0, [], w),
      sys_sendto = \<lambda>_ _ _ w. (-1, w), sys_recvfrom = \<lambda>_ _ w. (-1, [], Sockaddr_other, w),
      sys_inet_ntop = \<lambda>_. [], sys_clock = \<lambda>_. 0, sys_killed = \<lambda>_. False\<rparr>"

definition own_table :: "fd_table \<Rightarrow> fd_table" where
  "own_table w = w(kInvalidSocket := None)"

lemma table_api_typed: "fd_typed table_api own_table"
  by (auto simp: fd_typed_def io_keeps_def owns_def table_api_def own_table_def grant_def
      is_valid_socket_def kInvalidSocket_def fun_eq_iff split: if_splits)

text \<open>A socket is opened, moved into another object, and the first object is destroyed.\<close>

definition demo_objects :: objects where
  "demo_objects = set_member Udp_class 1 3 no_objects"

lemma demo_object_run: "(sock_step table_api own_table)\<^sup>*\<^sup>* (no_objects, Map.empty) (demo_objects, [3 \<mapsto> Fd_datagram])"
proof -
  let ?m1 = "set_member Udp_class 0 kInvalidSocket no_objects"
  let ?m2 = "set_member Udp_class 0 3 no_objects"
  let ?m3 = "set_member Udp_class 0 kInvalidSocket (set_member Udp_class 1 3 no_objects)"
  have "sock_step table_api own_table (no_objects, Map.empty) (?m1, Map.empty)"
    using sock_step.construct [of no_objects Udp_class 0 table_api own_table Map.empty]
    by (simp add: no_objects_def set_member_def UdpSocket_default_def)
  moreover have "sock_step table_api own_table (?m1, Map.empty) (?m2, [3 \<mapsto> Fd_datagram])"
    using sock_step.udp_open [of ?m1 0 kInvalidSocket table_api Map.empty True 3 "[3 \<mapsto> Fd_datagram]" own_table]
    by (simp add: set_member_def udp_open_def sock_close_def table_api_def grant_def
        is_valid_socket_def kInvalidSocket_def)
  moreover have "sock_step table_api own_table (?m2, [3 \<mapsto> Fd_datagram]) (?m3, [3 \<mapsto> Fd_datagram])"
    using sock_step.move [of ?m2 Udp_class 1 0 3 table_api own_table "[3 \<mapsto> Fd_datagram]"]
    by (simp add: set_member_def no_objects_def UdpSocket_move_def fun_upd_twist)
  moreover have "sock_step table_api own_table (?m3, [3 \<mapsto> Fd_datagram]) (demo_objects, [3 \<mapsto> Fd_datagram])"
    using sock_step.destroy [of ?m3 Udp_class 0 kInvalidSocket table_api "[3 \<mapsto> Fd_datagram]" _ _
        own_table]
    by (simp add: demo_objects_def set_member_def no_objects_def UdpSocket_dtor_def UdpSocket_close_def
        UdpSocket_is_open_def is_valid_socket_def fun_upd_twist)
  ultimately show ?thesis
    by (meson converse_rtranclp_into_rtranclp rtranclp.rtrancl_refl)
qed


end
