(* ===== verification/Logger.thy ===== *)
theory Logger
  imports Text
begin

text \<open>
  \<open>src/common/logger.cpp\<close>. The first part is what one call of \<open>info\<close>, \<open>warn\<close> or \<open>error\<close> writes.
  The second part runs any number of threads that log at the same time on the two shared
  streams: the program of a thread is the list of its calls, and a step is as small as one
  character, so that the lines stay whole only because of the mutex. \<open>localtime_r\<close> is a
  parameter; like the code, the model ignores that it may fail and then leaves the zeroed
  structure. The clock may show any time at any moment.
\<close>

datatype ostream = Cout | Cerr

record tm =
  tm_sec :: int
  tm_min :: int
  tm_hour :: int
  tm_mday :: int
  tm_mon :: int
  tm_year :: int

definition tm_zero :: tm where
  "tm_zero = \<lparr>tm_sec = 0, tm_min = 0, tm_hour = 0, tm_mday = 0, tm_mon = 0, tm_year = 0\<rparr>"

text \<open>\<open>std::put_time\<close> with the format \<open>%Y-%m-%d %H:%M:%S\<close>.\<close>

definition put_time :: "tm \<Rightarrow> string" where
  "put_time t =
     (let field = \<lambda>n v. pad_left n (CHR ''0'') (show_int v)
      in field 4 (1900 + tm_year t) @ ''-'' @ field 2 (tm_mon t + 1) @ ''-'' @ field 2 (tm_mday t) @
         '' '' @ field 2 (tm_hour t) @ '':'' @ field 2 (tm_min t) @ '':'' @ field 2 (tm_sec t))"

text \<open>The clock counts nanoseconds; \<open>to_time_t\<close> truncates to seconds.\<close>

definition to_time_t :: "int \<Rightarrow> int" where
  "to_time_t now = (if now < 0 then - ((- now) div 1000000000) else now div 1000000000)"

definition timestamp :: "(int \<Rightarrow> tm option) \<Rightarrow> int \<Rightarrow> string" where
  "timestamp localtime now =
     (let time = to_time_t now;
          local_time = (case localtime time of None \<Rightarrow> tm_zero | Some t \<Rightarrow> t)
      in put_time local_time)"

text \<open>
  What \<open>log\<close> puts on the stream between taking and releasing the mutex; \<open>Stamp\<close> is the call of
  \<open>timestamp\<close>, which reads the clock when it is reached.
\<close>

datatype item = Out char | Stamp

definition log_items :: "string \<Rightarrow> string \<Rightarrow> item list" where
  "log_items level message =
     map Out ''['' @ [Stamp] @ map Out ''] '' @
     map Out ''['' @ map Out level @ map Out ''] '' @
     map Out message @ [Out newline]"

record log_call =
  lc_stream :: ostream
  lc_level :: string
  lc_message :: string

definition info :: "string \<Rightarrow> log_call" where
  "info message = \<lparr>lc_stream = Cout, lc_level = ''INFO'', lc_message = message\<rparr>"

definition warn :: "string \<Rightarrow> log_call" where
  "warn message = \<lparr>lc_stream = Cout, lc_level = ''WARN'', lc_message = message\<rparr>"

definition error :: "string \<Rightarrow> log_call" where
  "error message = \<lparr>lc_stream = Cerr, lc_level = ''ERROR'', lc_message = message\<rparr>"

subsection \<open>Concurrent callers\<close>

text \<open>A thread is outside \<open>log\<close>, or inside it with the items it has still to write.\<close>

datatype control = Outside | Inside log_call "item list"

record log_state =
  log_mutex :: "nat option"
  log_output :: "ostream \<Rightarrow> string"
  log_clock :: int
  log_control :: "nat \<Rightarrow> control"
  log_todo :: "nat \<Rightarrow> log_call list"

text \<open>
  \<open>drift a b\<close> says that the system clock may go from \<open>a\<close> to \<open>b\<close>. Only the first step looks at
  the mutex: the lock guard is the only thing that keeps the others apart.
\<close>

inductive log_step :: "(int \<Rightarrow> tm option) \<Rightarrow> (int \<Rightarrow> int \<Rightarrow> bool) \<Rightarrow> log_state \<Rightarrow> log_state \<Rightarrow> bool"
  for localtime drift where
  lock: "log_control s t = Outside \<Longrightarrow> log_todo s t = c # cs \<Longrightarrow> log_mutex s = None \<Longrightarrow>
    log_step localtime drift s
      (s\<lparr>log_mutex := Some t, log_todo := (log_todo s)(t := cs),
         log_control := (log_control s)(t := Inside c (log_items (lc_level c) (lc_message c)))\<rparr>)"
| stamp: "log_control s t = Inside c (Stamp # items) \<Longrightarrow>
    log_step localtime drift s
      (s\<lparr>log_control := (log_control s)
           (t := Inside c (map Out (timestamp localtime (log_clock s)) @ items))\<rparr>)"
| put: "log_control s t = Inside c (Out ch # items) \<Longrightarrow>
    log_step localtime drift s
      (s\<lparr>log_output := (log_output s)(lc_stream c := log_output s (lc_stream c) @ [ch]),
         log_control := (log_control s)(t := Inside c items)\<rparr>)"
| unlock: "log_control s t = Inside c [] \<Longrightarrow>
    log_step localtime drift s
      (s\<lparr>log_mutex := None, log_control := (log_control s)(t := Outside)\<rparr>)"
| tick: "drift (log_clock s) now \<Longrightarrow> log_step localtime drift s (s\<lparr>log_clock := now\<rparr>)"

definition log_start :: "int \<Rightarrow> (nat \<Rightarrow> log_call list) \<Rightarrow> log_state" where
  "log_start now programs =
     \<lparr>log_mutex = None, log_output = \<lambda>_. [], log_clock = now, log_control = \<lambda>_. Outside,
      log_todo = programs\<rparr>"

subsection \<open>The specification\<close>

text \<open>
  A log is a list of entries, each written by one thread at one time; what it puts on a stream
  is its lines for that stream, in order.
\<close>

record entry =
  en_thread :: nat
  en_call :: log_call
  en_time :: int

definition log_line :: "(int \<Rightarrow> tm option) \<Rightarrow> log_call \<Rightarrow> int \<Rightarrow> string" where
  "log_line localtime c now =
     ''['' @ timestamp localtime now @ ''] ['' @ lc_level c @ ''] '' @ lc_message c @ [newline]"

definition log_text :: "(int \<Rightarrow> tm option) \<Rightarrow> entry list \<Rightarrow> ostream \<Rightarrow> string" where
  "log_text localtime h out =
     concat (map (\<lambda>e. log_line localtime (en_call e) (en_time e))
               (filter (\<lambda>e. lc_stream (en_call e) = out) h))"

definition calls_of :: "nat \<Rightarrow> entry list \<Rightarrow> log_call list" where
  "calls_of t h = map en_call (filter (\<lambda>e. en_thread e = t) h)"

primrec current :: "control \<Rightarrow> log_call list" where
  "current Outside = []"
| "current (Inside c items) = [c]"

text \<open>
  A call of which \<open>written\<close> is on the stream already: the clock is yet to be read, or it has been
  read at a time that is not before the entries \<open>h\<close> and not after \<open>now\<close>, provided the clock
  never goes back.
\<close>

definition partial_line ::
    "(int \<Rightarrow> tm option) \<Rightarrow> bool \<Rightarrow> entry list \<Rightarrow> int \<Rightarrow> log_call \<Rightarrow> string \<Rightarrow> item list \<Rightarrow> bool" where
  "partial_line localtime forward h now c written items \<longleftrightarrow>
     (\<exists>a b. items = map Out a @ Stamp # map Out b \<and>
        (\<forall>\<tau>. written @ a @ timestamp localtime \<tau> @ b = log_line localtime c \<tau>)) \<or>
     (\<exists>b \<tau>. items = map Out b \<and> written @ b = log_line localtime c \<tau> \<and>
        (forward \<longrightarrow> (\<forall>e \<in> set h. en_time e \<le> \<tau>) \<and> \<tau> \<le> now))"

definition log_inv ::
    "(int \<Rightarrow> tm option) \<Rightarrow> bool \<Rightarrow> (nat \<Rightarrow> log_call list) \<Rightarrow> log_state \<Rightarrow> entry list \<Rightarrow> bool" where
  "log_inv localtime forward programs s h \<longleftrightarrow>
     (\<forall>t. log_control s t = Outside \<longleftrightarrow> log_mutex s \<noteq> Some t) \<and>
     (\<forall>t. calls_of t h @ current (log_control s t) @ log_todo s t = programs t) \<and>
     (forward \<longrightarrow> sorted (map en_time h) \<and> (\<forall>e \<in> set h. en_time e \<le> log_clock s)) \<and>
     (case log_mutex s of
        None \<Rightarrow> log_output s = log_text localtime h
      | Some t \<Rightarrow> \<exists>c items written. log_control s t = Inside c items \<and>
          partial_line localtime forward h (log_clock s) c written items \<and>
          log_output s = (log_text localtime h)
            (lc_stream c := log_text localtime h (lc_stream c) @ written))"

subsection \<open>One line\<close>

lemma map_Out_eq_Cons: "map Out xs = Out ch # ys \<longleftrightarrow> (\<exists>zs. xs = ch # zs \<and> map Out zs = ys)"
  by (cases xs) auto

lemma Stamp_not_Out: "Stamp # items \<noteq> map Out b" "map Out b \<noteq> Stamp # items"
  by (cases b; simp)+

lemma partial_line_start:
  "partial_line localtime forward h now c [] (log_items (lc_level c) (lc_message c))"
  unfolding partial_line_def log_items_def log_line_def
  by (rule disjI1, rule exI [of _ "''[''"],
      rule exI [of _ "''] ['' @ lc_level c @ ''] '' @ lc_message c @ [newline]"]) simp

lemma partial_line_stamp:
  assumes "partial_line localtime forward h now c written (Stamp # items)"
    and "forward \<Longrightarrow> \<forall>e \<in> set h. en_time e \<le> now"
  shows "partial_line localtime forward h now c written (map Out (timestamp localtime now) @ items)"
proof -
  obtain b where b: "items = map Out b"
    "\<And>\<tau>. written @ timestamp localtime \<tau> @ b = log_line localtime c \<tau>"
    using assms(1) by (auto simp: partial_line_def Cons_eq_append_conv Stamp_not_Out)
  then have "map Out (timestamp localtime now) @ items = map Out (timestamp localtime now @ b)"
    by simp
  then show ?thesis
    using b(2) [of now] assms(2) unfolding partial_line_def by blast
qed

lemma partial_line_put:
  assumes "partial_line localtime forward h now c written (Out ch # items)"
  shows "partial_line localtime forward h now c (written @ [ch]) items"
  using assms unfolding partial_line_def
proof (elim disjE exE conjE)
  fix a b
  assume "Out ch # items = map Out a @ Stamp # map Out b"
    and line: "\<forall>\<tau>. written @ a @ timestamp localtime \<tau> @ b = log_line localtime c \<tau>"
  then obtain a' where "a = ch # a'" "items = map Out a' @ Stamp # map Out b"
    by (cases a) auto
  with line show "(\<exists>a b. items = map Out a @ Stamp # map Out b \<and>
      (\<forall>\<tau>. (written @ [ch]) @ a @ timestamp localtime \<tau> @ b = log_line localtime c \<tau>)) \<or>
    (\<exists>b \<tau>. items = map Out b \<and> (written @ [ch]) @ b = log_line localtime c \<tau> \<and>
      (forward \<longrightarrow> (\<forall>e\<in>set h. en_time e \<le> \<tau>) \<and> \<tau> \<le> now))"
    by auto
qed (auto simp: map_Out_eq_Cons)

lemma partial_line_end:
  assumes "partial_line localtime forward h now c written []"
  obtains \<tau> where "written = log_line localtime c \<tau>"
    and "forward \<Longrightarrow> (\<forall>e \<in> set h. en_time e \<le> \<tau>) \<and> \<tau> \<le> now"
  using assms by (auto simp: partial_line_def)

lemma partial_line_later:
  "partial_line localtime forward h now c written items \<Longrightarrow> (forward \<Longrightarrow> now \<le> now') \<Longrightarrow>
     partial_line localtime forward h now' c written items"
  unfolding partial_line_def by fastforce

subsection \<open>Any number of threads\<close>

lemma log_text_snoc:
  "log_text localtime (h @ [e]) =
     (log_text localtime h)
       (lc_stream (en_call e) := log_text localtime h (lc_stream (en_call e)) @
          log_line localtime (en_call e) (en_time e))"
  by (auto simp: log_text_def fun_eq_iff)

lemma calls_of_snoc:
  "calls_of t (h @ [e]) = calls_of t h @ (if en_thread e = t then [en_call e] else [])"
  by (simp add: calls_of_def)

lemma log_inv_inside:
  assumes "log_inv localtime forward programs s h" and "log_control s t = Inside c items"
  obtains written where "log_mutex s = Some t"
    and "partial_line localtime forward h (log_clock s) c written items"
    and "log_output s = (log_text localtime h)
      (lc_stream c := log_text localtime h (lc_stream c) @ written)"
    and "calls_of t h @ c # log_todo s t = programs t"
proof -
  have "log_mutex s = Some t"
    using assms unfolding log_inv_def by (metis control.distinct(1))
  moreover have "calls_of t h @ current (log_control s t) @ log_todo s t = programs t"
    using assms(1) by (simp add: log_inv_def)
  ultimately show ?thesis
    using assms that by (auto simp: log_inv_def)
qed

lemma log_step_inv:
  assumes "log_step localtime drift s s'" and inv: "log_inv localtime forward programs s h"
    and drift: "forward \<Longrightarrow> \<forall>a b. drift a b \<longrightarrow> a \<le> b"
  shows "\<exists>h'. log_inv localtime forward programs s' h'"
  using assms(1)
proof cases
  case (lock t c cs)
  have "calls_of t h @ current (log_control s t) @ log_todo s t = programs t"
    using inv by (simp add: log_inv_def)
  then have "log_inv localtime forward programs s' h"
    using inv lock(2-4) partial_line_start [of localtime forward h "log_clock s" c]
    unfolding lock(1) log_inv_def by (auto split: if_splits)
  then show ?thesis ..
next
  case (stamp t c items)
  obtain written where w: "log_mutex s = Some t"
    "partial_line localtime forward h (log_clock s) c written (Stamp # items)"
    "log_output s = (log_text localtime h) (lc_stream c := log_text localtime h (lc_stream c) @ written)"
    "calls_of t h @ c # log_todo s t = programs t"
    by (rule log_inv_inside [OF inv stamp(2)])
  have "partial_line localtime forward h (log_clock s) c written
      (map Out (timestamp localtime (log_clock s)) @ items)"
    using inv by (intro partial_line_stamp [OF w(2)]) (simp add: log_inv_def)
  then have "log_inv localtime forward programs s' h"
    using inv stamp(2) w(1,3,4) unfolding stamp(1) log_inv_def by (auto split: if_splits)
  then show ?thesis ..
next
  case (put t c ch items)
  obtain written where w: "log_mutex s = Some t"
    "partial_line localtime forward h (log_clock s) c written (Out ch # items)"
    "log_output s = (log_text localtime h) (lc_stream c := log_text localtime h (lc_stream c) @ written)"
    "calls_of t h @ c # log_todo s t = programs t"
    by (rule log_inv_inside [OF inv put(2)])
  have "log_inv localtime forward programs s' h"
    using inv put(2) w(1,3,4) partial_line_put [OF w(2)] unfolding put(1) log_inv_def
    by (auto split: if_splits intro!: exI [of _ "written @ [ch]"])
  then show ?thesis ..
next
  case (unlock t c)
  obtain written where w: "log_mutex s = Some t"
    "partial_line localtime forward h (log_clock s) c written []"
    "log_output s = (log_text localtime h) (lc_stream c := log_text localtime h (lc_stream c) @ written)"
    "calls_of t h @ c # log_todo s t = programs t"
    by (rule log_inv_inside [OF inv unlock(2)])
  obtain \<tau> where \<tau>: "written = log_line localtime c \<tau>"
    "forward \<Longrightarrow> (\<forall>e \<in> set h. en_time e \<le> \<tau>) \<and> \<tau> \<le> log_clock s"
    using partial_line_end [OF w(2)] by metis
  define h' where "h' = h @ [\<lparr>en_thread = t, en_call = c, en_time = \<tau>\<rparr>]"
  have calls: "calls_of u h' @ current (log_control s' u) @ log_todo s' u = programs u" for u
    using inv w(4) unfolding unlock(1) log_inv_def
    by (cases "u = t") (simp_all add: h'_def calls_of_snoc)
  have "log_output s' = log_text localtime h'"
    using w(3) \<tau>(1) by (simp add: unlock(1) h'_def log_text_snoc)
  moreover have "log_control s' u = Outside" for u
    using inv w(1) unfolding unlock(1) log_inv_def by auto
  moreover have "forward \<Longrightarrow> sorted (map en_time h') \<and> (\<forall>e \<in> set h'. en_time e \<le> log_clock s')"
    using inv \<tau>(2) unfolding unlock(1) log_inv_def by (auto simp: h'_def sorted_append)
  ultimately have "log_inv localtime forward programs s' h'"
    using calls unfolding log_inv_def by (simp add: unlock(1))
  then show ?thesis ..
next
  case (tick now)
  have "forward \<Longrightarrow> log_clock s \<le> now" using drift tick(2) by blast
  then have "log_inv localtime forward programs s' h"
    using inv partial_line_later [of localtime forward h "log_clock s" _ _ _ now]
    unfolding tick(1) log_inv_def by (fastforce split: option.splits)
  then show ?thesis ..
qed

lemma log_reachable_inv:
  assumes "(log_step localtime drift)\<^sup>*\<^sup>* (log_start now programs) s"
    and "forward \<Longrightarrow> \<forall>a b. drift a b \<longrightarrow> a \<le> b"
  shows "\<exists>h. log_inv localtime forward programs s h"
  using assms(1)
proof (induction rule: rtranclp_induct)
  case base
  have "log_inv localtime forward programs (log_start now programs) []"
    by (simp add: log_inv_def log_start_def log_text_def calls_of_def fun_eq_iff)
  then show ?case ..
next
  case (step s s')
  then show ?case using log_step_inv assms(2) by blast
qed

subsection \<open>Properties\<close>

text \<open>
  C19: the lines of concurrent callers are never mixed. In every state that any number of threads
  can reach, there is one order of the calls that have returned such that each stream holds
  exactly the lines of its calls in this order, each with one time stamp;
  only the call that holds the mutex may have begun a further line. Every thread's calls are in
  its own order, and none is lost or written twice. If the clock is not set back, the time
  stamps of the order ascend, over both streams together.
\<close>

theorem log_lines_whole:
  assumes "(log_step localtime drift)\<^sup>*\<^sup>* (log_start now programs) s"
  shows "\<exists>h :: entry list. (\<forall>t. map en_call (filter (\<lambda>e. en_thread e = t) h) @ current (log_control s t) @
            log_todo s t = programs t) \<and>
      ((\<forall>a b. drift a b \<longrightarrow> a \<le> b) \<longrightarrow> sorted (map en_time h)) \<and>
      (\<forall>out. \<exists>begun. log_output s out = concat (map (\<lambda>e. log_line localtime (en_call e) (en_time e))
            (filter (\<lambda>e. lc_stream (en_call e) = out) h)) @ begun \<and>
         (begun = [] \<or> (\<exists>t c items \<tau> rest. log_mutex s = Some t \<and> log_control s t = Inside c items \<and>
            lc_stream c = out \<and> begun @ rest = log_line localtime c \<tau>)))"
proof -
  define forward where "forward \<longleftrightarrow> (\<forall>a b. drift a b \<longrightarrow> a \<le> b)"
  obtain h where inv: "log_inv localtime forward programs s h"
    using log_reachable_inv [OF assms, of forward] by (auto simp: forward_def)
  have "\<exists>begun. log_output s out = log_text localtime h out @ begun \<and>
      (begun = [] \<or> (\<exists>t c items \<tau> rest. log_mutex s = Some t \<and> log_control s t = Inside c items \<and>
         lc_stream c = out \<and> begun @ rest = log_line localtime c \<tau>))" for out
  proof (cases "log_mutex s")
    case None
    then show ?thesis using inv by (simp add: log_inv_def)
  next
    case (Some t)
    then obtain c items written where w: "log_control s t = Inside c items"
      "partial_line localtime forward h (log_clock s) c written items"
      "log_output s = (log_text localtime h) (lc_stream c := log_text localtime h (lc_stream c) @ written)"
      using inv by (auto simp: log_inv_def)
    have "\<exists>\<tau> rest. written @ rest = log_line localtime c \<tau>"
      using w(2) by (auto simp: partial_line_def)
    then show ?thesis
      using Some w(1,3) by (cases "lc_stream c = out") auto
  qed
  then have "\<forall>out. \<exists>begun. log_output s out = log_text localtime h out @ begun \<and>
      (begun = [] \<or> (\<exists>t c items \<tau> rest. log_mutex s = Some t \<and> log_control s t = Inside c items \<and>
         lc_stream c = out \<and> begun @ rest = log_line localtime c \<tau>))"
    by blast
  moreover have "\<forall>t. calls_of t h @ current (log_control s t) @ log_todo s t = programs t"
    and "forward \<longrightarrow> sorted (map en_time h)"
    using inv by (simp_all add: log_inv_def)
  ultimately show ?thesis
    unfolding forward_def log_text_def calls_of_def by (intro exI [of _ h] conjI)
qed

text \<open>One thread has written the first character of its line.\<close>

theorem log_lines_whole_witness:
  "\<exists>s (h :: entry list). (log_step (\<lambda>_. None) (\<le>))\<^sup>*\<^sup>* (log_start 0 (\<lambda>t. if t = 7 then [warn ''full'', info ''ok''] else [])) s \<and>
     log_output s Cout = ''['' \<and> map en_call (filter (\<lambda>e. en_thread e = 7) h) @ [warn ''full'', info ''ok''] =
       [warn ''full'', info ''ok'']"
proof -
  let ?p = "\<lambda>t. if t = 7 then [warn ''full'', info ''ok''] else []"
  let ?step = "log_step (\<lambda>_. None) (\<le>)"
  let ?items = "log_items ''WARN'' ''full''"
  define s0 where "s0 = log_start 0 ?p"
  define s1 where "s1 = s0\<lparr>log_mutex := Some 7, log_todo := (log_todo s0)(7 := [info ''ok'']),
      log_control := (log_control s0)(7 := Inside (warn ''full'') ?items)\<rparr>"
  define s2 where "s2 = s1\<lparr>log_output := (log_output s1)(Cout := log_output s1 Cout @ ''[''),
      log_control := (log_control s1)(7 := Inside (warn ''full'') (tl ?items))\<rparr>"
  have "?step s0 s1"
    using log_step.lock [of s0 7 "warn ''full''" "[info ''ok'']" "\<lambda>_. None" "(\<le>)"]
    by (simp add: s0_def s1_def log_start_def warn_def)
  moreover have "?step s1 s2"
    using log_step.put [of s1 7 "warn ''full''" "CHR ''[''" "tl ?items" "\<lambda>_. None" "(\<le>)"]
    by (simp add: s2_def s1_def s0_def log_start_def log_items_def warn_def)
  ultimately have run: "?step\<^sup>*\<^sup>* (log_start 0 ?p) s2"
    unfolding s0_def by (meson converse_rtranclp_into_rtranclp rtranclp.rtrancl_refl)
  have "\<exists>h :: entry list. map en_call (filter (\<lambda>e. en_thread e = 7) h) @ [warn ''full'', info ''ok''] = [warn ''full'', info ''ok'']"
    using log_lines_whole [OF run] by (auto simp: s2_def s1_def s0_def log_start_def dest!: spec [of _ 7])
  moreover have "log_output s2 Cout = ''[''"
    by (simp add: s2_def s1_def s0_def log_start_def)
  ultimately show ?thesis using run by blast
qed

text \<open>A call that waits for the mutex gets it: as long as a thread has something to log, some thread can go on.\<close>

lemma log_never_stuck:
  assumes "(log_step localtime drift)\<^sup>*\<^sup>* (log_start now programs) s"
    and "log_control s t \<noteq> Outside \<or> log_todo s t \<noteq> []"
  shows "\<exists>s'. log_step localtime (\<lambda>_ _. False) s s'"
proof -
  obtain h where inv: "log_inv localtime False programs s h"
    using log_reachable_inv [OF assms(1), of False] by auto
  show ?thesis
  proof (cases "log_mutex s")
    case None
    then have "log_control s t = Outside" using inv by (simp add: log_inv_def)
    then obtain c cs where "log_todo s t = c # cs" using assms(2) by (cases "log_todo s t") auto
    then show ?thesis
      using log_step.lock [OF \<open>log_control s t = Outside\<close> _ None] by blast
  next
    case (Some u)
    then obtain c items where u: "log_control s u = Inside c items"
      using inv by (cases "log_control s u") (auto simp: log_inv_def)
    show ?thesis
    proof (cases items)
      case Nil
      then show ?thesis
        using log_step.unlock u by blast
    next
      case (Cons i rest)
      show ?thesis
      proof (cases i)
        case (Out ch)
        then show ?thesis
          using log_step.put u Cons by blast
      next
        case Stamp
        then show ?thesis
          using log_step.stamp u Cons by blast
      qed
    qed
  qed
qed

end
