(* ===== verification/Diagnostics.thy ===== *)
theory Diagnostics
  imports Udp_Socket Logger
begin

text \<open>
  What the operations of the socket classes report to the logger. The theories \<open>Sockets\<close> and
  \<open>Udp_Socket\<close> leave the calls of \<open>common::error\<close> out; here each operation is written with them.
  \<open>lg\<close> is the list of the calls so far. The texts of the system's error numbers, \<open>strerror\<close>
  and \<open>gai_strerror\<close>, are parameters.
\<close>

record error_texts =
  strerror :: "int \<Rightarrow> string"
  gai_strerror :: "int \<Rightarrow> string"

type_synonym log = "log_call list"

definition last_socket_error :: "'w sock_api \<Rightarrow> 'w \<Rightarrow> int" where
  "last_socket_error api w = sys_errno api w"

definition socket_error_message :: "error_texts \<Rightarrow> int \<Rightarrow> string" where
  "socket_error_message tx error_code = strerror tx error_code"

definition log_info :: "string \<Rightarrow> log \<Rightarrow> log" where
  "log_info message lg = lg @ [info message]"

definition log_warn :: "string \<Rightarrow> log \<Rightarrow> log" where
  "log_warn message lg = lg @ [warn message]"

definition log_error :: "string \<Rightarrow> log \<Rightarrow> log" where
  "log_error message lg = lg @ [error message]"

text \<open>A process that has been ended by a signal reports nothing more.\<close>

definition unless_killed :: "'w sock_api \<Rightarrow> 'w \<Rightarrow> (log \<Rightarrow> log) \<Rightarrow> log \<Rightarrow> log" where
  "unless_killed api w report lg = (if sys_killed api w then lg else report lg)"

definition log_socket_error :: "error_texts \<Rightarrow> 'w sock_api \<Rightarrow> string \<Rightarrow> 'w \<Rightarrow> log \<Rightarrow> log" where
  "log_socket_error tx api action w lg =
     (let err = last_socket_error api w
      in log_error (action @ '': '' @ socket_error_message tx err) lg)"

subsection \<open>TcpSocket and TcpServer\<close>

definition connect_to_log ::
    "error_texts \<Rightarrow> 'w sock_api \<Rightarrow> socket_t \<Rightarrow> Endpoint \<Rightarrow> 'w \<Rightarrow> log \<Rightarrow> bool \<times> socket_t \<times> 'w \<times> log" where
  "connect_to_log tx api s endpoint w lg =
     (let (s, w) = sock_close api s w;
          port = to_string (ep_port endpoint);
          (resolve_result, results, w) =
            sys_getaddrinfo api (ep_host endpoint) port AF_UNSPEC SOCK_STREAM IPPROTO_TCP w
      in if resolve_result \<noteq> 0
         then (False, s, w, log_error (''TCP resolve failed for '' @ endpoint_to_string endpoint @ '': '' @
                 gai_strerror tx resolve_result) lg)
         else
           case connect_candidates api results w of
             (Some candidate_socket, w) \<Rightarrow> (True, candidate_socket, w, lg)
           | (None, w) \<Rightarrow>
               (False, s, w, log_socket_error tx api
                  (''TCP connect failed for '' @ endpoint_to_string endpoint) w lg))"

partial_function (option) send_loop_log ::
    "error_texts \<Rightarrow> 'w sock_api \<Rightarrow> socket_t \<Rightarrow> bytes \<Rightarrow> u64 \<Rightarrow> 'w \<Rightarrow> log \<Rightarrow> (bool \<times> 'w \<times> log) option" where
  "send_loop_log tx api s data total_sent w lg =
     (if total_sent < of_nat (length data) then
        let remaining = of_nat (length data) - total_sent;
            chunk_size = unat (min remaining int_max);
            (sent, w) = sys_send api s (take chunk_size (drop (unat total_sent) data)) w
        in if sys_killed api w then Some (False, w, lg)
           else if sent = -1 then Some (False, w, log_socket_error tx api ''TCP send failed'' w lg)
           else if sent = 0
           then Some (False, w, log_error ''TCP send failed: connection closed'' lg)
           else send_loop_log tx api s data (total_sent + of_int sent) w lg
      else Some (True, w, lg))"

definition send_all_log ::
    "error_texts \<Rightarrow> 'w sock_api \<Rightarrow> socket_t \<Rightarrow> bytes \<Rightarrow> 'w \<Rightarrow> log \<Rightarrow> (bool \<times> 'w \<times> log) option" where
  "send_all_log tx api s data w lg =
     (if \<not> is_valid_socket s
      then Some (False, w, log_error ''TCP send failed: socket is not open'' lg)
      else send_loop_log tx api s data 0 w lg)"

partial_function (option) recv_loop_log ::
    "error_texts \<Rightarrow> 'w sock_api \<Rightarrow> socket_t \<Rightarrow> nat \<Rightarrow> u64 \<Rightarrow> bytes \<Rightarrow> 'w \<Rightarrow> log \<Rightarrow>
     (bool \<times> bytes \<times> 'w \<times> log) option" where
  "recv_loop_log tx api s len total_received received w lg =
     (if total_received < of_nat len then
        let remaining = of_nat len - total_received;
            chunk_size = unat (min remaining int_max);
            (n, d, w) = sys_recv api s chunk_size w
        in if n = -1
           then Some (False, received, w, log_socket_error tx api ''TCP receive failed'' w lg)
           else if n = 0
           then Some (False, received, w, log_error ''TCP receive failed: connection closed'' lg)
           else recv_loop_log tx api s len (total_received + of_int n) (received @ d) w lg
      else Some (True, received, w, lg))"

definition recv_exact_log ::
    "error_texts \<Rightarrow> 'w sock_api \<Rightarrow> socket_t \<Rightarrow> nat \<Rightarrow> 'w \<Rightarrow> log \<Rightarrow> (bool \<times> bytes \<times> 'w \<times> log) option" where
  "recv_exact_log tx api s len w lg =
     (if \<not> is_valid_socket s
      then Some (False, [], w, log_error ''TCP receive failed: socket is not open'' lg)
      else recv_loop_log tx api s len 0 [] w lg)"

definition bind_and_listen_log ::
    "error_texts \<Rightarrow> 'w sock_api \<Rightarrow> socket_t \<Rightarrow> u16 \<Rightarrow> int \<Rightarrow> 'w \<Rightarrow> log \<Rightarrow> bool \<times> socket_t \<times> 'w \<times> log" where
  "bind_and_listen_log tx api s port backlog w lg =
     (let (s, w) = sock_close api s w;
          (s, w) = sys_socket api AF_INET SOCK_STREAM IPPROTO_TCP w
      in if \<not> is_valid_socket s
         then (False, s, w, log_socket_error tx api ''TCP server socket creation failed'' w lg)
         else
           let (ok, w) = set_reuse_address api s w
           in if \<not> ok
              then let lg = log_socket_error tx api ''TCP server set reuse address failed'' w lg;
                       (s, w) = sock_close api s w in (False, s, w, lg)
              else
                let (r, w) = sys_bind api s (Sockaddr_in 0 port) w
                in if r \<noteq> 0
                   then let lg = log_socket_error tx api
                              (''TCP server bind failed on port '' @ to_string port) w lg;
                            (s, w) = sock_close api s w in (False, s, w, lg)
                   else
                     let (r, w) = sys_listen api s backlog w
                     in if r \<noteq> 0
                        then let lg = log_socket_error tx api
                                   (''TCP server listen failed on port '' @ to_string port) w lg;
                                 (s, w) = sock_close api s w in (False, s, w, lg)
                        else (True, s, w, lg))"

definition accept_client_log ::
    "error_texts \<Rightarrow> 'w sock_api \<Rightarrow> socket_t \<Rightarrow> 'w \<Rightarrow> log \<Rightarrow> socket_t \<times> 'w \<times> log" where
  "accept_client_log tx api s w lg =
     (if \<not> is_valid_socket s
      then (kInvalidSocket, w, log_error ''TCP accept failed: server socket is not open'' lg)
      else
        let (client, w) = sys_accept api s w
        in if \<not> is_valid_socket client
           then (kInvalidSocket, w, log_socket_error tx api ''TCP accept failed'' w lg)
           else (client, w, lg))"

subsection \<open>UdpSocket\<close>

definition udp_open_log ::
    "error_texts \<Rightarrow> 'w sock_api \<Rightarrow> socket_t \<Rightarrow> 'w \<Rightarrow> log \<Rightarrow> bool \<times> socket_t \<times> 'w \<times> log" where
  "udp_open_log tx api s w lg =
     (let (s, w) = sock_close api s w;
          (s, w) = sys_socket api AF_INET SOCK_DGRAM IPPROTO_UDP w
      in if \<not> is_valid_socket s
         then (False, s, w, log_socket_error tx api ''UDP socket creation failed'' w lg)
         else (True, s, w, lg))"

definition udp_bind_to_log ::
    "error_texts \<Rightarrow> 'w sock_api \<Rightarrow> socket_t \<Rightarrow> u16 \<Rightarrow> 'w \<Rightarrow> log \<Rightarrow> bool \<times> socket_t \<times> 'w \<times> log" where
  "udp_bind_to_log tx api s port w lg =
     (let (ready, s, w, lg) =
            (if is_valid_socket s then (True, s, w, lg) else udp_open_log tx api s w lg)
      in if \<not> ready then (False, s, w, lg)
         else
           let (ok, w) = set_reuse_address api s w
           in if \<not> ok
              then let lg = log_socket_error tx api ''UDP set reuse address failed'' w lg;
                       (s, w) = sock_close api s w in (False, s, w, lg)
              else
                let (r, w) = sys_bind api s (Sockaddr_in 0 port) w
                in if r \<noteq> 0
                   then let lg = log_socket_error tx api
                              (''UDP bind failed on port '' @ to_string port) w lg;
                            (s, w) = sock_close api s w in (False, s, w, lg)
                   else (True, s, w, lg))"

definition udp_enable_broadcast_log ::
    "error_texts \<Rightarrow> 'w sock_api \<Rightarrow> socket_t \<Rightarrow> 'w \<Rightarrow> log \<Rightarrow> bool \<times> 'w \<times> log" where
  "udp_enable_broadcast_log tx api s w lg =
     (if \<not> is_valid_socket s
      then (False, w, log_error ''UDP broadcast setup failed: socket is not open'' lg)
      else
        let (r, w) = sys_setsockopt api s SO_BROADCAST w
        in if r \<noteq> 0 then (False, w, log_socket_error tx api ''UDP broadcast setup failed'' w lg)
           else (True, w, lg))"

definition udp_set_receive_timeout_log ::
    "error_texts \<Rightarrow> 'w sock_api \<Rightarrow> socket_t \<Rightarrow> int \<Rightarrow> 'w \<Rightarrow> log \<Rightarrow> bool \<times> 'w \<times> log" where
  "udp_set_receive_timeout_log tx api s timeout w lg =
     (if \<not> is_valid_socket s
      then (False, w, log_error ''UDP receive timeout setup failed: socket is not open'' lg)
      else
        let (r, w) = sys_setsockopt api s
              (SO_RCVTIMEO (timeout sdiv 1000) ((timeout smod 1000) * 1000)) w
        in if r \<noteq> 0 then (False, w, log_socket_error tx api ''UDP receive timeout setup failed'' w lg)
           else (True, w, lg))"

definition udp_send_to_log ::
    "error_texts \<Rightarrow> 'w sock_api \<Rightarrow> socket_t \<Rightarrow> bytes \<Rightarrow> Endpoint \<Rightarrow> 'w \<Rightarrow> log \<Rightarrow> (bool \<times> 'w \<times> log) option" where
  "udp_send_to_log tx api s data endpoint w lg =
     (if \<not> is_valid_socket s
      then Some (False, w, log_error ''UDP send failed: socket is not open'' lg)
      else
        let port = to_string (ep_port endpoint);
            (resolve_result, results, w) =
              sys_getaddrinfo api (ep_host endpoint) port AF_INET SOCK_DGRAM IPPROTO_UDP w
        in if resolve_result \<noteq> 0
           then Some (False, w, log_error (''UDP resolve failed for '' @ endpoint_to_string endpoint @
                  '': '' @ gai_strerror tx resolve_result) lg)
           else
             case results of
               [] \<Rightarrow> None
             | result # _ \<Rightarrow>
                 let send_size = unat (min (of_nat (length data)) int_max);
                     (sent, w) = sys_sendto api s (take send_size data) (ai_addr result) w
                 in if sent < 0
                    then Some (False, w, log_socket_error tx api
                           (''UDP send failed to '' @ endpoint_to_string endpoint) w lg)
                    else if (of_int sent :: u64) \<noteq> of_nat (length data)
                    then Some (False, w,
                           log_error ''UDP send failed: datagram was only partially sent'' lg)
                    else Some (True, w, lg))"

definition udp_receive_from_log ::
    "error_texts \<Rightarrow> 'w sock_api \<Rightarrow> socket_t \<Rightarrow> bytes \<Rightarrow> 'w \<Rightarrow> log \<Rightarrow> UdpReceiveResult \<times> bytes \<times> 'w \<times> log" where
  "udp_receive_from_log tx api s buffer w lg =
     (let result = UdpReceiveResult_init
      in if \<not> is_valid_socket s
         then (result, buffer, w, log_error ''UDP receive failed: socket is not open'' lg)
         else
           let receive_size = unat (min (of_nat (length buffer)) int_max);
               (received, d, remote_address, w) = sys_recvfrom api s receive_size w
           in if received < 0 then
                if is_timeout_error (last_socket_error api w)
                then (result\<lparr>ur_timed_out := True\<rparr>, buffer, w, lg)
                else (result, buffer, w, log_socket_error tx api ''UDP receive failed'' w lg)
              else
                (result\<lparr>ur_ok := True, ur_bytes_received := nat received,
                        ur_remote := endpoint_from_sockaddr api remote_address\<rparr>,
                 d @ drop (length d) buffer, w, lg))"

subsection \<open>Failures are reported once\<close>

definition reports :: "bool \<Rightarrow> log \<Rightarrow> log \<Rightarrow> bool" where
  "reports ok lg lg' \<longleftrightarrow> (if ok then lg' = lg else \<exists>message. lg' = lg @ [error message])"

named_theorems diag "an operation with its reports is the operation, and reports its failure"

lemma reports_simps [simp]:
  "reports True lg lg' \<longleftrightarrow> lg' = lg"
  "reports False lg (log_error message lg)"
  "reports False lg (log_socket_error tx api action w lg)"
  by (auto simp: reports_def log_error_def log_socket_error_def Let_def)

lemma connect_to_diag [diag]:
  "case connect_to_log tx api s endpoint w lg of (ok, s', w', lg') \<Rightarrow>
     connect_to api s endpoint w = (ok, s', w') \<and> reports ok lg lg'"
  by (auto simp: connect_to_log_def connect_to_def Let_def split: prod.splits option.splits if_splits)

lemma bind_and_listen_diag [diag]:
  "case bind_and_listen_log tx api s port backlog w lg of (ok, s', w', lg') \<Rightarrow>
     bind_and_listen api s port backlog w = (ok, s', w') \<and> reports ok lg lg'"
  by (simp add: bind_and_listen_log_def bind_and_listen_def Let_def split: prod.split)

lemma accept_client_diag [diag]:
  "case accept_client_log tx api s w lg of (client, w', lg') \<Rightarrow>
     accept_client api s w = (client, w') \<and> reports (is_valid_socket client) lg lg'"
  by (simp add: accept_client_log_def accept_client_def is_valid_socket_def split: prod.split)

lemma udp_open_diag [diag]:
  "case udp_open_log tx api s w lg of (ok, s', w', lg') \<Rightarrow>
     udp_open api s w = (ok, s', w') \<and> reports ok lg lg'"
  by (simp add: udp_open_log_def udp_open_def Let_def split: prod.split)

lemma udp_bind_to_diag [diag]:
  "case udp_bind_to_log tx api s port w lg of (ok, s', w', lg') \<Rightarrow>
     udp_bind_to api s port w = (ok, s', w') \<and> reports ok lg lg'"
proof -
  obtain ok1 s1 w1 lg1 where op: "udp_open_log tx api s w lg = (ok1, s1, w1, lg1)"
    by (metis prod_cases4)
  then have "udp_open api s w = (ok1, s1, w1)" "reports ok1 lg lg1"
    using udp_open_diag [where tx = tx and api = api and s = s and w = w and lg = lg] by simp_all
  then show ?thesis
    by (auto simp: udp_bind_to_log_def udp_bind_to_def op Let_def split: prod.split)
qed

lemma udp_options_diag [diag]:
  "case udp_enable_broadcast_log tx api s w lg of (ok, w', lg') \<Rightarrow>
     udp_enable_broadcast api s w = (ok, w') \<and> reports ok lg lg'"
  "case udp_set_receive_timeout_log tx api s timeout w lg of (ok, w', lg') \<Rightarrow>
     udp_set_receive_timeout api s timeout w = (ok, w') \<and> reports ok lg lg'"
  by (simp_all add: udp_enable_broadcast_log_def udp_enable_broadcast_def
      udp_set_receive_timeout_log_def udp_set_receive_timeout_def split: prod.split)

lemma udp_send_to_diag [diag]:
  "case udp_send_to_log tx api s data endpoint w lg of
     None \<Rightarrow> udp_send_to api s data endpoint w = None
   | Some (ok, w', lg') \<Rightarrow> udp_send_to api s data endpoint w = Some (ok, w') \<and> reports ok lg lg'"
  by (simp add: udp_send_to_log_def udp_send_to_def Let_def split: prod.split list.split)

lemma udp_receive_from_diag [diag]:
  "case udp_receive_from_log tx api s buffer w lg of (result, buffer', w', lg') \<Rightarrow>
     udp_receive_from api s buffer w = (result, buffer', w') \<and>
     reports (ur_ok result \<or> ur_timed_out result) lg lg'"
  by (simp add: udp_receive_from_log_def udp_receive_from_def UdpReceiveResult_init_def
      last_socket_error_def Let_def split: prod.split)

text \<open>The two loops: each of the two recursions follows the other one.\<close>

definition reports_alive :: "'w sock_api \<Rightarrow> 'w \<Rightarrow> bool \<Rightarrow> log \<Rightarrow> log \<Rightarrow> bool" where
  "reports_alive api w ok lg lg' \<longleftrightarrow>
     (if \<not> ok \<and> sys_killed api w then lg' = lg else reports ok lg lg')"

lemma reports_alive_True [simp]: "reports_alive api w True lg lg' \<longleftrightarrow> lg' = lg"
  by (simp add: reports_alive_def)

lemma send_loop_reports:
  assumes "send_loop api s data t w = Some r"
  shows "\<exists>lg'. send_loop_log tx api s data t w lg = Some (fst r, snd r, lg') \<and>
    reports_alive api (snd r) (fst r) lg lg'"
  using assms
proof (rule send_loop.raw_induct [rotated])
  fix f api s data and t :: u64 and w r
  assume IH: "\<And>api s data t w r. f api s data t w = Some r \<Longrightarrow>
      \<exists>lg'. send_loop_log tx api s data t w lg = Some (fst r, snd r, lg') \<and>
        reports_alive api (snd r) (fst r) lg lg'"
    and run: "(if t < of_nat (length data)
         then let remaining = of_nat (length data) - t; chunk_size = unat (min remaining int_max);
                  (sent, w) = sys_send api s (take chunk_size (drop (unat t) data)) w
              in if sys_killed api w then Some (False, w)
                 else if sent = -1 then Some (False, w) else if sent = 0 then Some (False, w)
                 else f api s data (t + of_int sent) w
         else Some (True, w)) = Some r"
  obtain n w1 where send: "sys_send api s
      (take (unat (min (of_nat (length data) - t) int_max)) (drop (unat t) data)) w = (n, w1)"
    by (metis surj_pair)
  show "\<exists>lg'. send_loop_log tx api s data t w lg = Some (fst r, snd r, lg') \<and>
      reports_alive api (snd r) (fst r) lg lg'"
    using run IH [of api s data "t + of_int n" w1 r]
    by (subst send_loop_log.simps) (auto simp: send Let_def reports_alive_def split: if_splits)
qed

lemma send_loop_log_erase:
  assumes "send_loop_log tx api s data t w lg = Some r"
  shows "send_loop api s data t w = Some (fst r, fst (snd r))"
  using assms
proof (rule send_loop_log.raw_induct [rotated])
  fix f and tx :: error_texts and api s data and t :: u64 and w lg r
  assume IH: "\<And>tx api s data t w lg r. f tx api s data t w lg = Some r \<Longrightarrow>
      send_loop api s data t w = Some (fst r, fst (snd r))"
    and run: "(if t < of_nat (length data)
         then let remaining = of_nat (length data) - t; chunk_size = unat (min remaining int_max);
                  (sent, w) = sys_send api s (take chunk_size (drop (unat t) data)) w
              in if sys_killed api w then Some (False, w, lg)
                 else if sent = -1 then Some (False, w, log_socket_error tx api ''TCP send failed'' w lg)
                 else if sent = 0
                 then Some (False, w, log_error ''TCP send failed: connection closed'' lg)
                 else f tx api s data (t + of_int sent) w lg
         else Some (True, w, lg)) = Some r"
  obtain n w1 where send: "sys_send api s
      (take (unat (min (of_nat (length data) - t) int_max)) (drop (unat t) data)) w = (n, w1)"
    by (metis surj_pair)
  show "send_loop api s data t w = Some (fst r, fst (snd r))"
    using run IH [of tx api s data "t + of_int n" w1 lg r]
    by (subst send_loop.simps) (auto simp: send Let_def split: if_splits)
qed

lemma recv_loop_reports:
  assumes "recv_loop api s n t acc w = Some r"
  shows "\<exists>lg'. recv_loop_log tx api s n t acc w lg = Some (fst r, fst (snd r), snd (snd r), lg') \<and>
    reports (fst r) lg lg'"
  using assms
proof (rule recv_loop.raw_induct [rotated])
  fix f api s n and t :: u64 and acc w r
  assume IH: "\<And>api s n t acc w r. f api s n t acc w = Some r \<Longrightarrow>
      \<exists>lg'. recv_loop_log tx api s n t acc w lg = Some (fst r, fst (snd r), snd (snd r), lg') \<and>
        reports (fst r) lg lg'"
    and run: "(if t < of_nat n
         then let remaining = of_nat n - t; chunk_size = unat (min remaining int_max);
                  (k, d, w) = sys_recv api s chunk_size w
              in if k = -1 then Some (False, acc, w) else if k = 0 then Some (False, acc, w)
                 else f api s n (t + of_int k) (acc @ d) w
         else Some (True, acc, w)) = Some r"
  obtain k d w1 where recv: "sys_recv api s (unat (min (of_nat n - t) int_max)) w = (k, d, w1)"
    by (metis prod_cases3)
  show "\<exists>lg'. recv_loop_log tx api s n t acc w lg = Some (fst r, fst (snd r), snd (snd r), lg') \<and>
      reports (fst r) lg lg'"
    using run IH [of api s n "t + of_int k" "acc @ d" w1 r]
    by (subst recv_loop_log.simps) (auto simp: recv Let_def split: if_splits)
qed

lemma recv_loop_log_erase:
  assumes "recv_loop_log tx api s n t acc w lg = Some r"
  shows "recv_loop api s n t acc w = Some (fst r, fst (snd r), fst (snd (snd r)))"
  using assms
proof (rule recv_loop_log.raw_induct [rotated])
  fix f and tx :: error_texts and api s n and t :: u64 and acc w lg r
  assume IH: "\<And>tx api s n t acc w lg r. f tx api s n t acc w lg = Some r \<Longrightarrow>
      recv_loop api s n t acc w = Some (fst r, fst (snd r), fst (snd (snd r)))"
    and run: "(if t < of_nat n
         then let remaining = of_nat n - t; chunk_size = unat (min remaining int_max);
                  (k, d, w) = sys_recv api s chunk_size w
              in if k = -1
                 then Some (False, acc, w, log_socket_error tx api ''TCP receive failed'' w lg)
                 else if k = 0
                 then Some (False, acc, w, log_error ''TCP receive failed: connection closed'' lg)
                 else f tx api s n (t + of_int k) (acc @ d) w lg
         else Some (True, acc, w, lg)) = Some r"
  obtain k d w1 where recv: "sys_recv api s (unat (min (of_nat n - t) int_max)) w = (k, d, w1)"
    by (metis prod_cases3)
  show "recv_loop api s n t acc w = Some (fst r, fst (snd r), fst (snd (snd r)))"
    using run IH [of tx api s n "t + of_int k" "acc @ d" w1 lg r]
    by (subst recv_loop.simps) (auto simp: recv Let_def split: if_splits)
qed

lemma send_all_diag [diag]:
  "case send_all_log tx api s data w lg of
     None \<Rightarrow> send_all api s data w = None
   | Some (ok, w', lg') \<Rightarrow> send_all api s data w = Some (ok, w') \<and>
       (if is_valid_socket s \<and> \<not> ok \<and> sys_killed api w' then lg' = lg else reports ok lg lg')"
proof (cases "is_valid_socket s")
  case True
  show ?thesis
  proof (cases "send_loop_log tx api s data 0 w lg")
    case None
    have "send_loop api s data 0 w = None"
    proof (rule ccontr)
      assume "send_loop api s data 0 w \<noteq> None"
      then obtain r where "send_loop api s data 0 w = Some r" by blast
      from send_loop_reports [OF this, of tx lg] None show False by simp
    qed
    then show ?thesis using True None by (simp add: send_all_log_def send_all_def)
  next
    case (Some r)
    note plain = send_loop_log_erase [OF Some]
    show ?thesis
      using send_loop_reports [OF plain, of tx lg] Some True plain
      by (cases r) (auto simp: send_all_log_def send_all_def reports_alive_def split: if_splits)
  qed
qed (simp add: send_all_log_def send_all_def)

lemma recv_exact_diag [diag]:
  "case recv_exact_log tx api s n w lg of
     None \<Rightarrow> recv_exact api s n w = None
   | Some (ok, d, w', lg') \<Rightarrow> recv_exact api s n w = Some (ok, d, w') \<and> reports ok lg lg'"
proof (cases "is_valid_socket s")
  case True
  show ?thesis
  proof (cases "recv_loop_log tx api s n 0 [] w lg")
    case None
    have "recv_loop api s n 0 [] w = None"
    proof (rule ccontr)
      assume "recv_loop api s n 0 [] w \<noteq> None"
      then obtain r where "recv_loop api s n 0 [] w = Some r" by blast
      from recv_loop_reports [OF this, of tx lg] None show False by simp
    qed
    then show ?thesis using True None by (simp add: recv_exact_log_def recv_exact_def)
  next
    case (Some r)
    note plain = recv_loop_log_erase [OF Some]
    show ?thesis
      using recv_loop_reports [OF plain, of tx lg] Some True plain
      by (cases r) (auto simp: recv_exact_log_def recv_exact_def)
  qed
qed (simp add: recv_exact_log_def recv_exact_def)

subsection \<open>Property\<close>

text \<open>
  C20: as long as the process lives, the socket classes report every failure to the logger, each
  exactly once, and report nothing when they succeed; a receive that times out is not a failure.
  The exception is \<open>send_all\<close> on a connection that the peer has broken: \<open>SIGPIPE\<close> ends the process
  (\<open>sys_killed\<close>) before anything is reported. Reporting changes nothing else: every operation does what it does without its reports, and one that does not
  return does not return with them either.
\<close>

theorem failures_are_reported_once:
  "(case connect_to_log tx api s endpoint w lg of (ok, s', w', lg') \<Rightarrow>
      connect_to api s endpoint w = (ok, s', w') \<and> reports ok lg lg') \<and>
   (case send_all_log tx api s data w lg of
      None \<Rightarrow> send_all api s data w = None
    | Some (ok, w', lg') \<Rightarrow> send_all api s data w = Some (ok, w') \<and>
        (if is_valid_socket s \<and> \<not> ok \<and> sys_killed api w' then lg' = lg else reports ok lg lg')) \<and>
   (case recv_exact_log tx api s n w lg of
      None \<Rightarrow> recv_exact api s n w = None
    | Some (ok, d, w', lg') \<Rightarrow> recv_exact api s n w = Some (ok, d, w') \<and> reports ok lg lg') \<and>
   (case bind_and_listen_log tx api s port backlog w lg of (ok, s', w', lg') \<Rightarrow>
      bind_and_listen api s port backlog w = (ok, s', w') \<and> reports ok lg lg') \<and>
   (case accept_client_log tx api s w lg of (client, w', lg') \<Rightarrow>
      accept_client api s w = (client, w') \<and> reports (is_valid_socket client) lg lg') \<and>
   (case udp_open_log tx api s w lg of (ok, s', w', lg') \<Rightarrow>
      udp_open api s w = (ok, s', w') \<and> reports ok lg lg') \<and>
   (case udp_bind_to_log tx api s port w lg of (ok, s', w', lg') \<Rightarrow>
      udp_bind_to api s port w = (ok, s', w') \<and> reports ok lg lg') \<and>
   (case udp_enable_broadcast_log tx api s w lg of (ok, w', lg') \<Rightarrow>
      udp_enable_broadcast api s w = (ok, w') \<and> reports ok lg lg') \<and>
   (case udp_set_receive_timeout_log tx api s timeout w lg of (ok, w', lg') \<Rightarrow>
      udp_set_receive_timeout api s timeout w = (ok, w') \<and> reports ok lg lg') \<and>
   (case udp_send_to_log tx api s data endpoint w lg of
      None \<Rightarrow> udp_send_to api s data endpoint w = None
    | Some (ok, w', lg') \<Rightarrow> udp_send_to api s data endpoint w = Some (ok, w') \<and> reports ok lg lg') \<and>
   (case udp_receive_from_log tx api s buffer w lg of (result, buffer', w', lg') \<Rightarrow>
      udp_receive_from api s buffer w = (result, buffer', w') \<and>
      reports (ur_ok result \<or> ur_timed_out result) lg lg')"
  by (intro conjI diag)

end
