(* ===== verification/Console.thy ===== *)
theory Console
  imports Diagnostics Sender Receiver
begin

text \<open>
  What the two transfer programs report to the logger. The theories \<open>Messages\<close>, \<open>Sender\<close> and
  \<open>Receiver\<close> leave the calls of \<open>common::info\<close>, \<open>warn\<close> and \<open>error\<close> out; here the functions are
  written with them, on top of the socket operations of theory \<open>Diagnostics\<close>. A progress line
  that cannot be printed would be undefined behaviour and makes the result \<^const>\<open>None\<close>.
\<close>

subsection \<open>Messages\<close>

definition send_chunk_header_log ::
    "error_texts \<Rightarrow> 'w sock_api \<Rightarrow> socket_t \<Rightarrow> ChunkHeader \<Rightarrow> 'w \<Rightarrow> log \<Rightarrow> (bool \<times> 'w \<times> log) option" where
  "send_chunk_header_log tx api s header w lg =
     send_all_log tx api s (serialize_chunk_header header) w lg"

definition receive_chunk_header_log ::
    "error_texts \<Rightarrow> 'w sock_api \<Rightarrow> socket_t \<Rightarrow> ChunkHeader \<Rightarrow> 'w \<Rightarrow> log \<Rightarrow>
     (bool \<times> ChunkHeader \<times> 'w \<times> log) option" where
  "receive_chunk_header_log tx api s header w lg =
     do {
       (ok, payload, w, lg) \<leftarrow> recv_exact_log tx api s kChunkHeaderSize w lg;
       if \<not> ok then Some (False, header, w, lg)
       else do {
         (ok, header) \<leftarrow> deserialize_chunk_header payload header;
         Some (ok, header, w, lg)
       }
     }"

definition send_hash_packet_log ::
    "error_texts \<Rightarrow> 'w sock_api \<Rightarrow> socket_t \<Rightarrow> HashPacket \<Rightarrow> 'w \<Rightarrow> log \<Rightarrow> (bool \<times> 'w \<times> log) option" where
  "send_hash_packet_log tx api s packet w lg =
     (let payload = serialize_hash_packet packet
      in if payload = [] then Some (False, w, lg) else send_all_log tx api s payload w lg)"

definition receive_hash_packet_log ::
    "error_texts \<Rightarrow> 'w sock_api \<Rightarrow> socket_t \<Rightarrow> HashPacket \<Rightarrow> 'w \<Rightarrow> log \<Rightarrow>
     (bool \<times> HashPacket \<times> 'w \<times> log) option" where
  "receive_hash_packet_log tx api s packet w lg =
     do {
       (ok, payload, w, lg) \<leftarrow> recv_exact_log tx api s kHashPacketSize w lg;
       if \<not> ok then Some (False, packet, w, lg)
       else do {
         (ok, packet) \<leftarrow> deserialize_hash_packet payload packet;
         Some (ok, packet, w, lg)
       }
     }"

definition send_file_manifest_log ::
    "error_texts \<Rightarrow> 'w sock_api \<Rightarrow> socket_t \<Rightarrow> FileManifest \<Rightarrow> 'w \<Rightarrow> log \<Rightarrow> (bool \<times> 'w \<times> log) option" where
  "send_file_manifest_log tx api s manifest w lg =
     (let payload = serialize_file_manifest manifest
      in if payload = [] then Some (False, w, lg) else send_all_log tx api s payload w lg)"

definition receive_file_manifest_log ::
    "error_texts \<Rightarrow> 'w sock_api \<Rightarrow> socket_t \<Rightarrow> FileManifest \<Rightarrow> 'w \<Rightarrow> log \<Rightarrow>
     (bool \<times> FileManifest \<times> 'w \<times> log) option" where
  "receive_file_manifest_log tx api s manifest w lg =
     do {
       (ok, size_frame, w, lg) \<leftarrow> recv_exact_log tx api s 4 w lg;
       if \<not> ok then Some (False, manifest, w, lg)
       else do {
         (payload_size, offset) \<leftarrow> read_u32 size_frame 0;
         if unat payload_size < kManifestHeaderSize \<or>
            unat payload_size > kManifestHeaderSize + kMaxFilenameLength
         then Some (False, manifest, w, lg)
         else do {
           (ok, rest, w, lg) \<leftarrow> recv_exact_log tx api s (unat payload_size) w lg;
           if \<not> ok then Some (False, manifest, w, lg)
           else do {
             (ok, manifest) \<leftarrow> deserialize_file_manifest (size_frame @ rest) manifest;
             Some (ok, manifest, w, lg)
           }
         }
       }
     }"

definition send_continue_request_log ::
    "error_texts \<Rightarrow> 'w sock_api \<Rightarrow> socket_t \<Rightarrow> ContinueRequest \<Rightarrow> 'w \<Rightarrow> log \<Rightarrow> (bool \<times> 'w \<times> log) option"
  where
  "send_continue_request_log tx api s request w lg =
     send_all_log tx api s (serialize_continue_request request) w lg"

definition receive_continue_request_log ::
    "error_texts \<Rightarrow> 'w sock_api \<Rightarrow> socket_t \<Rightarrow> ContinueRequest \<Rightarrow> 'w \<Rightarrow> log \<Rightarrow>
     (bool \<times> ContinueRequest \<times> 'w \<times> log) option"
  where
  "receive_continue_request_log tx api s request w lg =
     do {
       (ok, fixed_payload, w, lg) \<leftarrow> recv_exact_log tx api s continue_fixed_size w lg;
       if \<not> ok then Some (False, request, w, lg)
       else do {
         (missing_count, offset) \<leftarrow> read_u64 fixed_payload 20;
         if missing_count > kMaxChunkIndexes then Some (False, request, w, lg)
         else do {
           let index_size = unat (missing_count * 8);
           (ok, rest, w, lg) \<leftarrow> (if index_size > 0 then recv_exact_log tx api s index_size w lg
                                 else Some (True, [], w, lg));
           if \<not> ok then Some (False, request, w, lg)
           else do {
             (ok, request) \<leftarrow> deserialize_continue_request (fixed_payload @ rest) request;
             Some (ok, request, w, lg)
           }
         }
       }
     }"

subsection \<open>The sender\<close>

definition sender_usage :: "log \<Rightarrow> log" where
  "sender_usage lg =
     (let lg = log_info ''Usage: packetbridge_sender <receiver_ip> <file_path>'' lg;
          lg = log_info ''Example: packetbridge_sender 192.168.1.25 ./example.bin'' lg
      in log_info ''Start packetbridge_receiver on the target machine first.'' lg)"

fun send_chunks_loop_log ::
    "error_texts \<Rightarrow> 'w sock_api \<Rightarrow> socket_t \<Rightarrow> fs \<Rightarrow> FileManifest \<Rightarrow> ifstream \<Rightarrow> u64 list \<Rightarrow>
     ProgressTracker \<Rightarrow> 'w \<Rightarrow> log \<Rightarrow> (bool \<times> ProgressTracker \<times> 'w \<times> log) option" where
  "send_chunks_loop_log tx api s fs manifest input [] progress w lg = Some (True, progress, w, lg)"
| "send_chunks_loop_log tx api s fs manifest input (chunk_index # rest) progress w lg =
     (let byte_offset = chunk_index * ucast (fm_chunk_size manifest);
          payload_size = payload_size_for_chunk manifest chunk_index;
          input = istream_seekg byte_offset input
      in if \<not> istream_ok input
         then Some (False, progress, w, log_error ''File seek failed before chunk read'' lg)
         else
           let (data, input) = istream_read fs (unat payload_size) input
           in if length data \<noteq> unat payload_size
              then Some (False, progress, w,
                     log_error ''File read failed before chunk transfer completed'' lg)
              else do {
                let header = ChunkHeader_init
                      \<lparr>ch_session_id := fm_session_id manifest, ch_chunk_index := chunk_index,
                       ch_byte_offset := byte_offset, ch_payload_size := payload_size\<rparr>;
                (ok, w, lg) \<leftarrow> send_chunk_header_log tx api s header w lg;
                if \<not> ok
                then Some (False, progress, w,
                       unless_killed api w (log_error ''Failed to send chunk header'') lg)
                else do {
                  (ok, w, lg) \<leftarrow> send_all_log tx api s data w lg;
                  if \<not> ok then Some (False, progress, w, lg)
                  else do {
                    let progress = add_progress (of_nat (length data)) 1 progress;
                    let (report, progress) = should_report (sys_clock api w) progress;
                    lg \<leftarrow> (if report then do {
                             line \<leftarrow> progress_line (sys_clock api w) progress;
                             Some (log_info line lg)
                           } else Some lg);
                    send_chunks_loop_log tx api s fs manifest input rest progress w lg
                  }
                }
              })"

definition send_file_chunks_log ::
    "error_texts \<Rightarrow> 'w sock_api \<Rightarrow> socket_t \<Rightarrow> string \<Rightarrow> FileManifest \<Rightarrow> u64 list \<Rightarrow>
     ProgressTracker \<Rightarrow> fs \<Rightarrow> 'w \<Rightarrow> log \<Rightarrow> (bool \<times> ProgressTracker \<times> 'w \<times> log) option" where
  "send_file_chunks_log tx api s file_path manifest chunk_indexes progress fs w lg =
     (let input = ifstream_open file_path fs
      in if \<not> istream_ok input
         then Some (False, progress, w, log_error (''Unable to open input file: '' @ file_path) lg)
         else send_chunks_loop_log tx api s fs manifest input chunk_indexes progress w lg)"

definition sender_session_log ::
    "error_texts \<Rightarrow> 'w sock_api \<Rightarrow> socket_t \<Rightarrow> string \<Rightarrow> FileManifest \<Rightarrow> string \<Rightarrow> fs \<Rightarrow> 'w \<Rightarrow> log \<Rightarrow>
     (int \<times> 'w \<times> log) option"
  where
  "sender_session_log tx api s file_path manifest expected_hash fs w lg =
     do {
       (ok, w, lg) \<leftarrow> send_file_manifest_log tx api s manifest w lg;
       if \<not> ok
       then Some (exit_status api w 1, w,
              unless_killed api w (log_error ''Failed to send file manifest'') lg)
       else do {
         (ok, request, w, lg) \<leftarrow> receive_continue_request_log tx api s ContinueRequest_init w lg;
         if \<not> ok \<or> \<not> validate_continue_request manifest request
         then Some (1, w, log_error ''Failed to receive valid continuation request'' lg)
         else do {
           let requested = (of_nat (length (cr_missing_chunk_indexes request)) :: u64);
           let already_present = fm_chunk_count manifest - requested;
           let lg = log_info (if already_present > 0 then ''Continuing transfer from receiver checkpoint''
                              else ''Starting fresh transfer'') lg;
           let lg = log_info (''Chunks already present on receiver: '' @ to_string already_present) lg;
           let lg = log_info (''Chunks to send: '' @ to_string requested) lg;
           let bytes_to_send = bytes_for_chunks manifest (cr_missing_chunk_indexes request);
           let progress = ProgressTracker_new bytes_to_send requested (sys_clock api w);
           (ok, progress, w, lg) \<leftarrow>
             send_file_chunks_log tx api s file_path manifest (cr_missing_chunk_indexes request)
               progress fs w lg;
           if \<not> ok then Some (exit_status api w 1, w, lg)
           else do {
             let hash_packet = HashPacket_init
                   \<lparr>hp_session_id := fm_session_id manifest, hp_sha256_hex := expected_hash\<rparr>;
             (ok, w, lg) \<leftarrow> send_hash_packet_log tx api s hash_packet w lg;
             if \<not> ok
             then Some (exit_status api w 1, w,
                    unless_killed api w (log_error ''Failed to send SHA-256 hash packet'') lg)
             else do {
               let lg = log_info (''Transfer complete: '' @ fm_filename manifest) lg;
               let lg = log_info (''Chunks sent: '' @ to_string (chunks_completed progress) @ ''/'' @
                                  to_string requested) lg;
               let lg = log_info (''Bytes sent: '' @ to_string (bytes_transferred progress) @ ''/'' @
                                  to_string bytes_to_send) lg;
               let lg = log_info (''Expected SHA-256: '' @ expected_hash) lg;
               line \<leftarrow> summary_line (sys_clock api w) (sys_clock api w) progress;
               Some (0, w, log_info (''Transfer summary: '' @ line) lg)
             }
           }
         }
       }
     }"

fun what :: "cpp_exception \<Rightarrow> string" where
  "what Invalid_argument = ''stoull''"
| "what Out_of_range = ''stoull''"
| "what (Runtime_error message) = message"

definition sender_main_log ::
    "error_texts \<Rightarrow> 'w sock_api \<Rightarrow> string list \<Rightarrow> fs \<Rightarrow> 'w \<Rightarrow> log \<Rightarrow> (int \<times> 'w \<times> log) option" where
  "sender_main_log tx api args fs w lg =
     (case args of
        [receiver_ip, file_path] \<Rightarrow>
          (case file_size file_path fs of
             Inl e \<Rightarrow> Some (1, w, log_error (what e) lg)
           | Inr size_value \<Rightarrow> do {
               let lg = log_info ''Computing SHA-256 for input file'' lg;
               hash_result \<leftarrow> sha256_file file_path fs;
               case hash_result of
                 Inl e \<Rightarrow> Some (1, w, log_error (what e) lg)
               | Inr expected_hash \<Rightarrow>
                   let manifest = sender_manifest file_path size_value;
                       lg = log_info (''Connecting to receiver '' @ receiver_ip @ '':'' @
                              to_string kDefaultTransferTcpPort) lg;
                       lg = log_info (''File: '' @ fm_filename manifest) lg;
                       lg = log_info (''File size: '' @ to_string (fm_file_size manifest) @ '' bytes'') lg;
                       lg = log_info (''Total chunks: '' @ to_string (fm_chunk_count manifest)) lg;
                       lg = log_info (''Chunk size: '' @ to_string (fm_chunk_size manifest) @ '' bytes'') lg;
                       (ok, s, w, lg) = connect_to_log tx api kInvalidSocket
                         \<lparr>ep_host = receiver_ip, ep_port = kDefaultTransferTcpPort\<rparr> w lg
                   in if \<not> ok then Some (1, snd (sock_close api s w), lg)
                      else do {
                        (code, w, lg) \<leftarrow> sender_session_log tx api s file_path manifest
                          expected_hash fs w lg;
                        Some (code, snd (sock_close api s w), lg)
                      }
             })
      | [arg] \<Rightarrow> Some (if is_help_arg arg then 0 else 1, w, sender_usage lg)
      | _ \<Rightarrow> Some (1, w, sender_usage lg))"

subsection \<open>The receiver\<close>

definition receiver_usage :: "log \<Rightarrow> log" where
  "receiver_usage lg =
     (let lg = log_info ''Usage: packetbridge_receiver [output_dir]'' lg;
          lg = log_info ''Example: packetbridge_receiver ./received'' lg
      in log_info ''If output_dir is omitted, files are written to the current directory.'' lg)"

definition store_chunk_log ::
    "string \<Rightarrow> ChunkHeader \<Rightarrow> bytes \<Rightarrow> int \<Rightarrow> transfer \<Rightarrow> log \<Rightarrow> (bool \<times> transfer \<times> log) option" where
  "store_chunk_log checkpoint_path header buffer now t lg =
     (let (out1, fs1) = fstream_seekp (ch_byte_offset header) (tr_output t) (tr_fs t);
          (out2, fs2) = fstream_write buffer out1 fs1;
          t = t\<lparr>tr_output := out2, tr_fs := fs2\<rparr>
      in if fo_fail out2 then Some (False, t, log_error ''Failed while writing output file'' lg)
         else
           let progress = add_progress (ucast (ch_payload_size header)) 1 (tr_progress t);
               checkpoint = (tr_checkpoint t)
                 \<lparr>cp_completed_chunks :=
                    insert (ch_chunk_index header) (cp_completed_chunks (tr_checkpoint t))\<rparr>;
               (saved, fs3) = save_checkpoint checkpoint_path checkpoint fs2;
               t = t\<lparr>tr_checkpoint := checkpoint, tr_progress := progress, tr_fs := fs3\<rparr>
           in if \<not> saved then Some (False, t, log_error ''Failed to update checkpoint file'' lg)
              else
                let (report, progress) = should_report now progress;
                    t = t\<lparr>tr_progress := progress\<rparr>
                in if report then do {
                     line \<leftarrow> progress_line now progress;
                     Some (True, t, log_info line lg)
                   } else Some (True, t, lg))"

definition receive_one_chunk_log ::
    "error_texts \<Rightarrow> 'w sock_api \<Rightarrow> socket_t \<Rightarrow> string \<Rightarrow> FileManifest \<Rightarrow> u64 \<Rightarrow> transfer \<Rightarrow> 'w \<Rightarrow>
     log \<Rightarrow> (bool \<times> transfer \<times> 'w \<times> log) option" where
  "receive_one_chunk_log tx api s checkpoint_path manifest expected_index t w lg =
     do {
       (ok, header, w, lg) \<leftarrow> receive_chunk_header_log tx api s ChunkHeader_init w lg;
       if \<not> ok then Some (False, t, w, log_error ''Failed to receive chunk header'' lg)
       else if ch_chunk_index header \<noteq> expected_index \<or> \<not> validate_chunk_header manifest header
       then Some (False, t, w, log_error ''Invalid chunk header received'' lg)
       else do {
         (ok, buffer, w, lg) \<leftarrow> recv_exact_log tx api s (unat (ch_payload_size header)) w lg;
         if \<not> ok then Some (False, t, w, lg)
         else do {
           (ok, t, lg) \<leftarrow> store_chunk_log checkpoint_path header buffer (sys_clock api w) t lg;
           Some (ok, t, w, lg)
         }
       }
     }"

fun receive_chunks_loop_log ::
    "error_texts \<Rightarrow> 'w sock_api \<Rightarrow> socket_t \<Rightarrow> string \<Rightarrow> FileManifest \<Rightarrow> u64 list \<Rightarrow> transfer \<Rightarrow>
     'w \<Rightarrow> log \<Rightarrow> (bool \<times> transfer \<times> 'w \<times> log) option" where
  "receive_chunks_loop_log tx api s checkpoint_path manifest [] t w lg = Some (True, t, w, lg)"
| "receive_chunks_loop_log tx api s checkpoint_path manifest (expected_index # rest) t w lg =
     do {
       (ok, t, w, lg) \<leftarrow>
         receive_one_chunk_log tx api s checkpoint_path manifest expected_index t w lg;
       if \<not> ok then Some (False, t, w, lg)
       else receive_chunks_loop_log tx api s checkpoint_path manifest rest t w lg
     }"

definition receive_file_chunks_log ::
    "error_texts \<Rightarrow> 'w sock_api \<Rightarrow> socket_t \<Rightarrow> string \<Rightarrow> string \<Rightarrow> FileManifest \<Rightarrow> u64 list \<Rightarrow>
     TransferCheckpoint \<Rightarrow> ProgressTracker \<Rightarrow> bool \<Rightarrow> fs \<Rightarrow> 'w \<Rightarrow> log \<Rightarrow>
     (bool \<times> TransferCheckpoint \<times> ProgressTracker \<times> fs \<times> 'w \<times> log) option" where
  "receive_file_chunks_log tx api s output_path checkpoint_path manifest chunk_indexes checkpoint
       progress fresh_transfer fs w lg =
     (let (prepared, fs) = prepare_output_file output_path fresh_transfer fs
      in if \<not> prepared
         then Some (False, checkpoint, progress, fs, w,
                log_error (''Unable to prepare output file: '' @ output_path) lg)
         else
           let output_stream = fstream_open output_path fs
           in if fo_fail output_stream
              then Some (False, checkpoint, progress, fs, w,
                     log_error (''Unable to open output file: '' @ output_path) lg)
              else do {
                (ok, t, w, lg) \<leftarrow>
                  receive_chunks_loop_log tx api s checkpoint_path manifest chunk_indexes
                    \<lparr>tr_output = output_stream, tr_checkpoint = checkpoint, tr_progress = progress,
                     tr_fs = fs\<rparr> w lg;
                Some (ok, tr_checkpoint t, tr_progress t,
                      fstream_close (tr_output t) (tr_fs t), w, lg)
              })"

definition verify_received_log ::
    "error_texts \<Rightarrow> 'w sock_api \<Rightarrow> socket_t \<Rightarrow> FileManifest \<Rightarrow> string \<Rightarrow> string \<Rightarrow> fs \<Rightarrow> 'w \<Rightarrow> log \<Rightarrow>
     (int \<times> fs \<times> 'w \<times> log) option" where
  "verify_received_log tx api s manifest output_path checkpoint_path fs w lg =
     do {
       (ok, hash_packet, w, lg) \<leftarrow> receive_hash_packet_log tx api s HashPacket_init w lg;
       if \<not> ok \<or> hp_session_id hash_packet \<noteq> fm_session_id manifest
       then Some (1, fs, w, log_error ''Failed to receive valid SHA-256 hash packet'' lg)
       else do {
         let lg = log_info ''Computing SHA-256 for received file'' lg;
         hash_result \<leftarrow> sha256_file output_path fs;
         case hash_result of
           Inl e \<Rightarrow> Some (1, fs, w, log_error (what e) lg)
         | Inr computed_hash \<Rightarrow>
             let lg = log_info (''Expected SHA-256: '' @ hp_sha256_hex hash_packet) lg;
                 lg = log_info (''Computed SHA-256: '' @ computed_hash) lg
             in if computed_hash = hp_sha256_hex hash_packet
                then
                  let (removed, fs) = remove_checkpoint checkpoint_path fs;
                      lg = (if \<not> removed
                            then log_warn (''Unable to remove checkpoint file: '' @ checkpoint_path) lg
                            else lg);
                      lg = log_info (''Byte-count verification passed: '' @
                             to_string (fm_file_size manifest) @ '' bytes available'') lg;
                      lg = log_info ''SHA-256 integrity verified'' lg;
                      lg = log_info (''Transfer complete: '' @ output_path) lg
                  in Some (0, fs, w, lg)
                else Some (1, fs, w, log_error ''SHA-256 integrity failed'' lg)
       }
     }"

definition receiver_session_log ::
    "error_texts \<Rightarrow> 'w sock_api \<Rightarrow> socket_t \<Rightarrow> string \<Rightarrow> fs \<Rightarrow> 'w \<Rightarrow> log \<Rightarrow> (int \<times> fs \<times> 'w \<times> log) option" where
  "receiver_session_log tx api s output_dir fs w lg =
     do {
       (ok, manifest, w, lg) \<leftarrow> receive_file_manifest_log tx api s FileManifest_init w lg;
       if \<not> ok then Some (1, fs, w, log_error ''Failed to receive valid file manifest'' lg)
       else do {
         let output_path = output_path_for output_dir manifest;
         let checkpoint_path = checkpoint_path_for_output output_path;
         let lg = log_info (''Incoming file: '' @ sanitize_filename (fm_filename manifest)) lg;
         let lg = log_info (''File size: '' @ to_string (fm_file_size manifest) @ '' bytes'') lg;
         let lg = log_info (''Total chunks: '' @ to_string (fm_chunk_count manifest)) lg;
         let lg = log_info (''Chunk size: '' @ to_string (fm_chunk_size manifest) @ '' bytes'') lg;
         let lg = log_info (''Writing to: '' @ output_path) lg;
         let (loaded_checkpoint, checkpoint) = initial_checkpoint output_path manifest fs;
         let chunks_to_receive = missing_chunks checkpoint;
         let requested = (of_nat (length chunks_to_receive) :: u64);
         let request = ContinueRequest_init
               \<lparr>cr_session_id := fm_session_id manifest,
                cr_total_chunks := fm_chunk_count manifest,
                cr_missing_chunk_indexes := chunks_to_receive\<rparr>;
         (ok, w, lg) \<leftarrow> send_continue_request_log tx api s request w lg;
         if \<not> ok
         then Some (exit_status api w 1, fs, w,
                unless_killed api w (log_error ''Failed to send continuation request'') lg)
         else do {
           let already_present = fm_chunk_count manifest - requested;
           let lg = log_info (if already_present > 0 then ''Continuing from checkpoint''
                              else ''Starting fresh output file'') lg;
           let lg = log_info (''Chunks already present: '' @ to_string already_present) lg;
           let lg = log_info (''Chunks requested: '' @ to_string requested) lg;
           let (saved, fs) = save_checkpoint checkpoint_path checkpoint fs;
           if \<not> saved then Some (1, fs, w, log_error ''Failed to initialize checkpoint file'' lg)
           else do {
             let progress = ProgressTracker_new (bytes_for_chunks manifest chunks_to_receive)
                   requested (sys_clock api w);
             (ok, checkpoint, progress, fs, w, lg) \<leftarrow>
               receive_file_chunks_log tx api s output_path checkpoint_path manifest
                 chunks_to_receive checkpoint progress (\<not> loaded_checkpoint) fs w lg;
             if \<not> ok then Some (1, fs, w, lg)
             else do {
               let lg = log_info (''Chunks received this run: '' @
                          to_string (chunks_completed progress) @ ''/'' @ to_string requested) lg;
               line \<leftarrow> summary_line (sys_clock api w) (sys_clock api w) progress;
               verify_received_log tx api s manifest output_path checkpoint_path fs w
                 (log_info (''Transfer summary: '' @ line) lg)
             }
           }
         }
       }
     }"

definition receiver_main_log ::
    "error_texts \<Rightarrow> 'w sock_api \<Rightarrow> string list \<Rightarrow> fs \<Rightarrow> 'w \<Rightarrow> log \<Rightarrow> (int \<times> fs \<times> 'w \<times> log) option" where
  "receiver_main_log tx api args fs w lg =
     (if length args > 1 then Some (1, fs, w, receiver_usage lg)
      else if args \<noteq> [] \<and> is_help_arg (hd args) then Some (0, fs, w, receiver_usage lg)
      else
        let output_dir = (if args \<noteq> [] then hd args else ''.'');
            (listening, server, w, lg) =
              bind_and_listen_log tx api kInvalidSocket kDefaultTransferTcpPort 16 w lg
        in if \<not> listening then Some (1, fs, snd (sock_close api server w), lg)
           else
             let lg = log_info (''PacketBridge receiver listening on TCP port '' @
                        to_string kDefaultTransferTcpPort) lg;
                 lg = log_info ''Waiting for one sender connection'' lg;
                 lg = log_info (''Output directory: '' @ output_dir) lg;
                 (client, w, lg) = accept_client_log tx api server w lg
             in if \<not> is_valid_socket client then Some (1, fs, snd (sock_close api server w), lg)
                else do {
                  let lg = log_info ''Sender connected'' lg;
                  (code, fs, w, lg) \<leftarrow> receiver_session_log tx api client output_dir fs w lg;
                  let w = snd (sock_close api client w);
                  Some (code, fs, snd (sock_close api server w), lg)
                })"

end
