(* ===== verification/Reports.thy ===== *)
theory Reports
  imports Diagnostics
begin

text \<open>
  Reasoning about programs that log: how many errors and lines of a level have been logged, and
  how a program with reports is related to the program without them.
\<close>

subsection \<open>Counting errors\<close>

definition errors :: "log \<Rightarrow> nat" where
  "errors lg = length (filter (\<lambda>c. lc_stream c = Cerr) lg)"

text \<open>
  \<open>told\<close>: an error line has been written exactly if the operation failed. A message function
  may also fail without one, when it refuses what it has received; its caller then reports it.
\<close>

definition told :: "bool \<Rightarrow> log \<Rightarrow> log \<Rightarrow> bool" where
  "told ok lg lg' \<longleftrightarrow> (if ok then errors lg' = errors lg else errors lg < errors lg')"

definition calm :: "bool \<Rightarrow> log \<Rightarrow> log \<Rightarrow> bool" where
  "calm ok lg lg' \<longleftrightarrow> (if ok then errors lg' = errors lg else errors lg \<le> errors lg')"

lemma errors_simps [simp]:
  "errors (log_info message lg) = errors lg"
  "errors (log_warn message lg) = errors lg"
  "errors (log_error message lg) = Suc (errors lg)"
  "errors (lg @ [error message]) = Suc (errors lg)"
  by (simp_all add: errors_def log_info_def log_warn_def log_error_def info_def warn_def error_def)

lemma told_reports: "reports ok lg lg' \<Longrightarrow> told ok lg lg'"
  by (auto simp: reports_def told_def split: if_splits)

lemma calm_told: "told ok lg lg' \<Longrightarrow> calm ok lg lg'"
  by (simp add: told_def calm_def split: if_splits)

lemma calm_same [simp]: "calm ok lg lg"
  by (simp add: calm_def)

lemma told_same [simp]: "told True lg lg"
  by (simp add: told_def)

lemma told_trans: "told True lg lg1 \<Longrightarrow> told ok lg1 lg2 \<Longrightarrow> told ok lg lg2"
  by (auto simp: told_def split: if_splits)

lemma told_info [simp]: "told ok (log_info message lg) lg' = told ok lg lg'"
  "told ok lg (log_info message lg') = told ok lg lg'"
  by (auto simp: told_def)

lemma told_log_error [simp]: "told False lg (log_error message lg)"
  by (simp add: told_def)

text \<open>
  \<open>told_alive\<close>: the same for an operation in which the process may be ended by a signal, which
  nothing reports. \<open>told_exit\<close>: for a program, by the way it ends.
\<close>

definition told_alive :: "'w sock_api \<Rightarrow> 'w \<Rightarrow> bool \<Rightarrow> log \<Rightarrow> log \<Rightarrow> bool" where
  "told_alive api w ok lg lg' \<longleftrightarrow>
     (if \<not> ok \<and> sys_killed api w then errors lg \<le> errors lg' else told ok lg lg')"

definition told_exit :: "'w sock_api \<Rightarrow> int \<Rightarrow> log \<Rightarrow> log \<Rightarrow> bool" where
  "told_exit api code lg lg' \<longleftrightarrow>
     (if code = killed_by_sigpipe then (\<exists>w. sys_killed api w) \<and> errors lg \<le> errors lg'
      else code \<in> {0, 1} \<and> told (code = 0) lg lg')"

lemma errors_unless_killed [simp]:
  "errors (unless_killed api w (log_error message) lg) =
     (if sys_killed api w then errors lg else Suc (errors lg))"
  by (simp add: unless_killed_def)

lemma told_alive_True [simp]: "told_alive api w True lg lg' = told True lg lg'"
  by (simp add: told_alive_def)

lemma told_alive_told: "told ok lg lg' \<Longrightarrow> told_alive api w ok lg lg'"
  by (simp add: told_alive_def told_def split: if_splits)

lemma calm_told_alive: "told_alive api w ok lg lg' \<Longrightarrow> calm ok lg lg'"
  by (auto simp: told_alive_def told_def calm_def split: if_splits)

lemma told_alive_trans: "told True lg lg1 \<Longrightarrow> told_alive api w ok lg1 lg2 \<Longrightarrow> told_alive api w ok lg lg2"
  by (auto simp: told_alive_def told_def split: if_splits)

lemma told_alive_unless_killed:
  "errors lg \<le> errors lg' \<Longrightarrow> told_alive api w False lg (unless_killed api w (log_error message) lg')"
  by (simp add: told_alive_def told_def)

lemma told_exit_simps [simp]:
  "told_exit api 0 lg lg' = told True lg lg'" "told_exit api 1 lg lg' = told False lg lg'"
  by (simp_all add: told_exit_def killed_by_sigpipe_def)

lemma told_exit_status: "told_alive api w False lg lg' \<Longrightarrow> told_exit api (exit_status api w 1) lg lg'"
  by (auto simp: told_exit_def told_alive_def exit_status_def killed_by_sigpipe_def)

lemma told_alive_same: "sys_killed api w \<Longrightarrow> told_alive api w False lg lg"
  by (simp add: told_alive_def)

lemma told_exit_from:
  "told_exit api code lg1 lg2 \<Longrightarrow> errors lg1 = errors lg \<Longrightarrow> told_exit api code lg lg2"
  by (auto simp: told_exit_def told_def split: if_splits)

lemma told_exit_trans: "told True lg lg1 \<Longrightarrow> told_exit api code lg1 lg2 \<Longrightarrow> told_exit api code lg lg2"
  by (auto simp: told_exit_def told_def split: if_splits)

subsection \<open>Counting lines\<close>

definition lines :: "string \<Rightarrow> log \<Rightarrow> nat" where
  "lines level lg = length (filter (\<lambda>c. lc_level c = level) lg)"

lemma lines_simps [simp]:
  "lines ''INFO'' (log_info message lg) = Suc (lines ''INFO'' lg)"
  "lines ''WARN'' (log_info message lg) = lines ''WARN'' lg"
  "lines ''INFO'' (log_warn message lg) = lines ''INFO'' lg"
  "lines ''WARN'' (log_warn message lg) = Suc (lines ''WARN'' lg)"
  "lines ''INFO'' (log_error message lg) = lines ''INFO'' lg"
  "lines ''WARN'' (log_error message lg) = lines ''WARN'' lg"
  by (simp_all add: lines_def log_info_def log_warn_def log_error_def info_def warn_def error_def)

lemma set_log_simps [simp]:
  "set (log_info message lg) = insert (info message) (set lg)"
  "set (log_warn message lg) = insert (warn message) (set lg)"
  "set (log_error message lg) = insert (error message) (set lg)"
  by (simp_all add: log_info_def log_warn_def log_error_def)

subsection \<open>Programs with and without reports\<close>

text \<open>
  A program with reports is related to the one without: both are undefined, or both return and
  the results agree. Sequences of related steps are related.
\<close>

lemma rel_bind:
  assumes "rel_option R x y" and "\<And>a b. x = Some a \<Longrightarrow> y = Some b \<Longrightarrow> R a b \<Longrightarrow> rel_option S (f a) (g b)"
  shows "rel_option S (Option.bind x f) (Option.bind y g)"
  using assms by (cases x; cases y) auto

lemma rel_bind_same:
  "(\<And>a. x = Some a \<Longrightarrow> rel_option S (f a) (g a)) \<Longrightarrow> rel_option S (Option.bind x f) (Option.bind x g)"
  by (cases x) auto

lemma rel_option_weaken:
  "rel_option R x y \<Longrightarrow> (\<And>a b. R a b \<Longrightarrow> S a b) \<Longrightarrow> rel_option S x y"
  by (metis option.rel_mono_strong)

text \<open>A loop with reports that erases to the one without, and returns whenever that one does.\<close>

lemma rel_erase:
  assumes "\<And>a. x = Some a \<Longrightarrow> y = Some (erase a)" and "\<And>b. y = Some b \<Longrightarrow> x \<noteq> None"
  shows "rel_option (\<lambda>a b. b = erase a) x y"
  using assms by (cases x; cases y) auto

end
