(* ===== verification/Console_Reports.thy ===== *)
theory Console_Reports
  imports Console Reports Pipe
begin

text \<open>
  What the reports of the two transfer programs say about the transfer: the programs of theory
  \<open>Console\<close> do what those of \<open>Sender\<close> and \<open>Receiver\<close> do, and a failure is always reported.
\<close>

subsection \<open>Messages\<close>

lemma send_all_told:
  "rel_option (\<lambda>(ok, w', lg') r. r = (ok, w') \<and> told_alive api w' ok lg lg')
     (send_all_log tx api s data w lg) (send_all api s data w)"
  using send_all_diag [where tx = tx and api = api and s = s and data = data and w = w and lg = lg]
  by (auto dest!: told_reports intro: told_alive_same told_alive_told split: option.splits if_splits)

lemma recv_exact_told:
  "rel_option (\<lambda>(ok, d, w', lg') r. r = (ok, d, w') \<and> told ok lg lg')
     (recv_exact_log tx api s n w lg) (recv_exact api s n w)"
  using recv_exact_diag [where tx = tx and api = api and s = s and n = n and w = w and lg = lg]
  by (auto intro: told_reports split: option.splits)

lemma connect_to_told:
  "connect_to_log tx api s endpoint w lg = (ok, s', w', lg') \<Longrightarrow>
     connect_to api s endpoint w = (ok, s', w') \<and> told ok lg lg'"
  using connect_to_diag [where tx = tx and api = api and s = s and endpoint = endpoint and w = w and lg = lg]
  by (auto intro: told_reports)

lemma bind_and_listen_told:
  "bind_and_listen_log tx api s port backlog w lg = (ok, s', w', lg') \<Longrightarrow>
     bind_and_listen api s port backlog w = (ok, s', w') \<and> told ok lg lg'"
  using bind_and_listen_diag [where tx = tx and api = api and s = s and port = port and
      backlog = backlog and w = w and lg = lg]
  by (auto intro: told_reports)

lemma accept_client_told:
  "accept_client_log tx api s w lg = (client, w', lg') \<Longrightarrow>
     accept_client api s w = (client, w') \<and> told (is_valid_socket client) lg lg'"
  using accept_client_diag [where tx = tx and api = api and s = s and w = w and lg = lg]
  by (auto intro: told_reports)

lemma send_all_calm:
  "rel_option (\<lambda>(ok, w', lg') r. r = (ok, w') \<and> calm ok lg lg')
     (send_all_log tx api s data w lg) (send_all api s data w)"
  by (rule rel_option_weaken [OF send_all_told]) (auto intro: calm_told_alive)

lemma send_messages_calm:
  "rel_option (\<lambda>(ok, w', lg') r. r = (ok, w') \<and> calm ok lg lg')
     (send_chunk_header_log tx api s h w lg) (send_chunk_header api s h w)"
  "rel_option (\<lambda>(ok, w', lg') r. r = (ok, w') \<and> calm ok lg lg')
     (send_hash_packet_log tx api s p w lg) (send_hash_packet api s p w)"
  "rel_option (\<lambda>(ok, w', lg') r. r = (ok, w') \<and> calm ok lg lg')
     (send_file_manifest_log tx api s m w lg) (send_file_manifest api s m w)"
  "rel_option (\<lambda>(ok, w', lg') r. r = (ok, w') \<and> calm ok lg lg')
     (send_continue_request_log tx api s q w lg) (send_continue_request api s q w)"
  unfolding send_chunk_header_log_def send_chunk_header_def send_hash_packet_log_def
      send_hash_packet_def send_file_manifest_log_def send_file_manifest_def
      send_continue_request_log_def send_continue_request_def Let_def
  by (simp_all add: send_all_calm)

lemma receive_chunk_header_calm:
  "rel_option (\<lambda>(ok, h', w', lg') r. r = (ok, h', w') \<and> calm ok lg lg')
     (receive_chunk_header_log tx api s h w lg) (receive_chunk_header api s h w)"
  unfolding receive_chunk_header_log_def receive_chunk_header_def
  by (intro rel_bind [OF recv_exact_told])
    (auto simp: calm_def told_def intro!: rel_bind_same)

lemma receive_hash_packet_calm:
  "rel_option (\<lambda>(ok, p', w', lg') r. r = (ok, p', w') \<and> calm ok lg lg')
     (receive_hash_packet_log tx api s p w lg) (receive_hash_packet api s p w)"
  unfolding receive_hash_packet_log_def receive_hash_packet_def
  by (intro rel_bind [OF recv_exact_told])
    (auto simp: calm_def told_def intro!: rel_bind_same)

lemma receive_file_manifest_calm:
  "rel_option (\<lambda>(ok, m', w', lg') r. r = (ok, m', w') \<and> calm ok lg lg')
     (receive_file_manifest_log tx api s m w lg) (receive_file_manifest api s m w)"
  unfolding receive_file_manifest_log_def receive_file_manifest_def
  by (intro rel_bind [OF recv_exact_told])
    (auto simp: calm_def told_def intro!: rel_bind_same rel_bind [OF recv_exact_told])

lemma receive_continue_request_calm:
  "rel_option (\<lambda>(ok, q', w', lg') r. r = (ok, q', w') \<and> calm ok lg lg')
     (receive_continue_request_log tx api s q w lg) (receive_continue_request api s q w)"
  unfolding receive_continue_request_log_def receive_continue_request_def
  by (intro rel_bind [OF recv_exact_told])
    (auto simp: calm_def told_def Let_def intro!: rel_bind_same rel_bind [OF recv_exact_told])

subsection \<open>The sender reports what it does\<close>

text \<open>
  The clock advances by at most \<open>2 ^ 26\<close> seconds between any two readings (\<open>brief\<close>). Then a
  tracker of a moderate total (\<open>tame\<close>) can print its lines at all times.
\<close>

definition tame :: "'w sock_api \<Rightarrow> ProgressTracker \<Rightarrow> bool" where
  "tame api p \<longleftrightarrow>
     (\<forall>w. sys_clock api w - pt_started_at p \<le> 2 ^ 26 * 1000000000) \<and> uint (pt_total_bytes p) \<le> 2 ^ 36"

definition brief :: "'w sock_api \<Rightarrow> bool" where
  "brief api \<longleftrightarrow> (\<forall>w w'. sys_clock api w - sys_clock api w' \<le> 2 ^ 26 * 1000000000)"

lemma tame_simps [simp]:
  "tame api (add_progress a b p) = tame api p"
  "tame api (snd (should_report now p)) = tame api p"
  by (simp_all add: tame_def add_progress_def should_report_def)

lemma tame_new: "brief api \<Longrightarrow> uint n \<le> 2 ^ 36 \<Longrightarrow> tame api (ProgressTracker_new n k (sys_clock api w))"
  by (simp add: brief_def tame_def ProgressTracker_new_def)

lemma tame_lines:
  assumes "tame api p"
  obtains line where "progress_line (sys_clock api w) p = Some line"
  using assms progress_line_defined(1) [of "sys_clock api w" p] by (auto simp: tame_def)

lemma tame_summary:
  assumes "tame api p"
  obtains line where "summary_line (sys_clock api w) (sys_clock api w) p = Some line"
  using assms progress_line_defined(2) [of "sys_clock api w" p] by (auto simp: tame_def)

lemma report_step:
  assumes "tame api p" and "\<And>line. rel_option R (f line) y"
  shows "rel_option R (Option.bind (progress_line (sys_clock api w) p) f) y"
proof -
  obtain line where "progress_line (sys_clock api w) p = Some line"
    by (rule tame_lines [OF assms(1)])
  then show ?thesis by (simp add: assms(2))
qed

lemma summary_step:
  assumes "tame api p" and "\<And>line. rel_option R (f line) y"
  shows "rel_option R (Option.bind (summary_line (sys_clock api w) (sys_clock api w) p) f) y"
proof -
  obtain line where "summary_line (sys_clock api w) (sys_clock api w) p = Some line"
    by (rule tame_summary [OF assms(1)])
  then show ?thesis by (simp add: assms(2))
qed

text \<open>The sender, from the loop over the chunks up to the whole program.\<close>

lemma send_chunks_loop_told:
  "tame api p \<Longrightarrow>
   rel_option (\<lambda>(ok, p', w', lg') r. r = (ok, p', w') \<and> told_alive api w' ok lg lg' \<and> tame api p')
     (send_chunks_loop_log tx api s fs m input is p w lg) (send_chunks_loop api s fs m input is p w)"
proof (induction "is" arbitrary: input p w lg)
  case (Cons i "is")
  let ?R = "\<lambda>(ok, p', w', lg') r. r = (ok, p', w') \<and> told_alive api w' ok lg lg' \<and> tame api p'"
  have IH: "rel_option ?R
       (send_chunks_loop_log tx api s fs m input1 is q w1 lg1) (send_chunks_loop api s fs m input1 is q w1)"
    if "told True lg lg1" "tame api q" for lg1 q input1 w1
    by (rule rel_option_weaken [OF Cons.IH [OF that(2)]]) (use that(1) in \<open>auto intro: told_alive_trans\<close>)
  have tail: "rel_option ?R
     (let (report, q) = should_report (sys_clock api w1) (add_progress n 1 p)
      in do { lg \<leftarrow> (if report then do {
                             line \<leftarrow> progress_line (sys_clock api w1) q;
                             Some (log_info line lg1)
                           } else Some lg1);
              send_chunks_loop_log tx api s fs m input1 is q w1 lg })
     (let (_, q) = should_report (sys_clock api w1) (add_progress n 1 p)
      in send_chunks_loop api s fs m input1 is q w1)"
    if "told True lg lg1" for lg1 n input1 w1
  proof -
    obtain r q where r: "should_report (sys_clock api w1) (add_progress n 1 p) = (r, q)"
      by (metis surj_pair)
    then have "tame api q"
      using Cons.prems tame_simps(2) [of api "sys_clock api w1" "add_progress n 1 p"] by simp
    then show ?thesis
      unfolding r using IH that by (cases r) (simp_all add: report_step)
  qed
  have calm: "told True lg lg1" if "calm True lg lg1" "told True lg1 lg2" for lg1 lg2
    using that by (simp add: told_def calm_def)
  define input1 where "input1 = istream_seekg (i * ucast (fm_chunk_size m)) input"
  obtain d input2 where rd: "istream_read fs (unat (payload_size_for_chunk m i)) input1 = (d, input2)"
    by (metis surj_pair)
  show ?case
    unfolding send_chunks_loop_log.simps send_chunks_loop.simps Let_def input1_def [symmetric] rd prod.case
    using Cons.prems
    by (auto intro!: rel_bind [OF send_messages_calm(1)] rel_bind [OF send_all_told]
        tail [unfolded Let_def prod.case])
      (auto simp: told_alive_def told_def calm_def split: if_splits)
qed simp


lemma send_file_chunks_told:
  assumes "tame api p"
  shows "rel_option (\<lambda>(ok, p', w', lg') r. r = (ok, p', w') \<and> told_alive api w' ok lg lg' \<and> tame api p')
     (send_file_chunks_log tx api s path m is p fs w lg) (send_file_chunks api s path m is p fs w)"
  using send_chunks_loop_told [OF assms] assms
  by (simp add: send_file_chunks_log_def send_file_chunks_def Let_def told_alive_told)

lemma sender_total:
  assumes "validate_continue_request m r" and "manifest_consistent m" and "uint (fm_file_size m) \<le> 2 ^ 36"
  shows "uint (bytes_for_chunks m (cr_missing_chunk_indexes r)) \<le> 2 ^ 36"
proof -
  have "unat (bytes_for_chunks m (cr_missing_chunk_indexes r)) \<le> fsz m"
    using assms(1) valid_indexes [OF assms(1)]
    by (intro unat_bytes_for_chunks(2) [OF assms(2)])
      (auto simp: validate_continue_request_iff strict_sorted_iff)
  then have "uint (bytes_for_chunks m (cr_missing_chunk_indexes r)) \<le> uint (fm_file_size m)"
    by (simp add: fsz_def word_le_nat_alt [symmetric] word_le_def)
  with assms(3) show ?thesis by simp
qed

lemma sender_session_told:
  assumes "brief api" and "manifest_consistent m" and "uint (fm_file_size m) \<le> 2 ^ 36"
  shows "rel_option (\<lambda>(code, w', lg') r. r = (code, w') \<and> told_exit api code lg lg')
     (sender_session_log tx api s path m h fs w lg) (sender_session api s path m h fs w)"
proof -
  have hash: "rel_option (\<lambda>(code, w', lg') r. r = (code, w') \<and> told_exit api code lg lg')
     (do { (ok, w, lg) \<leftarrow> send_hash_packet_log tx api s q w1 lg1;
           if \<not> ok then Some (exit_status api w 1, w, unless_killed api w (log_error message) lg)
           else do { line \<leftarrow> summary_line (sys_clock api w) (sys_clock api w) p;
                     Some (0, w, log_info (f line) (g lg)) } })
     (do { (ok, w) \<leftarrow> send_hash_packet api s q w1; if \<not> ok then Some (exit_status api w 1, w) else Some (0, w) })"
    if "told True lg lg1" "tame api p" "\<And>lg. errors (g lg) = errors lg"
    for q w1 lg1 message p and f :: "string \<Rightarrow> string" and g
    by (rule rel_bind [OF send_messages_calm(2)])
      (use that in \<open>auto simp: told_def calm_def intro!: summary_step told_exit_status told_alive_unless_killed\<close>)
  show ?thesis
    unfolding sender_session_log_def sender_session_def Let_def
    by (rule rel_bind [OF send_messages_calm(3)])
      (auto intro!: rel_bind [OF receive_continue_request_calm] rel_bind [OF send_file_chunks_told]
         tame_new assms(1) sender_total [OF _ assms(2,3)] hash told_exit_status told_alive_unless_killed,
       auto simp: told_alive_def told_def calm_def split: if_splits)
qed

text \<open>
  The whole sender: the exit code is 0 exactly if no error was reported.
\<close>

lemma sender_main_told:
  assumes "brief api" and "\<And>n. file_size path fs = Inr n \<Longrightarrow> uint n \<le> 2 ^ 36"
  shows "rel_option (\<lambda>(code, w', lg') r. r = (code, w') \<and> told_exit api code lg lg')
     (sender_main_log tx api [ip, path] fs w lg) (sender_main api [ip, path] fs w)"
proof (cases "file_size path fs")
  case (Inl e)
  then show ?thesis
    by (simp add: sender_main_log_def sender_main_def)
next
  case (Inr n)
  have fits: "uint (fm_file_size (sender_manifest path n)) \<le> 2 ^ 36"
    using assms(2) [OF Inr] by (simp add: sender_manifest_def Let_def)
  note session = rel_bind [OF sender_session_told [OF assms(1) sender_manifest_consistent fits]]
  have go: "rel_option (\<lambda>(code, w', lg') r. r = (code, w') \<and> told_exit api code lg lg')
      (let (ok, s, w1, lg2) = connect_to_log tx api kInvalidSocket ep w lg1
       in if \<not> ok then Some (1 :: int, snd (sock_close api s w1), lg2)
          else do {
            (code, w1, lg) \<leftarrow> sender_session_log tx api s path (sender_manifest path n) h fs w1 lg2;
            Some (code, snd (sock_close api s w1), lg)
          })
      (let (ok, s, w1) = connect_to api kInvalidSocket ep w
       in if \<not> ok then Some (1 :: int, snd (sock_close api s w1))
          else do {
            (code, w1) \<leftarrow> sender_session api s path (sender_manifest path n) h fs w1;
            Some (code, snd (sock_close api s w1))
          })"
    if "errors lg1 = errors lg" for lg1 h ep
  proof -
    obtain ok s w1 lg2 where con: "connect_to_log tx api kInvalidSocket ep w lg1 = (ok, s, w1, lg2)"
      by (metis prod_cases4)
    with that connect_to_told [OF con] show ?thesis
      by (auto intro!: session) (auto simp: told_def intro: told_exit_from split: if_splits)
  qed
  show ?thesis
    unfolding sender_main_log_def sender_main_def
    by (auto simp: Inr Let_def intro!: rel_bind_same go [unfolded Let_def] split: sum.split)
      (simp add: told_def)
qed

subsection \<open>The receiver reports what it does\<close>

lemma store_chunk_told:
  assumes "tame api (tr_progress t)"
  shows "rel_option (\<lambda>(ok, t', lg') r. r = (ok, t') \<and> told ok lg lg' \<and> tame api (tr_progress t'))
     (store_chunk_log cpath header buffer (sys_clock api w) t lg)
     (Some (store_chunk cpath header buffer (sys_clock api w) t))"
proof -
  have lines: "rel_option R (Option.bind (progress_line (sys_clock api w) q) f) y"
    if "should_report (sys_clock api w) (add_progress n k (tr_progress t)) = (r, q)"
      "\<And>line. rel_option R (f line) y" for q r n k R f and y :: "(bool \<times> transfer) option"
    using report_step [of api q R f y w] tame_simps(2) [of api "sys_clock api w" "add_progress n k (tr_progress t)"]
      that assms by simp
  have tame: "tame api q"
    if "should_report (sys_clock api w) (add_progress n k (tr_progress t)) = (r, q)" for q r n k
    using tame_simps(2) [of api "sys_clock api w" "add_progress n k (tr_progress t)"] that assms by simp
  show ?thesis
    using assms
    by (auto simp: store_chunk_log_def store_chunk_def Let_def split: prod.split
        intro!: lines dest: tame)
qed

lemma receive_one_chunk_told:
  assumes "tame api (tr_progress t)"
  shows "rel_option (\<lambda>(ok, t', w', lg') r. r = (ok, t', w') \<and> told ok lg lg' \<and> tame api (tr_progress t'))
     (receive_one_chunk_log tx api s cpath m i t w lg) (receive_one_chunk api s cpath m i t w)"
proof -
  have store: "rel_option (\<lambda>(ok, t', w', lg') r. r = (ok, t', w') \<and> told ok lg lg' \<and> tame api (tr_progress t'))
      (do { (ok, t, lg) \<leftarrow> store_chunk_log cpath header buffer (sys_clock api w1) t lg1; Some (ok, t, w1, lg) })
      (let (ok, t) = store_chunk cpath header buffer (sys_clock api w1) t in Some (ok, t, w1))"
    if "told True lg lg1" for header buffer w1 lg1
    using store_chunk_told [OF assms, of lg1 cpath header buffer w1] that
    by (cases "store_chunk_log cpath header buffer (sys_clock api w1) t lg1")
      (auto split: prod.split intro: told_trans)
  show ?thesis
    unfolding receive_one_chunk_log_def receive_one_chunk_def
    using assms
    by (intro rel_bind [OF receive_chunk_header_calm])
      (auto intro!: rel_bind [OF recv_exact_told] store [unfolded Let_def],
       simp_all add: told_def calm_def split: if_splits)
qed

lemma receive_chunks_loop_told:
  "tame api (tr_progress t) \<Longrightarrow>
   rel_option (\<lambda>(ok, t', w', lg') r. r = (ok, t', w') \<and> told ok lg lg' \<and> tame api (tr_progress t'))
     (receive_chunks_loop_log tx api s cpath m is t w lg) (receive_chunks_loop api s cpath m is t w)"
proof (induction "is" arbitrary: t w lg)
  case (Cons i "is")
  have IH: "rel_option (\<lambda>(ok, t', w', lg') r. r = (ok, t', w') \<and> told ok lg lg' \<and> tame api (tr_progress t'))
     (receive_chunks_loop_log tx api s cpath m is t1 w1 lg1) (receive_chunks_loop api s cpath m is t1 w1)"
    if "told True lg lg1" "tame api (tr_progress t1)" for t1 w1 lg1
    by (rule rel_option_weaken [OF Cons.IH [OF that(2)]]) (use that(1) in \<open>auto intro: told_trans\<close>)
  show ?case
    unfolding receive_chunks_loop_log.simps receive_chunks_loop.simps
    by (rule rel_bind [OF receive_one_chunk_told [OF Cons.prems]]) (auto intro!: IH)
qed simp

lemma receive_file_chunks_told:
  assumes "tame api p"
  shows "rel_option (\<lambda>(ok, cp', p', fs', w', lg') r. r = (ok, cp', p', fs', w') \<and> told ok lg lg' \<and> tame api p')
     (receive_file_chunks_log tx api s path cpath m is cp p fresh fs w lg)
     (receive_file_chunks api s path cpath m is cp p fresh fs w)"
  using assms
  by (auto simp: receive_file_chunks_log_def receive_file_chunks_def Let_def split: prod.split
      intro!: rel_bind [OF receive_chunks_loop_told])

lemma verify_received_told:
  "rel_option (\<lambda>(code, fs', w', lg') r. r = (code, fs', w') \<and> told_exit api code lg lg')
     (verify_received_log tx api s m path cpath fs w lg) (verify_received api s m path cpath fs w)"
  unfolding verify_received_log_def verify_received_def
  by (intro rel_bind [OF receive_hash_packet_calm])
    (auto simp: Let_def told_def calm_def intro!: rel_bind_same split: sum.split prod.split if_splits)

lemma receive_file_manifest_consistent:
  assumes "receive_file_manifest api s m0 w = Some (True, m, w')"
  shows "manifest_consistent m"
proof -
  have "\<exists>frame m1. deserialize_file_manifest frame m1 = Some (True, m)"
    using assms by (auto simp: receive_file_manifest_def split: Option.bind_splits if_splits) blast
  then show ?thesis
    using deserialize_file_manifest_sound by (auto simp: manifest_wf_def)
qed

lemma receiver_total:
  assumes "initial_checkpoint path m fs = (loaded, cp)" and "manifest_consistent m" and "uint (fm_file_size m) \<le> 2 ^ 36"
  shows "uint (bytes_for_chunks m (missing_chunks cp)) \<le> 2 ^ 36"
  using sender_total [OF request_for_valid [OF initial_checkpoint_props(1) [OF assms(1)]] assms(2,3)]
  by (simp add: request_for_def)

lemma receiver_session_told:
  assumes brief: "brief api"
    and size: "\<And>m w'. receive_file_manifest api s FileManifest_init w = Some (True, m, w') \<Longrightarrow>
      uint (fm_file_size m) \<le> 2 ^ 36"
  shows "rel_option (\<lambda>(code, fs', w', lg') r. r = (code, fs', w') \<and> told_exit api code lg lg')
     (receiver_session_log tx api s dir fs w lg) (receiver_session api s dir fs w)"
proof -
  have verify: "rel_option (\<lambda>(code, fs', w', lg') r. r = (code, fs', w') \<and> told_exit api code lg lg')
     (do { line \<leftarrow> summary_line (sys_clock api w1) (sys_clock api w1) p;
           verify_received_log tx api s m path cpath fs1 w1 (log_info (f line) lg1) })
     (verify_received api s m path cpath fs1 w1)"
    if "told True lg lg1" "tame api p" for lg1 p f m path cpath fs1 w1
    by (intro summary_step [OF that(2)] rel_option_weaken [OF verify_received_told])
      (use that(1) in \<open>auto simp: told_def intro: told_exit_from\<close>)
  show ?thesis
    unfolding receiver_session_log_def receiver_session_def Let_def
    by (rule rel_bind [OF receive_file_manifest_calm])
      (auto split: prod.split intro!: rel_bind [OF send_messages_calm(4)] rel_bind [OF receive_file_chunks_told]
         tame_new brief receiver_total receive_file_manifest_consistent size verify
         told_exit_status told_alive_unless_killed,
       auto simp: told_def calm_def split: if_splits)
qed

text \<open>The peer of a receiver that starts in the state \<open>w\<close> does not announce a larger file.\<close>

definition announces_at_most :: "'w sock_api \<Rightarrow> nat \<Rightarrow> 'w \<Rightarrow> bool" where
  "announces_at_most api n w \<longleftrightarrow>
     (\<forall>server w1 client w2 m w3.
        bind_and_listen api kInvalidSocket kDefaultTransferTcpPort 16 w = (True, server, w1) \<longrightarrow>
        accept_client api server w1 = (client, w2) \<longrightarrow>
        receive_file_manifest api client FileManifest_init w2 = Some (True, m, w3) \<longrightarrow>
        unat (fm_file_size m) \<le> n)"

lemma receiver_main_told:
  assumes brief: "brief api" and size: "announces_at_most api (2 ^ 36) w"
    and args: "length args \<le> 1" "args \<noteq> [] \<longrightarrow> \<not> is_help_arg (hd args)"
  shows "rel_option (\<lambda>(code, fs', w', lg') r. r = (code, fs', w') \<and> told_exit api code lg lg')
     (receiver_main_log tx api args fs w lg) (receiver_main api args fs w)"
proof -
  have fits: "uint (fm_file_size m) \<le> 2 ^ 36"
    if "bind_and_listen api kInvalidSocket kDefaultTransferTcpPort 16 w = (True, server, w1)"
      "accept_client api server w1 = (client, w2)"
      "receive_file_manifest api client FileManifest_init w2 = Some (True, m, w3)"
    for server w1 client w2 m w3
  proof -
    have "unat (fm_file_size m) \<le> 2 ^ 36"
      using size that unfolding announces_at_most_def by blast
    then have "int (unat (fm_file_size m)) \<le> int (2 ^ 36)"
      by (rule of_nat_mono)
    then show ?thesis by simp
  qed
  obtain ok server w1 lg1 where bind:
    "bind_and_listen_log tx api kInvalidSocket kDefaultTransferTcpPort 16 w lg = (ok, server, w1, lg1)"
    by (metis prod_cases4)
  note b = bind_and_listen_told [OF bind]
  have go: "rel_option (\<lambda>(code, fs', w', lg') r. r = (code, fs', w') \<and> told_exit api code lg lg')
      (let (client, w2, lg2) = accept_client_log tx api server w1 lg0
       in if \<not> is_valid_socket client then Some (1 :: int, fs, snd (sock_close api server w2), lg2)
          else do {
            (code, fs, w2, lg) \<leftarrow> receiver_session_log tx api client dir fs w2 (log_info message lg2);
            Some (code, fs, snd (sock_close api server (snd (sock_close api client w2))), lg)
          })
      (let (client, w2) = accept_client api server w1
       in if \<not> is_valid_socket client then Some (1 :: int, fs, snd (sock_close api server w2))
          else do {
            (code, fs, w2) \<leftarrow> receiver_session api client dir fs w2;
            Some (code, fs, snd (sock_close api server (snd (sock_close api client w2))))
          })"
    if ok: ok and lg0: "errors lg0 = errors lg1" for lg0 dir message
  proof -
    have b': "bind_and_listen api kInvalidSocket kDefaultTransferTcpPort 16 w = (True, server, w1)"
        "errors lg0 = errors lg"
      using b ok lg0 by (simp_all add: told_def)
    obtain client w2 lg2 where acc: "accept_client_log tx api server w1 lg0 = (client, w2, lg2)"
      by (metis prod_cases3)
    with accept_client_told [OF acc] b'(2) show ?thesis
      by (auto intro!: rel_bind [OF receiver_session_told [OF brief fits [OF b'(1)]]])
        (auto simp: told_def intro: told_exit_from split: if_splits)
  qed
  have usage: "\<not> length args > 1" "\<not> (args \<noteq> [] \<and> is_help_arg (hd args))"
    using args by auto
  show ?thesis
    unfolding receiver_main_log_def receiver_main_def Let_def bind b [THEN conjunct1] prod.case
      if_not_P [OF usage(1)] if_not_P [OF usage(2)]
    using b [THEN conjunct2] by (cases ok) (simp_all add: go [unfolded Let_def])
qed


text \<open>
  A sender whose peer is gone before the manifest is sent: the process ends in the middle of the
  call, with no exit code, and no error has been reported.
\<close>

lemma send_all_log_killed:
  assumes "is_valid_socket s" and "bs \<noteq> []" and "length bs < 2 ^ 63"
    and kills: "\<And>bs. sys_killed api (snd (sys_send api s bs w))"
  shows "\<exists>w'. send_all_log tx api s bs w lg = Some (False, w', lg) \<and> sys_killed api w'"
proof -
  have "(0 :: u64) < of_nat (length bs)"
    using of_nat_u64_less [of 0 "length bs"] assms(2,3) by simp
  moreover obtain n w1 where send:
    "sys_send api s (take (unat (min (of_nat (length bs)) int_max)) bs) w = (n, w1)"
    by (metis surj_pair)
  moreover have "sys_killed api w1"
    using kills [of "take (unat (min (of_nat (length bs)) int_max)) bs"] send by simp
  ultimately have "send_loop_log tx api s bs 0 w lg = Some (False, w1, lg)"
    by (subst send_loop_log.simps) simp
  with \<open>sys_killed api w1\<close> show ?thesis
    using assms(1) by (simp add: send_all_log_def)
qed

lemma sigpipe_kills_silently:
  assumes "file_size path fs = Inr n" and "sha256_file path fs = Some (Inr h)"
    and "connect_to api kInvalidSocket \<lparr>ep_host = ip, ep_port = kDefaultTransferTcpPort\<rparr> w = (True, s, w1)"
    and "is_valid_socket s" and "length (basename_from_path path) \<le> 255"
    and "\<And>bs. sys_killed api (snd (sys_send api s bs w1))"
  shows "\<exists>w' lg'. sender_main_log tx api [ip, path] fs w lg = Some (killed_by_sigpipe, w', lg') \<and>
    errors lg' = errors lg"
proof -
  let ?m = "sender_manifest path n" and ?ep = "\<lparr>ep_host = ip, ep_port = kDefaultTransferTcpPort\<rparr>"
  have connected: "connect_to_log tx api kInvalidSocket ?ep w lg1 = (True, s, w1, lg1)" for lg1
    using connect_to_diag [where tx = tx and api = api and s = kInvalidSocket and endpoint = ?ep and
        w = w and lg = lg1] assms(3) by (auto split: prod.splits)
  have "length (fm_filename ?m) \<le> 255"
    using length_sanitize_filename [of "basename_from_path path"] assms(5)
    by (simp add: sender_manifest_def Let_def)
  then have bs: "serialize_file_manifest ?m \<noteq> []" "length (serialize_file_manifest ?m) < 2 ^ 63"
    using length_serialize_file_manifest [of ?m] length_manifest_frame [of ?m 0]
    by (auto simp: serialize_file_manifest_eq)
  have session: "\<exists>w'. sender_session_log tx api s path ?m h fs w1 lg1 = Some (killed_by_sigpipe, w', lg1)" for lg1
    using send_all_log_killed [OF assms(4) bs assms(6), of tx lg1] bs(1)
    by (auto simp: sender_session_log_def send_file_manifest_log_def Let_def exit_status_def
        unless_killed_def)
  have "\<exists>w' lg'. do { (code, w, lg) \<leftarrow> sender_session_log tx api s path ?m h fs w1 lg1;
        Some (code, snd (sock_close api s w), lg) } = Some (killed_by_sigpipe, w', lg') \<and>
      errors lg' = errors lg" if "errors lg1 = errors lg" for lg1
    using session [of lg1] that by auto
  then show ?thesis
    by (simp add: sender_main_log_def assms(1,2) connected Let_def)
qed

text \<open>
  C21: a transfer program that exits has not failed silently. With usable arguments and on every
  branch of the program it ends with exit code 0, with exit code 1, or because \<open>SIGPIPE\<close> kills it
  while it sends to a peer that is gone; only a system that raises the signal brings about the
  third. If it exits, the code is 0 exactly if no error line has been written since the start.
  A program that is killed says nothing about it (\<open>sigpipe_kills_silently\<close>). Apart from the
  lines it writes, the program does what it does without them. It is assumed that the clock
  readings of one run are at most two years apart and that the file, respectively the announced
  file, has at most \<open>2 ^ 36\<close> bytes; the numbers of the progress display are then defined.
\<close>

theorem programs_never_fail_silently:
  assumes "brief api" and "\<And>n. file_size path sfs = Inr n \<Longrightarrow> unat n \<le> 2 ^ 36"
    and "announces_at_most api (2 ^ 36) w"
    and "length args \<le> 1" and "args \<noteq> [] \<longrightarrow> \<not> is_help_arg (hd args)"
  shows "(case sender_main_log tx api [ip, path] sfs sw lg of
      None \<Rightarrow> sender_main api [ip, path] sfs sw = None
    | Some (code, w', lg') \<Rightarrow>
        sender_main api [ip, path] sfs sw = Some (code, w') \<and>
        code \<in> {0, 1, killed_by_sigpipe} \<and> errors lg \<le> errors lg' \<and>
        (code \<noteq> killed_by_sigpipe \<longrightarrow> (code = 0 \<longleftrightarrow> errors lg' = errors lg)) \<and>
        (code = killed_by_sigpipe \<longrightarrow> (\<exists>w. sys_killed api w))) \<and>
   (case receiver_main_log tx api args fs w lg of
      None \<Rightarrow> receiver_main api args fs w = None
    | Some (code, fs', w', lg') \<Rightarrow>
        receiver_main api args fs w = Some (code, fs', w') \<and>
        code \<in> {0, 1, killed_by_sigpipe} \<and> errors lg \<le> errors lg' \<and>
        (code \<noteq> killed_by_sigpipe \<longrightarrow> (code = 0 \<longleftrightarrow> errors lg' = errors lg)) \<and>
        (code = killed_by_sigpipe \<longrightarrow> (\<exists>w. sys_killed api w)))"
proof
  have "uint n \<le> 2 ^ 36" if "file_size path sfs = Inr n" for n
    using assms(2) [OF that] of_nat_mono [of "unat n" "2 ^ 36", where 'a = int] by simp
  from sender_main_told [where path = path and fs = sfs, OF assms(1) this, where tx = tx and ip = ip and w = sw and lg = lg]
  show "case sender_main_log tx api [ip, path] sfs sw lg of
      None \<Rightarrow> sender_main api [ip, path] sfs sw = None
    | Some (code, w', lg') \<Rightarrow>
        sender_main api [ip, path] sfs sw = Some (code, w') \<and>
        code \<in> {0, 1, killed_by_sigpipe} \<and> errors lg \<le> errors lg' \<and>
        (code \<noteq> killed_by_sigpipe \<longrightarrow> (code = 0 \<longleftrightarrow> errors lg' = errors lg)) \<and>
        (code = killed_by_sigpipe \<longrightarrow> (\<exists>w. sys_killed api w))"
    by (auto simp: told_exit_def told_def killed_by_sigpipe_def option_rel_Some1
        split: option.splits if_splits)
  show "case receiver_main_log tx api args fs w lg of
      None \<Rightarrow> receiver_main api args fs w = None
    | Some (code, fs', w', lg') \<Rightarrow>
        receiver_main api args fs w = Some (code, fs', w') \<and>
        code \<in> {0, 1, killed_by_sigpipe} \<and> errors lg \<le> errors lg' \<and>
        (code \<noteq> killed_by_sigpipe \<longrightarrow> (code = 0 \<longleftrightarrow> errors lg' = errors lg)) \<and>
        (code = killed_by_sigpipe \<longrightarrow> (\<exists>w. sys_killed api w))"
    using receiver_main_told [OF assms(1,3,4,5), where tx = tx and fs = fs and lg = lg]
    by (auto simp: told_exit_def told_def killed_by_sigpipe_def option_rel_Some1
        split: option.splits if_splits)
qed


text \<open>
  The demonstration transfer without a network peer: the receiver gets the manifest and the
  chunk but no digest. It exits with 1 and has reported an error.
\<close>

theorem programs_never_fail_silently_witness:
  "\<exists>fs' w' lg'. receiver_main_log \<lparr>strerror = \<lambda>_. ''error'', gai_strerror = \<lambda>_. ''error''\<rparr>
      pipe_api [''out''] demo_fs (demo_cut, []) [] = Some (1, fs', w', lg') \<and> 0 < errors lg'"
proof -
  have brief: "brief pipe_api"
    by (simp add: brief_def pipe_api_def)
  have size: "file_size demo_path demo_source = Inr n \<Longrightarrow> unat n \<le> 2 ^ 36" for n
    using demo_file by (auto simp: file_size_def istream_ok_def ifstream_open_def can_open_def
        ifstream_content_def Let_def split: if_splits)
  have "m = demo_manifest"
    if "receive_file_manifest pipe_api 3 FileManifest_init (demo_cut, []) = Some (True, m, w3)" for m w3
    using received_manifest(1) [OF pipe_safe demo_transfer(1), of _ "(demo_cut, [])" m w3 "[]"] that
    by (simp add: demo_cut_def)
  then have ann: "announces_at_most pipe_api (2 ^ 36) (demo_cut, [])"
    using demo_transfer(2) by (fastforce simp: announces_at_most_def pipe_connect fsz_def)
  obtain fs' w' where "receiver_session pipe_api 3 ''out'' demo_fs (demo_cut, []) = Some (1, fs', w')"
    using demo_cut_run by blast
  then have "receiver_main pipe_api [''out''] demo_fs (demo_cut, []) = Some (1, fs', w')"
    by (subst receiver_main_run [OF pipe_connect(2,3)])
      (simp_all add: is_valid_socket_def kInvalidSocket_def is_help_arg_def sock_close_def close_socket_def)
  moreover have "\<not> is_help_arg ''out''"
    by (simp add: is_help_arg_def)
  ultimately show ?thesis
    using programs_never_fail_silently [where path = demo_path and sfs = demo_source, OF brief size ann,
        where args = "[''out'']" and tx = "\<lparr>strerror = \<lambda>_. ''error'', gai_strerror = \<lambda>_. ''error''\<rparr>"
          and fs = demo_fs and lg = "[]" and ip = "''peer''" and sw = "([], [])", THEN conjunct2]
    by (cases "receiver_main_log \<lparr>strerror = \<lambda>_. ''error'', gai_strerror = \<lambda>_. ''error''\<rparr>
        pipe_api [''out''] demo_fs (demo_cut, []) []") (auto simp: errors_def killed_by_sigpipe_def)
qed

end
