(* ===== verification/Discovery_Console.thy ===== *)
theory Discovery_Console
  imports Diagnostics Listener Broadcaster
begin

text \<open>
  What the two discovery programs report to the logger. The theories \<open>Listener\<close> and
  \<open>Broadcaster\<close> leave these calls out; here the programs are written with them.
\<close>

subsection \<open>The listener\<close>

definition listener_usage :: "log \<Rightarrow> log" where
  "listener_usage lg =
     (let lg = log_info ''Usage: packetbridge_listener'' lg;
          lg = log_info ''Example: packetbridge_listener'' lg
      in log_info ''Listens for UDP discovery announcements and prints live peers.'' lg)"

definition stale_peer_message :: "Peer \<Rightarrow> string \<Rightarrow> string" where
  "stale_peer_message peer key = ''Peer stale: '' @ pe_name peer @ '' at '' @ key"

definition new_peer_message :: "Peer \<Rightarrow> string \<Rightarrow> string" where
  "new_peer_message parsed key = ''New peer discovered: '' @ pe_name parsed @ '' at '' @ key"

fun remove_stale_peers_log :: "peer_map \<Rightarrow> int \<Rightarrow> log \<Rightarrow> peer_map \<times> log" where
  "remove_stale_peers_log [] now lg = ([], lg)"
| "remove_stale_peers_log ((key, peer) # peers) now lg =
     (if is_stale now peer
      then remove_stale_peers_log peers now
             (log_warn (stale_peer_message peer key) lg)
      else let (peers, lg) = remove_stale_peers_log peers now lg in ((key, peer) # peers, lg))"

definition finish_step_log ::
    "'w host \<Rightarrow> int \<Rightarrow> listener \<Rightarrow> 'w \<Rightarrow> log \<Rightarrow> listener \<times> 'w \<times> log" where
  "finish_step_log h now st w lg =
     (let (peers, lg) = remove_stale_peers_log (li_peers st) now lg;
          st = st\<lparr>li_peers := peers\<rparr>
      in if now \<ge> li_next_table_print st
         then (st\<lparr>li_next_table_print := now + seconds 3\<rparr>, h_print h (peer_table peers now) w, lg)
         else (st, w, lg))"

definition listener_step_log ::
    "error_texts \<Rightarrow> 'w host \<Rightarrow> socket_t \<Rightarrow> string \<Rightarrow> listener \<Rightarrow> 'w \<Rightarrow> log \<Rightarrow> listener \<times> 'w \<times> log" where
  "listener_step_log tx h s local_hostname st w lg =
     (let (receive_result, buffer, w, lg) =
            udp_receive_from_log tx (h_api h) s (li_buffer st) w lg;
          st = st\<lparr>li_buffer := buffer\<rparr>;
          (now, w) = h_now h w
      in if ur_ok receive_result then
           let message = string_of_bytes (take (ur_bytes_received receive_result) buffer);
               (parse_time, w') = h_now h w
           in case parse_discovery_message message (ep_host (ur_remote receive_result)) parse_time of
                None \<Rightarrow> finish_step_log h now st w lg
              | Some parsed \<Rightarrow>
                  if own_announcement local_hostname parsed then (st, w', lg)
                  else
                    let key = peer_key parsed;
                        is_new_peer = (map_of (li_peers st) key = None);
                        st = st\<lparr>li_peers := map_assign key parsed (li_peers st)\<rparr>;
                        lg = (if is_new_peer
                              then log_info (new_peer_message parsed key) lg
                              else lg)
                    in finish_step_log h now st w' lg
         else finish_step_log h now st w lg)"

partial_function (option) listener_loop_log ::
    "error_texts \<Rightarrow> 'w host \<Rightarrow> socket_t \<Rightarrow> string \<Rightarrow> listener \<Rightarrow> 'w \<Rightarrow> log \<Rightarrow>
     (listener \<times> 'w \<times> log) option" where
  "listener_loop_log tx h s local_hostname st w lg =
     (if h_running h w
      then let (st, w, lg) = listener_step_log tx h s local_hostname st w lg
           in listener_loop_log tx h s local_hostname st w lg
      else Some (st, w, lg))"

definition listener_main_log ::
    "error_texts \<Rightarrow> 'w host \<Rightarrow> string list \<Rightarrow> 'w \<Rightarrow> log \<Rightarrow> (int \<times> 'w \<times> log) option" where
  "listener_main_log tx h args w lg =
     (if args \<noteq> []
      then Some (if length args = 1 \<and> is_help_arg (hd args) then 0 else 1, w, listener_usage lg)
      else
        let (local_hostname, w) = hostname_or_empty h w;
            (bound, s, w, lg) =
              udp_bind_to_log tx (h_api h) kInvalidSocket kDefaultDiscoveryUdpPort w lg
        in if \<not> bound then Some (1, snd (sock_close (h_api h) s w), lg)
           else
             let (timed, w, lg) = udp_set_receive_timeout_log tx (h_api h) s 500 w lg
             in if \<not> timed then Some (1, snd (sock_close (h_api h) s w), lg)
                else
                  let lg = log_info ''PacketBridge listener running'' lg;
                      lg = log_info (''Listening for discovery packets on UDP port '' @
                             to_string kDefaultDiscoveryUdpPort) lg;
                      lg = log_info ''Peer entries expire after 10 seconds without an announcement'' lg;
                      (now, w) = h_now h w
                  in do {
                    (st, w, lg) \<leftarrow> listener_loop_log tx h s local_hostname (listener_start now) w lg;
                    let lg = log_info ''PacketBridge listener stopped'' lg;
                    Some (0, snd (sock_close (h_api h) s w), lg)
                  })"

subsection \<open>The broadcaster\<close>

definition broadcaster_usage :: "log \<Rightarrow> log" where
  "broadcaster_usage lg =
     (let lg = log_info ''Usage: packetbridge_broadcaster [peer_name]'' lg;
          lg = log_info ''Example: packetbridge_broadcaster laptop-one'' lg
      in log_info ''If peer_name is omitted, the local hostname is used when available.'' lg)"

partial_function (option) broadcaster_loop_log ::
    "error_texts \<Rightarrow> 'w host \<Rightarrow> socket_t \<Rightarrow> bytes \<Rightarrow> Endpoint \<Rightarrow> 'w \<Rightarrow> log \<Rightarrow> ('w \<times> log) option" where
  "broadcaster_loop_log tx h s message endpoint w lg =
     (if h_running h w
      then do {
        (ok, w, lg) \<leftarrow> udp_send_to_log tx (h_api h) s message endpoint w lg;
        broadcaster_loop_log tx h s message endpoint (h_sleep h (seconds 2) w)
          (if ok then log_info (''Discovery announcement sent to '' @ endpoint_to_string endpoint) lg
           else lg)
      }
      else Some (w, lg))"

definition broadcaster_main_log ::
    "error_texts \<Rightarrow> 'w host \<Rightarrow> string list \<Rightarrow> 'w \<Rightarrow> log \<Rightarrow> (int \<times> 'w \<times> log) option" where
  "broadcaster_main_log tx h args w lg =
     (if length args > 1 \<or> length args = 1 \<and> is_help_arg (hd args)
      then Some (if length args > 1 then 1 else 0, w, broadcaster_usage lg)
      else
        let (requested, w) = (if args \<noteq> [] then (hd args, w) else hostname_or_default h w);
            peer_name = safe_peer_name requested;
            message = build_discovery_message peer_name kDefaultTransferTcpPort;
            (opened, s, w, lg) = udp_open_log tx (h_api h) kInvalidSocket w lg
        in if \<not> opened then Some (1, snd (sock_close (h_api h) s w), lg)
           else
             let (enabled, w, lg) = udp_enable_broadcast_log tx (h_api h) s w lg
             in if \<not> enabled then Some (1, snd (sock_close (h_api h) s w), lg)
                else
                  let lg = log_info ''PacketBridge broadcaster running'' lg;
                      lg = log_info (''Peer name: '' @ peer_name) lg;
                      lg = log_info (''Discovery UDP port: '' @ to_string kDefaultDiscoveryUdpPort) lg;
                      lg = log_info (''Transfer TCP port: '' @ to_string kDefaultTransferTcpPort) lg;
                      lg = log_info ''Broadcast interval: 2 seconds'' lg
                  in do {
                    (w, lg) \<leftarrow>
                      broadcaster_loop_log tx h s (bytes_of_string message) broadcast_endpoint w lg;
                    let lg = log_info ''PacketBridge broadcaster stopped'' lg;
                    Some (0, snd (sock_close (h_api h) s w), lg)
                  })"

end
