(* ===== verification/Discovery_Reports.thy ===== *)
theory Discovery_Reports
  imports Discovery_Console Reports Descriptors
begin

text \<open>
  What the reports of the two discovery programs say: they change nothing, they account for every
  row of the listener's table, and a program that cannot start says so.
\<close>

subsection \<open>The reports change nothing\<close>

lemma remove_stale_peers_erase: "fst (remove_stale_peers_log t now lg) = remove_stale_peers t now"
  by (induction t now lg rule: remove_stale_peers_log.induct) (simp_all add: case_prod_unfold Let_def)

lemma finish_step_erase:
  "finish_step_log h now st w lg = (st', w', lg') \<Longrightarrow> finish_step h now st w = (st', w')"
  using remove_stale_peers_erase [of "li_peers st" now lg]
  by (auto simp: finish_step_log_def finish_step_def Let_def split: prod.splits if_splits)

lemma listener_step_erase:
  assumes "listener_step_log tx h s name st w lg = (st', w', lg')"
  shows "listener_step h s name st w = (st', w')"
proof -
  obtain r b w1 lg1 where rc: "udp_receive_from_log tx (h_api h) s (li_buffer st) w lg = (r, b, w1, lg1)"
    by (metis prod_cases4)
  then have plain: "udp_receive_from (h_api h) s (li_buffer st) w = (r, b, w1)"
    using udp_receive_from_diag [where tx = tx and api = "h_api h" and s = s and buffer = "li_buffer st"
        and w = w and lg = lg] by simp
  show ?thesis
    using assms unfolding listener_step_log_def listener_step_def rc plain
    by (auto simp: Let_def split: prod.splits option.splits if_splits dest: finish_step_erase)
qed

lemma listener_loop_log_erase:
  assumes "listener_loop_log tx h s name st w lg = Some r"
  shows "listener_loop h s name st w = Some (fst r, fst (snd r))"
  using assms
proof (rule listener_loop_log.raw_induct [rotated])
  fix f and tx :: error_texts and h s name st w lg r
  assume IH: "\<And>tx h s name st w lg r. f tx h s name st w lg = Some r \<Longrightarrow>
      listener_loop h s name st w = Some (fst r, fst (snd r))"
    and run: "(if h_running h w
         then let (st, w, lg) = listener_step_log tx h s name st w lg in f tx h s name st w lg
         else Some (st, w, lg)) = Some r"
  show "listener_loop h s name st w = Some (fst r, fst (snd r))"
    using run listener_step_erase [of tx h s name st w lg] IH
    by (subst listener_loop.simps) (auto split: prod.splits if_splits)
qed

lemma listener_loop_reports:
  assumes "listener_loop h s name st w = Some r"
  shows "\<exists>lg'. listener_loop_log tx h s name st w lg = Some (fst r, snd r, lg')"
  using assms
proof (rule listener_loop.raw_induct [rotated, where P = "\<lambda>h s name st w r.
      \<forall>lg. \<exists>lg'. listener_loop_log tx h s name st w lg = Some (fst r, snd r, lg')", THEN spec])
  fix f h s name st w r
  assume IH: "\<And>h s name st w r. f h s name st w = Some r \<Longrightarrow>
      \<forall>lg. \<exists>lg'. listener_loop_log tx h s name st w lg = Some (fst r, snd r, lg')"
    and run: "(if h_running h w then let (st, w) = listener_step h s name st w in f h s name st w
         else Some (st, w)) = Some r"
  show "\<forall>lg. \<exists>lg'. listener_loop_log tx h s name st w lg = Some (fst r, snd r, lg')"
  proof
    fix lg
    obtain st1 w1 lg1 where step: "listener_step_log tx h s name st w lg = (st1, w1, lg1)"
      by (metis prod_cases3)
    show "\<exists>lg'. listener_loop_log tx h s name st w lg = Some (fst r, snd r, lg')"
      using run IH [of h s name st1 w1 r] listener_step_erase [OF step]
      by (subst listener_loop_log.simps) (auto simp: step split: if_splits)
  qed
qed

subsection \<open>The reports account for the table\<close>

lemma remove_stale_lines:
  "remove_stale_peers_log t now lg = (t', lg') \<Longrightarrow>
     lines ''INFO'' lg' = lines ''INFO'' lg \<and> set lg \<subseteq> set lg' \<and>
     length t' + lines ''WARN'' lg' = length t + lines ''WARN'' lg"
  by (induction t now lg arbitrary: t' lg' rule: remove_stale_peers_log.induct)
    (fastforce split: prod.splits if_splits)+

lemma length_map_assign:
  "sorted_keys t \<Longrightarrow> length (map_assign key p t) = (if map_of t key = None then Suc (length t) else length t)"
proof (induction t)
  case (Cons e t)
  then show ?case
    using map_of_below [of t "fst e"] by (cases e) (auto simp: map_of_eq_None_iff)
qed simp

definition accounted :: "log \<Rightarrow> listener \<Rightarrow> log \<Rightarrow> bool" where
  "accounted lg st lg' \<longleftrightarrow>
     lines ''INFO'' lg' + lines ''WARN'' lg =
       lines ''INFO'' lg + lines ''WARN'' lg' + length (li_peers st) \<and>
     (\<forall>key \<in> fst ` set (li_peers st). \<exists>p. info (new_peer_message p key) \<in> set lg')"

lemma accounted_finish:
  assumes "finish_step_log h now st w lg = (st', w', lg')" and "accounted lg0 st lg"
  shows "accounted lg0 st' lg'"
proof -
  obtain t lg1 where rm: "remove_stale_peers_log (li_peers st) now lg = (t, lg1)"
    by (metis surj_pair)
  have t: "fst ` set t \<subseteq> fst ` set (li_peers st)"
    using remove_stale_peers_erase [of "li_peers st" now lg] rm by (auto simp: set_remove_stale)
  have eq: "li_peers st' = t" "lg' = lg1"
    using assms(1) rm by (auto simp: finish_step_log_def Let_def split: if_splits)
  have rows: "\<exists>p. info (new_peer_message p key) \<in> set lg" if "key \<in> fst ` set t" for key
    using assms(2) subsetD [OF t that] unfolding accounted_def by blast
  show ?thesis
    unfolding accounted_def eq
  proof
    show "lines ''INFO'' lg1 + lines ''WARN'' lg0 = lines ''INFO'' lg0 + lines ''WARN'' lg1 + length t"
      using remove_stale_lines [OF rm] assms(2) by (simp add: accounted_def)
    show "\<forall>key \<in> fst ` set t. \<exists>p. info (new_peer_message p key) \<in> set lg1"
      using remove_stale_lines [OF rm] rows by (meson subsetD)
  qed
qed

lemma accounted_receive:
  assumes "udp_receive_from_log tx api s buffer w lg = (r, b, w', lg')" and "accounted lg0 st lg"
  shows "accounted lg0 (st\<lparr>li_buffer := b\<rparr>) lg'"
proof -
  have "reports (ur_ok r \<or> ur_timed_out r) lg lg'"
    using udp_receive_from_diag [where tx = tx and api = api and s = s and buffer = buffer
        and w = w and lg = lg] assms(1) by simp
  then have "lg' = lg \<or> (\<exists>message. lg' = log_error message lg)"
    by (auto simp: reports_def log_error_def split: if_splits)
  then show ?thesis
    using assms(2) by (fastforce simp: accounted_def)
qed

lemma accounted_assign:
  assumes "accounted lg0 st lg" and "sorted_keys (li_peers st)"
  shows "accounted lg0 (st\<lparr>li_peers := map_assign key p (li_peers st)\<rparr>)
      (if map_of (li_peers st) key = None then log_info (new_peer_message p key) lg else lg)"
  using assms length_map_assign [OF assms(2), of key p]
  by (auto simp: accounted_def keys_map_assign map_of_eq_None_iff)

lemma accounted_step:
  assumes "accounted lg0 st lg" and "sorted_keys (li_peers st)"
    and "listener_step_log tx h s name st w lg = (st', w', lg')"
  shows "accounted lg0 st' lg'"
proof -
  obtain r b w1 lg1 where rc: "udp_receive_from_log tx (h_api h) s (li_buffer st) w lg = (r, b, w1, lg1)"
    by (metis prod_cases4)
  note a = accounted_receive [OF rc assms(1)]
  note new = accounted_assign [OF a, simplified, OF assms(2)]
  obtain now w2 t w3 where clock: "h_now h w1 = (now, w2)" "h_now h w2 = (t, w3)"
    by (metis surj_pair)
  let ?heard = "parse_discovery_message (string_of_bytes (take (ur_bytes_received r) b))
    (ep_host (ur_remote r)) t"
  note run = assms(3) [unfolded listener_step_log_def rc Let_def prod.case clock]
  show ?thesis
  proof (cases "ur_ok r \<and> ?heard \<noteq> None")
    case True
    then obtain p where p: "?heard = Some p" by auto
    with True run a accounted_finish [OF _ new [of "peer_key p" p]] show ?thesis
      by (cases "own_announcement name p") auto
  next
    case False
    with run accounted_finish [OF _ a] show ?thesis
      by (cases "ur_ok r"; cases ?heard) simp_all
  qed
qed


text \<open>\<open>n\<close> rounds of the main loop, with and without reports.\<close>

fun listener_rounds ::
    "'w host \<Rightarrow> socket_t \<Rightarrow> string \<Rightarrow> nat \<Rightarrow> listener \<Rightarrow> 'w \<Rightarrow> listener \<times> 'w" where
  "listener_rounds h s name 0 st w = (st, w)"
| "listener_rounds h s name (Suc n) st w =
     (let (st, w) = listener_step h s name st w in listener_rounds h s name n st w)"

fun listener_rounds_log ::
    "error_texts \<Rightarrow> 'w host \<Rightarrow> socket_t \<Rightarrow> string \<Rightarrow> nat \<Rightarrow> listener \<Rightarrow> 'w \<Rightarrow> log \<Rightarrow>
     listener \<times> 'w \<times> log" where
  "listener_rounds_log tx h s name 0 st w lg = (st, w, lg)"
| "listener_rounds_log tx h s name (Suc n) st w lg =
     (let (st, w, lg) = listener_step_log tx h s name st w lg
      in listener_rounds_log tx h s name n st w lg)"

lemma listener_rounds_erase:
  "listener_rounds_log tx h s name n st w lg = (st', w', lg') \<Longrightarrow>
     listener_rounds h s name n st w = (st', w')"
  by (induction n arbitrary: st w lg) (auto split: prod.splits dest!: listener_step_erase)

lemma sorted_step:
  assumes "sorted_keys (li_peers st)" and "listener_step h s name st w = (st', w')"
  shows "sorted_keys (li_peers st')"
proof -
  have fin: "sorted_keys (li_peers st1) \<Longrightarrow> finish_step h now st1 w1 = (st2, w2) \<Longrightarrow> sorted_keys (li_peers st2)"
    for now st1 w1 st2 w2
    using finish_step_peers(1) [of h now st1 w1] by (simp add: sorted_remove_stale)
  show ?thesis
    using assms by (auto simp: listener_step_def Let_def sorted_map_assign
        split: prod.splits if_splits option.splits elim!: fin [rotated])
qed

lemma accounted_rounds:
  "accounted lg0 st lg \<Longrightarrow> sorted_keys (li_peers st) \<Longrightarrow>
   listener_rounds_log tx h s name n st w lg = (st', w', lg') \<Longrightarrow> accounted lg0 st' lg'"
proof (induction n arbitrary: st w lg)
  case (Suc n)
  obtain st1 w1 lg1 where step: "listener_step_log tx h s name st w lg = (st1, w1, lg1)"
    by (metis prod_cases3)
  show ?case
    using Suc.IH [OF accounted_step [OF Suc.prems(1,2) step] sorted_step [OF Suc.prems(2) listener_step_erase [OF step]]]
      Suc.prems(3) by (simp add: step)
qed simp

text \<open>A loop that stops is some number of rounds.\<close>

lemma listener_loop_log_rounds:
  assumes "listener_loop_log tx h s name st w lg = Some r"
  shows "\<exists>n. listener_rounds_log tx h s name n st w lg = r"
  using assms
proof (rule listener_loop_log.raw_induct [rotated])
  fix f and tx :: error_texts and h s name st w lg r
  assume IH: "\<And>tx h s name st w lg r. f tx h s name st w lg = Some r \<Longrightarrow>
      \<exists>n. listener_rounds_log tx h s name n st w lg = r"
    and run: "(if h_running h w
         then let (st, w, lg) = listener_step_log tx h s name st w lg in f tx h s name st w lg
         else Some (st, w, lg)) = Some r"
  obtain st1 w1 lg1 where step: "listener_step_log tx h s name st w lg = (st1, w1, lg1)"
    by (metis prod_cases3)
  show "\<exists>n. listener_rounds_log tx h s name n st w lg = r"
  proof (cases "h_running h w")
    case True
    then obtain n where "listener_rounds_log tx h s name n st1 w1 lg1 = r"
      using run IH [of tx h s name st1 w1 lg1 r] by (auto simp: step)
    then have "listener_rounds_log tx h s name (Suc n) st w lg = r"
      by (simp add: step)
    then show ?thesis ..
  next
    case False
    then have "listener_rounds_log tx h s name 0 st w lg = r"
      using run by simp
    then show ?thesis ..
  qed
qed

subsection \<open>The broadcaster\<close>

lemma broadcaster_loop_log_erase:
  assumes "broadcaster_loop_log tx h s message endpoint w lg = Some r"
  shows "broadcaster_loop h s message endpoint w = Some (fst r)"
  using assms
proof (rule broadcaster_loop_log.raw_induct [rotated])
  fix f and tx :: error_texts and h s message endpoint w lg r
  assume IH: "\<And>tx h s message endpoint w lg r. f tx h s message endpoint w lg = Some r \<Longrightarrow>
      broadcaster_loop h s message endpoint w = Some (fst r)"
    and run: "(if h_running h w
         then do {
           (ok, w, lg) \<leftarrow> udp_send_to_log tx (h_api h) s message endpoint w lg;
           f tx h s message endpoint (h_sleep h (seconds 2) w)
             (if ok then log_info (''Discovery announcement sent to '' @ endpoint_to_string endpoint) lg
              else lg)
         }
         else Some (w, lg)) = Some r"
  show "broadcaster_loop h s message endpoint w = Some (fst r)"
  proof (cases "udp_send_to_log tx (h_api h) s message endpoint w lg")
    case None
    then show ?thesis
      using run by (subst broadcaster_loop.simps) (auto split: if_splits)
  next
    case (Some q)
    then obtain ok w1 lg1 where q: "udp_send_to_log tx (h_api h) s message endpoint w lg = Some (ok, w1, lg1)"
      by (cases q) simp
    have "udp_send_to (h_api h) s message endpoint w = Some (ok, w1)"
      using udp_send_to_diag [where tx = tx and api = "h_api h" and s = s and data = message and
          endpoint = endpoint and w = w and lg = lg] q by simp
    then show ?thesis
      using run IH q by (subst broadcaster_loop.simps) (auto split: if_splits)
  qed
qed

lemma broadcaster_loop_reports:
  assumes "broadcaster_loop h s message endpoint w = Some w'"
  shows "\<exists>lg'. broadcaster_loop_log tx h s message endpoint w lg = Some (w', lg')"
  using assms
proof (rule broadcaster_loop.raw_induct [rotated, where P = "\<lambda>h s message endpoint w w'.
      \<forall>lg. \<exists>lg'. broadcaster_loop_log tx h s message endpoint w lg = Some (w', lg')", THEN spec])
  fix f h s message endpoint w w'
  assume IH: "\<And>h s message endpoint w w'. f h s message endpoint w = Some w' \<Longrightarrow>
      \<forall>lg. \<exists>lg'. broadcaster_loop_log tx h s message endpoint w lg = Some (w', lg')"
    and run: "(if h_running h w
         then do { (ok, w) \<leftarrow> udp_send_to (h_api h) s message endpoint w;
                   f h s message endpoint (h_sleep h (seconds 2) w) }
         else Some w) = Some w'"
  show "\<forall>lg. \<exists>lg'. broadcaster_loop_log tx h s message endpoint w lg = Some (w', lg')"
  proof
    fix lg
    show "\<exists>lg'. broadcaster_loop_log tx h s message endpoint w lg = Some (w', lg')"
      using run IH udp_send_to_diag [where tx = tx and api = "h_api h" and s = s and data = message and
          endpoint = endpoint and w = w and lg = lg]
      by (subst broadcaster_loop_log.simps) (auto split: if_splits option.splits bind_splits)
  qed
qed


subsection \<open>The two programs\<close>

text \<open>
  Each program does what it does without its reports; if it cannot start, it exits with 1 and has
  reported one error and nothing else. Once it runs, errors are reported but do not change the exit code.
\<close>

lemma listener_loop_rel:
  "rel_option (\<lambda>(st', w', lg') r. r = (st', w'))
     (listener_loop_log tx h s name st w lg) (listener_loop h s name st w)"
  by (rule rel_option_weaken [OF rel_erase [where erase = "\<lambda>r. (fst r, fst (snd r))"]])
    (auto dest: listener_loop_log_erase listener_loop_reports [where tx = tx and lg = lg])

lemma broadcaster_loop_rel:
  "rel_option (\<lambda>(w', lg') r. r = w')
     (broadcaster_loop_log tx h s message endpoint w lg) (broadcaster_loop h s message endpoint w)"
  by (rule rel_option_weaken [OF rel_erase [where erase = fst]])
    (auto dest: broadcaster_loop_log_erase broadcaster_loop_reports [where tx = tx and lg = lg])

lemma listener_main_reports:
  "rel_option (\<lambda>(code, w', lg') r. r = (code, w') \<and> (code = 0 \<or> code = 1 \<and> reports False lg lg'))
     (listener_main_log tx h [] w lg) (listener_main h [] w)"
proof -
  obtain name w1 where name: "hostname_or_empty h w = (name, w1)"
    by (metis surj_pair)
  obtain b s w2 lg1 where bind:
    "udp_bind_to_log tx (h_api h) kInvalidSocket kDefaultDiscoveryUdpPort w1 lg = (b, s, w2, lg1)"
    by (metis prod_cases4)
  then have b: "udp_bind_to (h_api h) kInvalidSocket kDefaultDiscoveryUdpPort w1 = (b, s, w2)" "reports b lg lg1"
    using udp_bind_to_diag [where tx = tx and api = "h_api h" and s = kInvalidSocket and
        port = kDefaultDiscoveryUdpPort and w = w1 and lg = lg] by simp_all
  obtain t w3 lg2 where time: "udp_set_receive_timeout_log tx (h_api h) s 500 w2 lg1 = (t, w3, lg2)"
    by (metis prod_cases3)
  then have t: "udp_set_receive_timeout (h_api h) s 500 w2 = (t, w3)" "reports t lg1 lg2"
    using udp_options_diag(2) [where tx = tx and api = "h_api h" and s = s and timeout = 500 and
        w = w2 and lg = lg1] by simp_all
  obtain now w4 where now: "h_now h w3 = (now, w4)"
    by (metis surj_pair)
  show ?thesis
    unfolding listener_main_log_def listener_main_def Let_def name bind b(1) time t(1) now prod.case
    using b(2) t(2)
    by (cases b; cases t) (auto intro!: rel_bind [OF listener_loop_rel])
qed

lemma broadcaster_main_reports:
  assumes "length args \<le> 1" and "args \<noteq> [] \<longrightarrow> \<not> is_help_arg (hd args)"
  shows "rel_option (\<lambda>(code, w', lg') r. r = (code, w') \<and> (code = 0 \<or> code = 1 \<and> reports False lg lg'))
     (broadcaster_main_log tx h args w lg) (broadcaster_main h args w)"
proof -
  have usage: "\<not> (length args > 1 \<or> length args = 1 \<and> is_help_arg (hd args))"
    using assms by auto
  obtain requested w1 where name: "(if args \<noteq> [] then (hd args, w) else hostname_or_default h w) = (requested, w1)"
    by (metis surj_pair)
  obtain b s w2 lg1 where open': "udp_open_log tx (h_api h) kInvalidSocket w1 lg = (b, s, w2, lg1)"
    by (metis prod_cases4)
  then have b: "udp_open (h_api h) kInvalidSocket w1 = (b, s, w2)" "reports b lg lg1"
    using udp_open_diag [where tx = tx and api = "h_api h" and s = kInvalidSocket and w = w1 and lg = lg]
    by simp_all
  obtain t w3 lg2 where enable: "udp_enable_broadcast_log tx (h_api h) s w2 lg1 = (t, w3, lg2)"
    by (metis prod_cases3)
  then have t: "udp_enable_broadcast (h_api h) s w2 = (t, w3)" "reports t lg1 lg2"
    using udp_options_diag(1) [where tx = tx and api = "h_api h" and s = s and w = w2 and lg = lg1]
    by simp_all
  show ?thesis
    unfolding broadcaster_main_log_def broadcaster_main_def Let_def name open' b(1) enable t(1) prod.case
      if_not_P [OF usage]
    using b(2) t(2)
    by (cases b; cases t) (auto intro!: rel_bind [OF broadcaster_loop_rel])
qed

subsection \<open>Properties\<close>

text \<open>
  C12: the listener's reports account for its table. After any number of rounds of the main loop,
  on any network and whatever arrives, as many peers have been reported as new as have been
  reported as stale or are still rows of the table, and each row has been reported as new under
  its key. The reports change nothing else.
\<close>

theorem listener_reports_account_for_table:
  "case listener_rounds_log tx h s name n (listener_start now) w [] of (st, w', lg) \<Rightarrow>
     listener_rounds h s name n (listener_start now) w = (st, w') \<and>
     lines ''INFO'' lg = lines ''WARN'' lg + length (li_peers st) \<and>
     fst ` set (li_peers st) \<subseteq> {key. \<exists>p. info (new_peer_message p key) \<in> set lg}"
proof -
  obtain st w' lg where run: "listener_rounds_log tx h s name n (listener_start now) w [] = (st, w', lg)"
    by (metis prod_cases3)
  have "accounted [] (listener_start now) []" "sorted_keys (li_peers (listener_start now))"
    by (simp_all add: accounted_def listener_start_def lines_def)
  from accounted_rounds [OF this run] have "accounted [] st lg" .
  then show ?thesis
    using listener_rounds_erase [OF run] by (auto simp: run accounted_def lines_def)
qed

text \<open>
  C39: a discovery program that cannot start says so. With usable arguments the listener and the
  broadcaster exit with 0, or with 1 after exactly one report, an error; they do what they do
  without their reports, and run for ever exactly if they do so without them.
\<close>

theorem discovery_programs_report_failed_start:
  assumes "length args \<le> 1" and "args \<noteq> [] \<longrightarrow> \<not> is_help_arg (hd args)"
  shows "(case listener_main_log tx h [] w lg of
      None \<Rightarrow> listener_main h [] w = None
    | Some (code, w', lg') \<Rightarrow> listener_main h [] w = Some (code, w') \<and>
        (code = 0 \<or> code = 1 \<and> (\<exists>message. lg' = lg @ [error message]))) \<and>
   (case broadcaster_main_log tx h args w lg of
      None \<Rightarrow> broadcaster_main h args w = None
    | Some (code, w', lg') \<Rightarrow> broadcaster_main h args w = Some (code, w') \<and>
        (code = 0 \<or> code = 1 \<and> (\<exists>message. lg' = lg @ [error message])))"
  using listener_main_reports [where tx = tx and h = h and w = w and lg = lg]
    broadcaster_main_reports [OF assms, where tx = tx and h = h and w = w and lg = lg]
  by (auto simp: reports_def option_rel_Some1 split: option.splits)

text \<open>On a host where no further socket can be opened, both programs end this way.\<close>

theorem discovery_programs_report_failed_start_witness:
  "\<exists>w1 w2 m1 m2.
     listener_main_log \<lparr>strerror = \<lambda>_. ''error'', gai_strerror = \<lambda>_. ''error''\<rparr> fd_host [] {3} [] =
       Some (1, w1, [error m1]) \<and>
     broadcaster_main_log \<lparr>strerror = \<lambda>_. ''error'', gai_strerror = \<lambda>_. ''error''\<rparr> fd_host [''me''] {3} [] =
       Some (1, w2, [error m2])"
proof -
  have run: "listener_main fd_host [] {3} = Some (1, {3})" "broadcaster_main fd_host [''me''] {3} = Some (1, {3})"
    by (simp_all add: listener_main_def broadcaster_main_def hostname_or_empty_def udp_bind_to_def
        udp_open_def sock_close_def fd_host_def fd_api_def is_valid_socket_def kInvalidSocket_def
        is_help_arg_def)
  have no_help: "\<not> is_help_arg ''me''"
    by (simp add: is_help_arg_def)
  show ?thesis
    using discovery_programs_report_failed_start [where args = "[''me'']" and h = fd_host and w = "{3}" and lg = "[]"
        and tx = "\<lparr>strerror = \<lambda>_. ''error'', gai_strerror = \<lambda>_. ''error''\<rparr>"] run no_help
    by (auto split: option.splits)
qed

end
