(* ===== verification/Platform.thy ===== *)
theory Platform
  imports Descriptors Diagnostics
begin

text \<open>
  \<open>src/net/socket_runtime.cpp\<close> and the places where \<open>socket_utils.cpp\<close> and \<open>udp_socket.cpp\<close>
  distinguish Windows from POSIX by conditional compilation; the other theories model the POSIX
  branch. The two calls that start and stop the socket library of Windows are parameters. The
  functions \<open>main\<close> are those of the other theories on both platforms: on Windows only the texts of
  errors, the flag \<open>timed_out\<close>, which no program reads, and the form of the receive timeout differ,
  and the timeout is the same time in both forms (\<open>receive_timeout_agrees\<close>).
\<close>

datatype platform = Posix | Windows

record 'w winsock =
  wsa_startup :: "u16 \<Rightarrow> 'w \<Rightarrow> int \<times> 'w"
  wsa_cleanup :: "'w \<Rightarrow> 'w"

subsection \<open>SocketRuntime\<close>

text \<open>\<open>MAKEWORD(2, 2)\<close> asks for version 2.2. An exception of the constructor is the first component.\<close>

definition SocketRuntime_new :: "platform \<Rightarrow> 'w winsock \<Rightarrow> 'w \<Rightarrow> cpp_exception option \<times> 'w" where
  "SocketRuntime_new p wsa w =
     (case p of
        Posix \<Rightarrow> (None, w)
      | Windows \<Rightarrow>
          let (result, w) = wsa_startup wsa 0x0202 w
          in if result \<noteq> 0
             then (Some (Runtime_error (''WSAStartup failed with code '' @ show_int result)), w)
             else (None, w))"

definition SocketRuntime_dtor :: "platform \<Rightarrow> 'w winsock \<Rightarrow> 'w \<Rightarrow> 'w" where
  "SocketRuntime_dtor p wsa w = (case p of Posix \<Rightarrow> w | Windows \<Rightarrow> wsa_cleanup wsa w)"

text \<open>
  In each \<open>main\<close> the object is constructed after the test of the arguments and before the
  sockets, so its destructor runs last. No \<open>main\<close> catches the exception of the constructor: the
  program is then terminated without running destructors, which is the left side of the result.
\<close>

definition with_runtime ::
    "platform \<Rightarrow> 'w winsock \<Rightarrow> ('w \<Rightarrow> ('r \<times> 'w) option) \<Rightarrow> 'w \<Rightarrow> ((cpp_exception + 'r) \<times> 'w) option"
  where
  "with_runtime p wsa body w =
     (case SocketRuntime_new p wsa w of
        (Some e, w) \<Rightarrow> Some (Inl e, w)
      | (None, w) \<Rightarrow> do {
          (r, w) \<leftarrow> body w;
          Some (Inr r, SocketRuntime_dtor p wsa w)
        })"

definition without_runtime :: "('w \<Rightarrow> ('r \<times> 'w) option) \<Rightarrow> 'w \<Rightarrow> ((cpp_exception + 'r) \<times> 'w) option" where
  "without_runtime body w = do { (r, w) \<leftarrow> body w; Some (Inr r, w) }"

definition sender_program ::
    "platform \<Rightarrow> 'w winsock \<Rightarrow> 'w sock_api \<Rightarrow> string list \<Rightarrow> fs \<Rightarrow> 'w \<Rightarrow> ((cpp_exception + int) \<times> 'w) option"
  where
  "sender_program p wsa api args fs w =
     (if length args \<noteq> 2 then without_runtime (sender_main api args fs) w
      else with_runtime p wsa (sender_main api args fs) w)"

definition receiver_program ::
    "platform \<Rightarrow> 'w winsock \<Rightarrow> 'w sock_api \<Rightarrow> string list \<Rightarrow> fs \<Rightarrow> 'w \<Rightarrow>
     ((cpp_exception + int \<times> fs) \<times> 'w) option"
  where
  "receiver_program p wsa api args fs w =
     (let body = \<lambda>w. do { (code, fs, w) \<leftarrow> receiver_main api args fs w; Some ((code, fs), w) }
      in if length args > 1 \<or> length args = 1 \<and> is_help_arg (hd args) then without_runtime body w
         else with_runtime p wsa body w)"

definition listener_program ::
    "platform \<Rightarrow> 'w winsock \<Rightarrow> 'w host \<Rightarrow> string list \<Rightarrow> 'w \<Rightarrow> ((cpp_exception + int) \<times> 'w) option"
  where
  "listener_program p wsa h args w =
     (if args \<noteq> [] then without_runtime (listener_main h args) w
      else with_runtime p wsa (listener_main h args) w)"

definition broadcaster_program ::
    "platform \<Rightarrow> 'w winsock \<Rightarrow> 'w host \<Rightarrow> string list \<Rightarrow> 'w \<Rightarrow> ((cpp_exception + int) \<times> 'w) option"
  where
  "broadcaster_program p wsa h args w =
     (if length args > 1 \<or> length args = 1 \<and> is_help_arg (hd args)
      then without_runtime (broadcaster_main h args) w
      else with_runtime p wsa (broadcaster_main h args) w)"

subsection \<open>The platform-dependent branches\<close>

definition WSAETIMEDOUT :: int where
  "WSAETIMEDOUT = 10060"

definition WSAEWOULDBLOCK :: int where
  "WSAEWOULDBLOCK = 10035"

definition is_timeout_error_on :: "platform \<Rightarrow> int \<Rightarrow> bool" where
  "is_timeout_error_on p error_code \<longleftrightarrow>
     (case p of
        Windows \<Rightarrow> error_code = WSAETIMEDOUT \<or> error_code = WSAEWOULDBLOCK
      | Posix \<Rightarrow> error_code = EAGAIN \<or> error_code = EWOULDBLOCK)"

definition socket_error_message_on :: "platform \<Rightarrow> error_texts \<Rightarrow> int \<Rightarrow> string" where
  "socket_error_message_on p tx error_code =
     (case p of
        Windows \<Rightarrow> ''socket error '' @ show_int error_code
      | Posix \<Rightarrow> strerror tx error_code)"

text \<open>The value that \<open>set_receive_timeout\<close> hands to \<open>setsockopt\<close>, and the microseconds it means.\<close>

datatype timeout_value = Timeval int int | Dword u32

definition receive_timeout_value :: "platform \<Rightarrow> int \<Rightarrow> timeout_value" where
  "receive_timeout_value p timeout =
     (case p of
        Windows \<Rightarrow> Dword (of_int timeout)
      | Posix \<Rightarrow> Timeval (timeout sdiv 1000) ((timeout smod 1000) * 1000))"

fun timeout_micros :: "timeout_value \<Rightarrow> int" where
  "timeout_micros (Timeval sec usec) = sec * 1000000 + usec"
| "timeout_micros (Dword ms) = uint ms * 1000"

subsection \<open>What the platforms have in common\<close>

lemma posix_branches:
  "is_timeout_error_on Posix = is_timeout_error"
  "socket_error_message_on Posix = socket_error_message"
  "SocketRuntime_new Posix wsa w = (None, w)" "SocketRuntime_dtor Posix wsa w = w"
  by (simp_all add: fun_eq_iff is_timeout_error_on_def is_timeout_error_def socket_error_message_on_def
      socket_error_message_def SocketRuntime_new_def SocketRuntime_dtor_def)

text \<open>
  The receive timeout is the same time on both platforms as long as it fits 32 bits of
  milliseconds; on Windows a longer one is cut, and \<open>2 ^ 32\<close> becomes 0, which means for ever.
\<close>

lemma receive_timeout_agrees:
  assumes "0 \<le> timeout" and "timeout < 2 ^ 32"
  shows "timeout_micros (receive_timeout_value p timeout) = timeout * 1000"
proof (cases p)
  case Posix
  have "timeout sdiv 1000 = timeout div 1000" "timeout smod 1000 = timeout mod 1000"
    using assms(1) by (simp_all add: signed_divide_int_def signed_modulo_int_def sgn_if)
  then show ?thesis
    by (simp add: Posix receive_timeout_value_def) presburger
next
  case Windows
  then show ?thesis
    using assms by (simp add: receive_timeout_value_def uint_word_of_int take_bit_int_eq_self)
qed

lemma receive_timeout_wraps: "timeout_micros (receive_timeout_value Windows (2 ^ 32)) = 0"
  by (simp add: receive_timeout_value_def uint_word_of_int)

lemma receive_timeout_posix:
  "udp_set_receive_timeout api s timeout w =
     (if \<not> is_valid_socket s then (False, w)
      else case receive_timeout_value Posix timeout of
             Timeval sec usec \<Rightarrow> (let (r, w) = sys_setsockopt api s (SO_RCVTIMEO sec usec) w in (r = 0, w))
           | Dword ms \<Rightarrow> (False, w))"
  by (simp add: udp_set_receive_timeout_def receive_timeout_value_def split: prod.split)

subsection \<open>The runtime outlives the sockets\<close>

text \<open>
  \<open>settled used\<close> is the right end of a program, which uses the runtime unless it only prints its
  usage: the library was started, the program has run, all its sockets are closed, and only then
  the library was stopped; or it could not be started and nothing else has happened. Without the
  runtime no socket is left either.
\<close>

definition settled ::
    "platform \<Rightarrow> 'w winsock \<Rightarrow> ('w \<Rightarrow> socket_t set) \<Rightarrow> bool \<Rightarrow> 'w \<Rightarrow> (cpp_exception + 'r) \<times> 'w \<Rightarrow> bool"
  where
  "settled p wsa opened used w r \<longleftrightarrow>
     (if used
      then case SocketRuntime_new p wsa w of
             (Some e, w1) \<Rightarrow> r = (Inl e, w1)
           | (None, w1) \<Rightarrow>
               \<exists>c w2. opened w2 = opened w1 \<and> r = (Inr c, SocketRuntime_dtor p wsa w2)
      else \<exists>c w'. r = (Inr c, w') \<and> opened w' = opened w)"

lemma with_runtime_settled:
  assumes "with_runtime p wsa body w = Some r" and "\<And>v c v'. body v = Some (c, v') \<Longrightarrow> opened v' = opened v"
  shows "settled p wsa opened True w r"
proof -
  obtain e w1 where new: "SocketRuntime_new p wsa w = (e, w1)"
    by (metis surj_pair)
  show ?thesis
    using assms(1) assms(2) [of w1]
    by (cases e) (simp_all add: with_runtime_def new settled_def bind_eq_Some_conv, blast)
qed

lemma without_runtime_settled:
  assumes "without_runtime body w = Some r" and "\<And>v c v'. body v = Some (c, v') \<Longrightarrow> opened v' = opened v"
  shows "settled p wsa opened False w r"
  using assms(1) assms(2) [of w] by (auto simp: without_runtime_def settled_def bind_eq_Some_conv)

lemma program_settled:
  assumes "(if usage then without_runtime body w else with_runtime p wsa body w) = Some r"
    and "\<And>v c v'. body v = Some (c, v') \<Longrightarrow> opened v' = opened v" and "used = (\<not> usage)"
  shows "settled p wsa opened used w r"
  using assms with_runtime_settled [of p wsa body w r opened] without_runtime_settled [of body w r opened p wsa]
  by (cases usage) auto

text \<open>
  C18: all four programs, on both platforms, close every socket they open, on a system that hands
  out and takes back descriptors as documented, whatever the arguments, the files, the network
  and the peers. On Windows the socket library is started before the first socket, stopped after
  the last one has been closed, and not used at all when it could not be started or when the
  program only prints its usage. When \<open>SIGPIPE\<close> kills a transfer program on POSIX, the closing that
  the model still does stands for the kernel's.
\<close>

theorem programs_close_sockets:
  assumes "fd_discipline (h_api h) opened" and "host_keeps h opened"
  shows "(sender_program p wsa (h_api h) args fs w = Some r \<longrightarrow>
      settled p wsa opened (length args = 2) w r) \<and>
    (receiver_program p wsa (h_api h) args fs w = Some r' \<longrightarrow>
      settled p wsa opened (length args = 0 \<or> length args = 1 \<and> \<not> is_help_arg (hd args)) w r') \<and>
    (listener_program p wsa h args w = Some r \<longrightarrow> settled p wsa opened (args = []) w r) \<and>
    (broadcaster_program p wsa h args w = Some r \<longrightarrow>
      settled p wsa opened (length args = 0 \<or> length args = 1 \<and> \<not> is_help_arg (hd args)) w r)"
proof (intro conjI impI)
  note sockets = transfer_programs_close_sockets [OF assms(1)] discovery_programs_close_sockets [OF assms]
  have used: "(length args = 0 \<or> length args = 1 \<and> \<not> is_help_arg (hd args)) =
      (\<not> (length args > 1 \<or> length args = 1 \<and> is_help_arg (hd args)))"
    by (auto simp: not_less le_Suc_eq)
  show "settled p wsa opened (length args = 2) w r"
    if "sender_program p wsa (h_api h) args fs w = Some r"
    by (rule program_settled [OF that [unfolded sender_program_def]]) (use sockets in auto)
  show "settled p wsa opened (length args = 0 \<or> length args = 1 \<and> \<not> is_help_arg (hd args)) w r'"
    if "receiver_program p wsa (h_api h) args fs w = Some r'"
    by (rule program_settled [OF that [unfolded receiver_program_def Let_def] _ used])
      (use sockets in \<open>auto simp: bind_eq_Some_conv\<close>)
  show "settled p wsa opened (args = []) w r" if "listener_program p wsa h args w = Some r"
    by (rule program_settled [OF that [unfolded listener_program_def]]) (use sockets in auto)
  show "settled p wsa opened (length args = 0 \<or> length args = 1 \<and> \<not> is_help_arg (hd args)) w r"
    if "broadcaster_program p wsa h args w = Some r"
    by (rule program_settled [OF that [unfolded broadcaster_program_def] _ used]) (use sockets in auto)
qed

theorem programs_close_sockets_witness:
  "\<exists>fs' w1 w2.
     receiver_program Windows \<lparr>wsa_startup = \<lambda>v w. (0, w), wsa_cleanup = \<lambda>w. w\<rparr> fd_api [] demo_fs {} =
       Some (Inr (1, fs'), w1) \<and> own_fds w1 = {} \<and>
     listener_program Windows \<lparr>wsa_startup = \<lambda>v w. (0, w), wsa_cleanup = \<lambda>w. w\<rparr> fd_host [] {} =
       Some (Inr 0, w2) \<and> own_fds w2 = {}"
proof -
  let ?wsa = "\<lparr>wsa_startup = \<lambda>v w. (0, w), wsa_cleanup = \<lambda>w. w\<rparr> :: socket_t set winsock"
  have new: "SocketRuntime_new Windows ?wsa w = (None, w)" "SocketRuntime_dtor Windows ?wsa w = w" for w
    by (simp_all add: SocketRuntime_new_def SocketRuntime_dtor_def)
  have api: "h_api fd_host = fd_api"
    by (simp add: fd_host_def)
  obtain w1 where r: "receiver_program Windows ?wsa fd_api [] demo_fs {} = Some (Inr (1, demo_fs), w1)"
    using fd_receiver_run by (auto simp: receiver_program_def with_runtime_def new)
  obtain w2 where l: "listener_program Windows ?wsa fd_host [] {} = Some (Inr 0, w2)"
    using fd_listener_run by (auto simp: listener_program_def with_runtime_def new)
  from programs_close_sockets [OF fd_host_discipline, of Windows ?wsa "[]" demo_fs "{}" "(Inr 0, w2)"
      "(Inr (1, demo_fs), w1)"]
  show ?thesis
    using r l by (auto simp: api settled_def new own_fds_def)
qed

end
