(* ===== verification/Unit_Tests.thy ===== *)
theory Unit_Tests
  imports Checkpoint Chunk_Codec Continuation_Codec Hash_Codec Manifest_Codec File_Utils
begin

text \<open>
  The test program \<open>tests/packetbridge_tests.cpp\<close>, run on the model. A failed assertion aborts,
  which is \<^const>\<open>None\<close>; so is undefined behaviour of a tested function. An exception leaves the
  comparison in \<open>test_sha256_file\<close> false. The tests use three paths of the file system.
\<close>

definition assert :: "bool \<Rightarrow> unit option" where
  "assert condition = (if condition then Some () else None)"

definition write_file :: "string \<Rightarrow> string \<Rightarrow> fs \<Rightarrow> fs" where
  "write_file path data fs = snd (ofstream_create path (bytes_of_string data) fs)"

definition test_sha256_file :: "fs \<Rightarrow> fs option" where
  "test_sha256_file fs =
     (let path = ''/tmp/packetbridge_sha256_abc.txt'';
          fs = write_file path ''abc'' fs
      in do {
        result \<leftarrow> sha256_file path fs;
        assert (result =
          Inr ''ba7816bf8f01cfea414140de5dae2223b00361a396177a9cb410ff61f20015ad'');
        Some (snd (fs_remove path fs))
      })"

definition test_filename_sanitization :: "unit option" where
  "test_filename_sanitization = do {
     assert (sanitize_filename ''../../secret.txt'' = ''secret.txt'');
     assert (sanitize_filename ''..hidden'' = ''hidden'');
     assert (sanitize_filename ''unsafe name?.bin'' = ''unsafe_name_.bin'');
     assert (sanitize_filename ''////'' = ''file'')
   }"

definition test_manifest_codec :: "unit option" where
  "test_manifest_codec =
     (let manifest = FileManifest_init\<lparr>fm_filename := ''sample.bin'', fm_file_size := 1025,
            fm_chunk_size := 512, fm_chunk_count := 3, fm_session_id := 42\<rparr>;
          frame = serialize_file_manifest manifest
      in do {
        (ok, decoded) \<leftarrow> deserialize_file_manifest frame FileManifest_init;
        assert ok;
        assert (fm_filename decoded = fm_filename manifest);
        assert (fm_file_size decoded = fm_file_size manifest);
        assert (fm_chunk_size decoded = fm_chunk_size manifest);
        assert (fm_chunk_count decoded = fm_chunk_count manifest);
        assert (fm_session_id decoded = fm_session_id manifest)
      })"

definition test_chunk_codec :: "unit option" where
  "test_chunk_codec =
     (let header = ChunkHeader_init\<lparr>ch_session_id := 7, ch_chunk_index := 2,
            ch_byte_offset := 131072, ch_payload_size := 65536\<rparr>;
          payload = serialize_chunk_header header
      in do {
        (ok, decoded) \<leftarrow> deserialize_chunk_header payload ChunkHeader_init;
        assert ok;
        assert (ch_session_id decoded = ch_session_id header);
        assert (ch_chunk_index decoded = ch_chunk_index header);
        assert (ch_byte_offset decoded = ch_byte_offset header);
        assert (ch_payload_size decoded = ch_payload_size header);
        let manifest = FileManifest_init\<lparr>fm_file_size := 262144, fm_chunk_size := 65536,
              fm_chunk_count := 4, fm_session_id := 7\<rparr>;
        assert (validate_chunk_header manifest decoded)
      })"

definition test_hash_codec :: "unit option" where
  "test_hash_codec =
     (let packet = HashPacket_init\<lparr>hp_session_id := 99, hp_sha256_hex :=
            ''ba7816bf8f01cfea414140de5dae2223b00361a396177a9cb410ff61f20015ad''\<rparr>;
          payload = serialize_hash_packet packet
      in do {
        (ok, decoded) \<leftarrow> deserialize_hash_packet payload HashPacket_init;
        assert ok;
        assert (hp_session_id decoded = hp_session_id packet);
        assert (hp_sha256_hex decoded = hp_sha256_hex packet)
      })"

definition test_continuation_codec :: "unit option" where
  "test_continuation_codec =
     (let request = ContinueRequest_init\<lparr>cr_session_id := 5, cr_total_chunks := 6,
            cr_missing_chunk_indexes := [1, 3, 5]\<rparr>;
          payload = serialize_continue_request request
      in do {
        (ok, decoded) \<leftarrow> deserialize_continue_request payload ContinueRequest_init;
        assert ok;
        assert (cr_session_id decoded = cr_session_id request);
        assert (cr_total_chunks decoded = cr_total_chunks request);
        assert (cr_missing_chunk_indexes decoded = cr_missing_chunk_indexes request);
        let manifest = FileManifest_init\<lparr>fm_session_id := 5, fm_chunk_count := 6\<rparr>;
        assert (validate_continue_request manifest decoded)
      })"

definition test_checkpoint_roundtrip :: "fs \<Rightarrow> fs option" where
  "test_checkpoint_roundtrip fs =
     (let path = ''/tmp/packetbridge_test.pbcheckpoint'';
          manifest = FileManifest_init\<lparr>fm_filename := ''payload.bin'', fm_file_size := 4096,
            fm_chunk_size := 1024, fm_chunk_count := 4\<rparr>;
          checkpoint = create_checkpoint_from_manifest manifest;
          checkpoint = checkpoint\<lparr>cp_completed_chunks := insert 0 (cp_completed_chunks checkpoint)\<rparr>;
          checkpoint = checkpoint\<lparr>cp_completed_chunks := insert 2 (cp_completed_chunks checkpoint)\<rparr>;
          (saved, fs) = save_checkpoint path checkpoint fs
      in do {
        assert saved;
        let (ok, loaded) = load_checkpoint path TransferCheckpoint_init fs;
        assert ok;
        assert (checkpoint_matches_manifest loaded manifest);
        let missing = missing_chunks loaded;
        assert (missing = [1, 3]);
        let (removed, fs) = remove_checkpoint path fs;
        assert removed;
        assert (\<not> file_exists path fs);
        Some fs
      })"

definition test_main :: "fs \<Rightarrow> (int \<times> fs) option" where
  "test_main fs = do {
     fs \<leftarrow> test_sha256_file fs;
     test_filename_sanitization;
     test_manifest_codec;
     test_chunk_codec;
     test_hash_codec;
     test_continuation_codec;
     fs \<leftarrow> test_checkpoint_roundtrip fs;
     Some (0, fs)
   }"

lemma assert_bind [simp]: "Option.bind (assert b) f = (if b then f () else None)"
  by (simp add: assert_def)

subsection \<open>The tests of pure functions\<close>

lemma codec_tests:
  "test_filename_sanitization = Some ()" "test_manifest_codec = Some ()" "test_chunk_codec = Some ()"
  "test_hash_codec = Some ()" "test_continuation_codec = Some ()"
  by code_simp+

lemma sha256_abc:
  "sha256_reference (bytes_of_string ''abc'') =
     ''ba7816bf8f01cfea414140de5dae2223b00361a396177a9cb410ff61f20015ad''"
proof -
  have "map_option fst (Option.bind (update (bytes_of_string ''abc'') Sha256_init) final_hex) =
      Some ''ba7816bf8f01cfea414140de5dae2223b00361a396177a9cb410ff61f20015ad''"
    by code_simp
  moreover have "map_option fst (Option.bind (update (bytes_of_string ''abc'') Sha256_init) final_hex) =
      Some (sha256_reference (bytes_of_string ''abc''))"
    using sha.digest_of_pieces [of "[bytes_of_string ''abc'']"] by simp
  ultimately show ?thesis
    by (metis option.inject)
qed

subsection \<open>The tests that use files\<close>

text \<open>A path that a test may create, read back and remove.\<close>

definition scratch_path :: "fs \<Rightarrow> string \<Rightarrow> bool" where
  "scratch_path fs path \<longleftrightarrow>
     fs_may_read fs path \<and> fs_may_write fs path \<and> fs_may_unlink fs path \<and>
     fs_bad fs path = None \<and> 200 \<le> fs_room fs path"

lemma sha256_file_test:
  assumes "scratch_path fs ''/tmp/packetbridge_sha256_abc.txt''"
  shows "test_sha256_file fs = Some (fs_put ''/tmp/packetbridge_sha256_abc.txt'' None fs)"
proof -
  define path where "path = ''/tmp/packetbridge_sha256_abc.txt''"
  define content where "content = bytes_of_string ''abc''"
  have path: "scratch_path fs path" and len: "length content = 3"
    using assms by (simp_all add: path_def content_def)
  have created: "write_file path ''abc'' fs = fs_put path (Some content) fs"
    using path len unfolding write_file_def content_def [symmetric]
    by (simp add: scratch_path_def ofstream_create_eq fs_put_def)
  have "sha256_file path (fs_put path (Some content) fs) = Some (Inr (sha256_reference content))"
    using path by (simp add: sha256_file_eq fs_simps scratch_path_def unreadable_def)
  moreover have "fs_remove path (fs_put path (Some content) fs) = (True, fs_put path None fs)"
    using path by (simp add: fs_remove_def fs_simps scratch_path_def) (simp add: fs_put_def)
  ultimately show ?thesis
    unfolding test_sha256_file_def path_def [symmetric] Let_def created
    by (simp add: sha256_abc [folded content_def])
qed

definition test_checkpoint :: TransferCheckpoint where
  "test_checkpoint =
     \<lparr>cp_original_filename = ''payload.bin'', cp_file_size = 4096, cp_chunk_size = 1024,
      cp_total_chunks = 4, cp_completed_chunks = {0, 2}\<rparr>"

lemma test_checkpoint_facts:
  "length (checkpoint_text test_checkpoint) \<le> 200" "missing_chunks test_checkpoint = [1, 3]"
  by code_simp+

lemma checkpoint_test:
  assumes "scratch_path fs ''/tmp/packetbridge_test.pbcheckpoint''"
    and "scratch_path fs ''/tmp/packetbridge_test.pbcheckpoint.tmp''"
  shows "\<exists>fs'. test_checkpoint_roundtrip fs = Some fs' \<and> fs_env fs fs' \<and>
    fs_files fs' ''/tmp/packetbridge_test.pbcheckpoint'' = None \<and>
    fs_files fs' ''/tmp/packetbridge_test.pbcheckpoint.tmp'' = None \<and>
    (\<forall>q. q \<noteq> ''/tmp/packetbridge_test.pbcheckpoint'' \<and> q \<noteq> ''/tmp/packetbridge_test.pbcheckpoint.tmp'' \<longrightarrow>
       fs_files fs' q = fs_files fs q)"
proof -
  define path where "path = ''/tmp/packetbridge_test.pbcheckpoint''"
  define manifest where "manifest = FileManifest_init\<lparr>fm_filename := ''payload.bin'', fm_file_size := 4096,
      fm_chunk_size := 1024, fm_chunk_count := 4\<rparr>"
  have tmp: "path @ ''.tmp'' = ''/tmp/packetbridge_test.pbcheckpoint.tmp''"
    by (simp add: path_def)
  have paths: "scratch_path fs path" "scratch_path fs (path @ ''.tmp'')"
    using assms by (simp_all add: tmp) (simp add: path_def)
  then have "checkpoint_storable fs path test_checkpoint"
    using test_checkpoint_facts(1) by (auto simp: checkpoint_storable_def scratch_path_def)
  then obtain fs1 where save: "save_checkpoint path test_checkpoint fs = (True, fs1)"
    and holds: "holds_checkpoint fs1 path test_checkpoint"
    using save_checkpoint_ok by blast
  have load: "load_checkpoint path TransferCheckpoint_init fs1 = (True, test_checkpoint)"
    by (rule load_checkpoint_text [OF holds]) (simp add: test_checkpoint_def)
  obtain removed fs2 where remove: "remove_checkpoint path fs1 = (removed, fs2)"
    by (metis surj_pair)
  note env = save_checkpoint_result(1) [OF save] and rm = remove_checkpoint_result [OF remove]
  have gone: "fs_files fs2 path = None"
    using rm(4) env paths(1) by (simp add: scratch_path_def fs_env_fields)
  then have ok: "removed" "\<not> file_exists path fs2"
    using rm(3) by (simp_all add: can_open_def file_exists_iff)
  have created: "(create_checkpoint_from_manifest manifest)\<lparr>cp_completed_chunks := {2, 0}\<rparr> = test_checkpoint"
    by (simp add: create_checkpoint_from_manifest_def manifest_def FileManifest_init_def
        TransferCheckpoint_init_def test_checkpoint_def insert_commute)
  have matches: "checkpoint_matches_manifest test_checkpoint manifest"
    by (simp add: checkpoint_matches_manifest_iff manifest_def FileManifest_init_def test_checkpoint_def)
  have "test_checkpoint_roundtrip fs = Some fs2"
    using save load remove ok created matches test_checkpoint_facts(2)
    unfolding test_checkpoint_roundtrip_def path_def [symmetric] manifest_def [symmetric] Let_def
    by (simp add: create_checkpoint_from_manifest_def TransferCheckpoint_init_def)
  moreover have "fs_env fs fs2"
    by (rule fs_env_trans [OF env rm(1)])
  moreover have "fs_files fs2 (path @ ''.tmp'') = None"
    using rm(2) [of "path @ ''.tmp''"] save_checkpoint_result(4) [OF save] by simp
  moreover have "fs_files fs2 q = fs_files fs q" if "q \<noteq> path" "q \<noteq> path @ ''.tmp''" for q
    using rm(2) [OF that(1)] save_checkpoint_result(2) [OF save that] by simp
  ultimately show ?thesis
    using gone unfolding tmp path_def [symmetric] by (intro exI [of _ fs2]) simp
qed

subsection \<open>Property\<close>

text \<open>
  C29: the test program of the repository passes on the model. On every file system where its
  three paths can be written, read and removed, whatever is there before, no assertion fails,
  the program returns 0, and the three paths are the only ones it changes and are gone
  afterwards.
\<close>

theorem repository_tests_pass:
  assumes "scratch_path fs ''/tmp/packetbridge_sha256_abc.txt''"
    and "scratch_path fs ''/tmp/packetbridge_test.pbcheckpoint''"
    and "scratch_path fs ''/tmp/packetbridge_test.pbcheckpoint.tmp''"
  shows "\<exists>fs'. test_main fs = Some (0, fs') \<and>
    (\<forall>q. fs_files fs' q =
       (if q \<in> {''/tmp/packetbridge_sha256_abc.txt'', ''/tmp/packetbridge_test.pbcheckpoint'',
                ''/tmp/packetbridge_test.pbcheckpoint.tmp''} then None else fs_files fs q))"
proof -
  define a b c where "a = ''/tmp/packetbridge_sha256_abc.txt''"
    and "b = ''/tmp/packetbridge_test.pbcheckpoint''"
    and "c = ''/tmp/packetbridge_test.pbcheckpoint.tmp''"
  note paths = a_def [symmetric] b_def [symmetric] c_def [symmetric]
  have distinct: "a \<noteq> b" "a \<noteq> c"
    by (simp_all add: a_def b_def c_def)
  define fs1 where "fs1 = fs_put a None fs"
  have "scratch_path fs1 p = scratch_path fs p" for p
    by (simp add: scratch_path_def fs1_def fs_simps)
  then obtain fs2 where fs2: "test_checkpoint_roundtrip fs1 = Some fs2"
    "fs_files fs2 b = None" "fs_files fs2 c = None"
    "\<And>q. q \<noteq> b \<Longrightarrow> q \<noteq> c \<Longrightarrow> fs_files fs2 q = fs_files fs1 q"
    using checkpoint_test [of fs1, unfolded paths] assms(2,3) [unfolded paths] by blast
  have "test_sha256_file fs = Some fs1"
    using sha256_file_test [OF assms(1)] by (simp only: fs1_def a_def)
  then have "test_main fs = Some (0, fs2)"
    by (simp add: test_main_def codec_tests fs2(1))
  moreover have "fs_files fs2 q = (if q \<in> {a, b, c} then None else fs_files fs q)" for q
    using fs2(2,3) fs2(4) [of q] distinct by (auto simp: fs1_def fs_simps)
  ultimately show ?thesis unfolding paths by blast
qed

theorem repository_tests_pass_witness:
  "\<exists>fs'. test_main (sample_fs [''/tmp/packetbridge_test.pbcheckpoint'' \<mapsto> [1]] 1000) = Some (0, fs') \<and>
     fs_files fs' ''/tmp/packetbridge_test.pbcheckpoint'' = None"
proof -
  let ?fs = "sample_fs [''/tmp/packetbridge_test.pbcheckpoint'' \<mapsto> [1]] 1000"
  have "scratch_path ?fs p" for p
    by (simp add: scratch_path_def sample_fs_def)
  then show ?thesis
    using repository_tests_pass [of ?fs] by auto
qed

end
