(* ===== verification/Spec2Isabelle.thy ===== *)
theory Spec2Isabelle
  imports Tcp_Streams Socket_Objects Console_Reports Discovery_Reports Platform Unit_Tests
begin

text \<open>
  PacketBridge, a program that finds peers on a local network and copies files between them,
  as a shallow embedding, with the theorems that make its two halves correct.

  \<^bold>\<open>The program.\<close> Four executables are built from a small library. The broadcaster
  (\<open>apps/broadcaster.cpp\<close>) announces a name and a port over UDP every two seconds and the
  listener (\<open>apps/listener.cpp\<close>) keeps a table of the peers it has heard of during the last ten
  seconds. The sender (\<open>apps/sender.cpp\<close>) connects to the receiver (\<open>apps/receiver.cpp\<close>) over
  TCP and sends a manifest; the receiver answers with the list of the chunks it still needs,
  stores every chunk it gets together with a checkpoint file, and at the end compares a SHA-256
  digest. A transfer that breaks off is resumed from the checkpoint.

  \<^bold>\<open>Which theory models what\<close> (paths below \<open>src/\<close>).

  \<^item> \<open>PB_Prelude\<close>: words, bytes, characters, the collections of rewrite rules. \<open>Text\<close>: the parts of
    the C++ library that print and read numbers, \<open>getline\<close>, \<open>stoull\<close>.
  \<^item> \<open>Protocol\<close>: \<open>include/common/constants.hpp\<close>, the structs of \<open>include/net/protocol.hpp\<close>, and the
    locales that say what a codec promises. \<open>Wire\<close>: the big-endian helpers of the codecs.
  \<^item> \<open>Chunk_Codec\<close>, \<open>Continuation_Codec\<close>, \<open>Hash_Codec\<close>, \<open>Manifest_Codec\<close>: the files of the same names
    in \<open>src/transfer\<close>; the functions that send and receive the messages are in \<open>Messages\<close>.
  \<^item> \<open>File_Utils\<close>: \<open>src/transfer/file_utils.cpp\<close>. \<open>Chunk_Plan\<close>: the chunk arithmetic that both
    applications define. \<open>Doubles\<close>: floating-point numbers and their text. \<open>Progress_Tracker\<close>:
    \<open>src/transfer/progress_tracker.cpp\<close>. \<open>Logger\<close>: \<open>src/common/logger.cpp\<close>;
    \<open>Diagnostics\<close>: what the socket classes report to it; \<open>Console\<close>: what the sender and the
    receiver report to it; \<open>Discovery_Console\<close>: what the two discovery programs report. What
    the reports say is proved in \<open>Console_Reports\<close> and \<open>Discovery_Reports\<close>, on the notions of
    theory \<open>Reports\<close>.
  \<^item> \<open>Sha256\<close>: the class of \<open>src/crypto/sha256.cpp\<close>; \<open>Sha256_Constants\<close> and \<open>Sha256_Spec\<close>: the
    standard's definition and the proof that the class computes it.
  \<^item> \<open>Files\<close>: files and iostreams as far as they are used, and the functions that read a whole file
    (\<open>file_size\<close>, \<open>file_exists\<close>, \<open>sha256_file\<close>). \<open>Checkpoint\<close>: \<open>src/transfer/checkpoint.cpp\<close>.
  \<^item> \<open>Sockets\<close>: \<open>src/net/socket_utils.cpp\<close>, \<open>endpoint.cpp\<close>, \<open>tcp_socket.cpp\<close>, \<open>tcp_server.cpp\<close>;
    \<open>Udp_Socket\<close>: \<open>udp_socket.cpp\<close>; \<open>Links\<close>: the stream interface as a locale and its
    interpretation; \<open>Tcp_Streams\<close>: what follows for the callers.
  \<^item> \<open>Sender\<close> and \<open>Receiver\<close>: the two applications. \<open>Receiver_Spec\<close>, \<open>Reassembly\<close>,
    \<open>Receiver_Session\<close>, \<open>Resumption\<close> and \<open>End_To_End\<close> prove what they do, step by step: one chunk,
    the loop, the reassembled file, one session, sessions that are cut off, both sides together.
  \<^item> \<open>Discovery\<close>: \<open>src/discovery/discovery_message.cpp\<close>. \<open>Host\<close>: clock, host name, sleep, signals.
    \<open>Ordered_Table\<close>: the interface of the peer table as a locale. \<open>Listener\<close>, \<open>Listener_Spec\<close>,
    \<open>Broadcaster\<close>, \<open>Discovery_System\<close>: the two discovery programs alone and together.
  \<^item> \<open>Descriptors\<close>: which sockets are open. \<open>Socket_Objects\<close>: constructors, moves, assignments and
    destructors of the three socket classes. \<open>Pipe\<close>: a concrete system on which the witnesses run.
  \<^item> \<open>Platform\<close>: \<open>src/net/socket_runtime.cpp\<close> and the branches for Windows; the four programs with
    the runtime object around their \<open>main\<close>.
  \<^item> \<open>Unit_Tests\<close>: the test program \<open>tests/packetbridge_tests.cpp\<close>, run on the model.

  \<^bold>\<open>How the code is represented.\<close> Integers keep their width as words, so sums wrap as they do in
  the code. Structs are records. A C++ string is a character list, a byte vector a list of 8-bit
  words, a \<open>std::set\<close> a set, the \<open>std::map\<close> of peers a sorted association list. An exception is
  the left side of a sum. \<^const>\<open>None\<close> as the result of a function that cannot throw stands for what
  C++ leaves undefined, a read beyond a buffer for instance, or for a loop that never ends; the
  theorems show that neither happens. System calls are the fields of the record \<open>sock_api\<close>,
  functions on a world of any type, so every result holds for every network; what the
  system promises is stated by \<open>link_safe\<close> (a call moves what it reports, or fails), \<open>link_live\<close>
  (a connection that does not fail), \<open>datagram_safe\<close> and \<open>fd_discipline\<close>. On POSIX a \<open>send\<close> to a
  peer that is gone kills the program with \<open>SIGPIPE\<close>, because the code neither ignores the signal
  nor passes \<open>MSG_NOSIGNAL\<close>; the world records that (\<open>sys_killed\<close>, theory \<open>Sockets\<close>), nothing is
  executed or reported after it, and the run ends with \<open>killed_by_sigpipe\<close> in place of an exit
  code. The file system of
  theory \<open>Files\<close> can refuse to open, to write and to remove, can have a byte that cannot be read
  and can run full, and an update stream holds small writes back until the next seek.

  \<^bold>\<open>What is proved.\<close> For the transfer: two honest programs complete it over reliable connections,
  from any resumable state of the disk; against any peer the receiver reports success only for a
  file whose digest it has checked, and it touches only three files, all in its own directory;
  on a host with enough room and all permissions the checkpoint never claims a chunk that is not
  there, wherever connections break, so any number of broken connections is harmless to a
  receiver that runs to its exit; the sender sends nothing but what was asked for. Beneath that, each
  codec accepts exactly the encodings of valid messages, the chunk arithmetic on 64 bits is the
  arithmetic of natural numbers, the hash class computes the standard's function, and loading is
  inverse to saving a checkpoint exactly for names without a line break. For discovery: the listener's table is
  well-formed in every reachable state, one step refines the table of the specification, and an
  announcement of the broadcaster ends up in it. All four programs close the sockets they open
  before the socket runtime ends, and any program that uses socket objects, moved and assigned in
  whatever way, has each open descriptor in exactly one object of the right class, if it never
  constructs one from a raw handle that another object holds. The lines of concurrent callers of the
  logger are never mixed, every failure of a socket operation is reported once, the two transfer
  programs, unless \<open>SIGPIPE\<close> kills them, exit with 0 exactly if they have reported no error, the listener's reports account for
  every row of its table, the progress display is defined and exact at its ends in spite of
  rounding, and the tests of the repository pass on the model.

  \<^bold>\<open>Bounds.\<close> Results about the receiver assume fewer than \<open>2 ^ 59\<close> announced chunks: beyond that
  the continuation request does not fit the byte counts of the code. Completion assumes at
  most a million chunks, the limit that \<open>kMaxChunkIndexes\<close> sets. The progress display is
  considered for at most \<open>2 ^ 36\<close> bytes and two years. There is no fuel: loops that
  terminate are total functions, the others are partial functions that are shown to return.

  \<^bold>\<open>What went wrong in the code.\<close> A digest mismatch can never be repaired by retrying
  (\<open>mismatch_is_permanent\<close>). A checkpoint that is written to a full disk is accepted although
  it is truncated (\<open>truncated_checkpoint_misread\<close>). A checkpoint is on disk before the chunk that
  it records (\<open>recorded_before_written\<close>), so killing the receiver at the wrong moment leads to
  the permanent mismatch. A file name with a line break is accepted but does not survive the
  checkpoint (\<open>checkpoint_roundtrip\<close>). A sender whose peer goes away is killed without a message
  or an exit code (\<open>sigpipe_kills_silently\<close>).

  \<^bold>\<open>Not modelled.\<close> Infinities, subnormal numbers and the limits of the exponent of a \<open>double\<close>, which
  no value of the display reaches; of Windows, what the calls of its socket library do beyond the
  branches of theory \<open>Platform\<close>; the headers of \<open>DiscoveryService\<close>, \<open>TransferSession\<close> and \<open>ChunkAck\<close>, which declare what
  no code uses; memory exhaustion; other processes that change the files; signals that end a
  program other than \<open>SIGPIPE\<close>, except for what \<open>recorded_before_written\<close> says about the disk at
  such a moment; that files share the room of one device.
\<close>

section \<open>Whole transfers\<close>

text \<open>Closing a socket keeps what has been sent on a connection.\<close>

definition closing_keeps :: "'w link \<Rightarrow> socket_t \<Rightarrow> bool" where
  "closing_keeps c s \<longleftrightarrow> (\<forall>w. lk_out c (sys_close (lk_api c) s w) = lk_out c w)"

lemma sock_close_keeps: "closing_keeps c s \<Longrightarrow> lk_out c (snd (sock_close (lk_api c) s w)) = lk_out c w"
  by (simp add: closing_keeps_def sock_close_def close_socket_def)

text \<open>
  C1: a sender and a receiver that are connected to each other complete the transfer. The sender
  reads any file of up to a million chunks that it can read in full; the receiver's host has
  room and permissions and its disk is in any state from which the transfer may be resumed (for
  instance no checkpoint at all); neither connection fails, and each side receives what the
  other sends. Then, when both programs have come to their end (that the sessions do is part of
  C2 and C7), both have exited with 0, the output file is the sender's file, the checkpoint is
  gone, and no other file of the receiver has changed, apart from the temporary copy of the
  checkpoint.
\<close>

theorem transfer_completes:
  fixes cs :: "'a link" and cr :: "'b link"
  assumes m: "m = sender_manifest path (of_nat (length data))" and P: "P = output_path_for dir m"
    and have_file: "fs_files sfs path = Some data" "fs_may_read sfs path" "fs_bad sfs path = None"
    and small: "length data \<le> 65536 * 1000000" "length (basename_from_path path) \<le> 255"
    and disk: "receiver_storage m P fs" "resumable m data P fs"
    and dir: "\<not> is_help_arg dir"
    and cs: "link_safe cs" "link_live cs" "closing_keeps cs (lk_sock cs)"
    and cr: "link_safe cr" "link_live cr" "closing_keeps cr (lk_sock cr)" "closing_keeps cr server"
    and connect: "connect_to (lk_api cs) kInvalidSocket
      \<lparr>ep_host = ip, ep_port = kDefaultTransferTcpPort\<rparr> ws0 = (True, lk_sock cs, ws)"
    and listen: "bind_and_listen (lk_api cr) kInvalidSocket kDefaultTransferTcpPort 16 wr0 =
      (True, server, wr1)"
    and accept: "accept_client (lk_api cr) server wr1 = (lk_sock cr, wr)"
    and run_s: "sender_main (lk_api cs) [ip, path] sfs ws0 = Some (a, ws')"
    and run_r: "receiver_main (lk_api cr) [dir] fs wr0 = Some (b, fs', wr')"
    and wires: "connected cs ws ws' cr wr wr'"
  shows "a = 0 \<and> b = 0 \<and> fs_files fs' P = Some data \<and>
    fs_files fs' (checkpoint_path_for_output P) = None \<and>
    (\<forall>q. q \<noteq> P \<and> q \<noteq> checkpoint_path_for_output P \<and> q \<noteq> checkpoint_path_for_output P @ ''.tmp'' \<longrightarrow>
       fs_files fs' q = fs_files fs q)"
proof -
  note tr = sender_transfer [OF small(2,1) m]
  have bound: "length data < 2 ^ 63"
    using small(1) by simp
  then have src: "source_file sfs path m data"
    using have_file tr(2) sender_manifest_consistent by (simp add: source_file_def m)
  have valid: "is_valid_socket (lk_sock cr)"
    using cr(1) by (simp add: link_safe_def)
  obtain ws1 where s: "sender_session (lk_api cs) (lk_sock cs) path m (sha256_reference data) sfs ws =
      Some (a, ws1)" "ws' = snd (sock_close (lk_api cs) (lk_sock cs) ws1)"
    using run_s sender_main_run [OF have_file bound connect] by (auto simp: m)
  obtain wr2 where r: "receiver_session (lk_api cr) (lk_sock cr) dir fs wr = Some (b, fs', wr2)"
    "wr' = snd (sock_close (lk_api cr) server (snd (sock_close (lk_api cr) (lk_sock cr) wr2)))"
    using run_r receiver_main_run [OF listen accept valid dir, of fs] by auto
  have "connected cs ws ws1 cr wr wr2"
    using wires s(2) r(2) cs(3) cr(3,4) by (simp add: connected_def sock_close_keeps)
  then show ?thesis
    using sessions_complete [OF cs(1,2) cr(1,2) tr(1) src P disk s(1) r(1)]
    by (simp add: only_touches_def)
qed

lemma demo_mains:
  "\<exists>a ws' b fs' wr'.
     sender_main pipe_api [''localhost'', demo_path] demo_source (demo_request, []) = Some (a, ws') \<and>
     receiver_main pipe_api [''out''] demo_fs (demo_stream, []) = Some (b, fs', wr') \<and>
     connected pipe_link (demo_request, []) ws' pipe_link (demo_stream, []) wr'"
proof -
  have size_ok: "length demo_data < 2 ^ 63"
    by (simp add: demo_file)
  have valid: "is_valid_socket 3" "\<not> is_help_arg ''out''"
    by (simp_all add: is_valid_socket_def kInvalidSocket_def is_help_arg_def)
  obtain a ws' b fs' wr' where
    "sender_session pipe_api 3 demo_path demo_manifest (sha256_reference demo_data) demo_source
      (demo_request, []) = Some (a, ws')"
    "receiver_session pipe_api 3 ''out'' demo_fs (demo_stream, []) = Some (b, fs', wr')"
    "connected pipe_link (demo_request, []) ws' pipe_link (demo_stream, []) wr'"
    using pipe_runs [OF demo_transfer(1) demo_source_file refl _ demo_resumable demo_initial
        demo_request_def demo_stream_def] demo_fs_storage by blast
  then show ?thesis
    using sender_main_run [OF demo_file(1-3) size_ok pipe_connect(1)]
      receiver_main_run [OF pipe_connect(2,3) valid, of demo_fs]
    by (simp add: demo_manifest_def [symmetric] sock_close_def close_socket_def)
qed

theorem transfer_completes_witness:
  "\<exists>fs' ws' wr'.
     sender_main pipe_api [''localhost'', demo_path] demo_source (demo_request, []) = Some (0, ws') \<and>
     receiver_main pipe_api [''out''] demo_fs (demo_stream, []) = Some (0, fs', wr') \<and>
     fs_files fs' demo_target = Some demo_data"
proof -
  obtain a ws' b fs' wr' where runs:
    "sender_main (lk_api pipe_link) [''localhost'', demo_path] demo_source (demo_request, []) = Some (a, ws')"
    "receiver_main (lk_api pipe_link) [''out''] demo_fs (demo_stream, []) = Some (b, fs', wr')"
    "connected pipe_link (demo_request, []) ws' pipe_link (demo_stream, []) wr'"
    using demo_mains by auto
  have "a = 0 \<and> b = 0 \<and> fs_files fs' demo_target = Some demo_data"
    using transfer_completes [OF demo_manifest_def demo_target_def demo_file(1-3) _ demo_basename
        demo_fs_storage demo_resumable _ pipe_safe pipe_live _ pipe_safe pipe_live _ _ _ _ _ runs, of 3]
    by (simp add: demo_file closing_keeps_def pipe_connect is_help_arg_def)
  then show ?thesis
    using runs by auto
qed

section \<open>The receiver against any peer\<close>

text \<open>
  C2: a session of the receiver with any peer over any connection ends, with exit code 0 or 1,
  unless the peer is gone when the receiver sends its request and \<open>SIGPIPE\<close> kills it. It reports success
  only for a file it has verified: what came in is a well-formed manifest, one correctly
  labelled chunk for every index it had asked for, in that order, and a packet with a digest,
  and the file that is now at the output path has exactly that digest. The peer may announce up
  to \<open>2 ^ 59\<close> chunks.
\<close>

theorem receiver_success_means_verified:
  assumes "link_safe c"
    and "\<And>m w1. receive_file_manifest (lk_api c) (lk_sock c) FileManifest_init w = Some (True, m, w1) \<Longrightarrow>
      unat (fm_chunk_count m) < 2 ^ 59"
  shows "\<exists>code fs' w'. receiver_session (lk_api c) (lk_sock c) dir fs w = Some (code, fs', w') \<and>
    (code \<in> {0, 1} \<or> code = killed_by_sigpipe \<and> sys_killed (lk_api c) w') \<and>
    (code = 0 \<longrightarrow> (\<exists>m flags ps v. manifest_wf m \<and>
       lk_in c w = manifest_frame m flags @ frames m ps @ serialize_hash_packet
         \<lparr>hp_session_id = fm_session_id m, hp_sha256_hex = sha256_reference v\<rparr> @ lk_in c w' \<and>
       map fst ps = missing_chunks (snd (initial_checkpoint (output_path_for dir m) m fs)) \<and>
       pieces_ok m ps \<and> fs_files fs' (output_path_for dir m) = Some v))"
proof -
  obtain code fs' w' where run: "receiver_session (lk_api c) (lk_sock c) dir fs w = Some (code, fs', w')"
    "code = 0 \<and> accepted_run c dir fs w fs' w' \<or> ends_with_failure (lk_api c) code w'"
    using receiver_session_any [OF assms(1), of w dir fs] assms(2) unfolding cnt_def by blast
  have "\<exists>m flags ps v. manifest_wf m \<and>
       lk_in c w = manifest_frame m flags @ frames m ps @ serialize_hash_packet
         \<lparr>hp_session_id = fm_session_id m, hp_sha256_hex = sha256_reference v\<rparr> @ lk_in c w' \<and>
       map fst ps = missing_chunks (snd (initial_checkpoint (output_path_for dir m) m fs)) \<and>
       pieces_ok m ps \<and> fs_files fs' (output_path_for dir m) = Some v"
    if "accepted_run c dir fs w fs' w'"
    using that unfolding accepted_run_def accepted_input_def by metis
  then show ?thesis
    using run by (intro exI [of _ code] exI [of _ fs'] exI [of _ w']) (auto simp: ends_with_failure_def killed_by_sigpipe_def)
qed

theorem receiver_success_means_verified_witness:
  "\<exists>fs' w' m flags ps v. receiver_session pipe_api 3 ''out'' demo_fs (demo_stream, []) = Some (0, fs', w') \<and>
     demo_stream = manifest_frame m flags @ frames m ps @ serialize_hash_packet
       \<lparr>hp_session_id = fm_session_id m, hp_sha256_hex = sha256_reference v\<rparr> @ fst w' \<and>
     fs_files fs' (output_path_for ''out'' m) = Some v"
proof -
  obtain fs0 w0 where run: "receiver_session pipe_api 3 ''out'' demo_fs (demo_stream, []) = Some (0, fs0, w0)"
    using demo_session by blast
  have bound: "unat (fm_chunk_count m') < 2 ^ 59"
    if "receive_file_manifest (lk_api pipe_link) (lk_sock pipe_link) FileManifest_init (demo_stream, []) =
      Some (True, m', w1)" for m' w1
    using demo_received [of FileManifest_init m' w1] that demo_count by (simp add: cnt_def)
  have "\<exists>code fs' w'. receiver_session (lk_api pipe_link) (lk_sock pipe_link) ''out'' demo_fs
      (demo_stream, []) = Some (code, fs', w') \<and>
    (code \<in> {0, 1} \<or> code = killed_by_sigpipe \<and> sys_killed (lk_api pipe_link) w') \<and>
    (code = 0 \<longrightarrow> (\<exists>m flags ps v. manifest_wf m \<and>
       lk_in pipe_link (demo_stream, []) = manifest_frame m flags @ frames m ps @ serialize_hash_packet
         \<lparr>hp_session_id = fm_session_id m, hp_sha256_hex = sha256_reference v\<rparr> @ lk_in pipe_link w' \<and>
       map fst ps = missing_chunks (snd (initial_checkpoint (output_path_for ''out'' m) m demo_fs)) \<and>
       pieces_ok m ps \<and> fs_files fs' (output_path_for ''out'' m) = Some v))"
    by (rule receiver_success_means_verified [OF pipe_safe]) (rule bound)
  then show ?thesis
    using run by (auto; blast)
qed

text \<open>
  C5: whatever a peer sends, a session of the receiver changes at most three files: the output
  file, whose name is \<open>received_\<close> followed by a sanitised name, directly in the output
  directory, and the checkpoint of that file with its temporary copy. The peer may announce up to
  \<open>2 ^ 59\<close> chunks.
\<close>

theorem receiver_confined:
  assumes "link_safe c"
    and "\<And>m w1. receive_file_manifest (lk_api c) (lk_sock c) FileManifest_init w = Some (True, m, w1) \<Longrightarrow>
      unat (fm_chunk_count m) < 2 ^ 59"
    and "receiver_session (lk_api c) (lk_sock c) dir fs w = Some (code, fs', w')"
  shows "\<exists>name P. P = join_output_path dir (''received_'' @ name) \<and>
    list_all (\<lambda>ch. isalnum ch \<or> ch \<in> set ''.-_'') name \<and> basename_from_path P = ''received_'' @ name \<and>
    (\<forall>q. q \<noteq> P \<and> q \<noteq> P @ ''.pbcheckpoint'' \<and> q \<noteq> P @ ''.pbcheckpoint.tmp'' \<longrightarrow>
       fs_files fs' q = fs_files fs q)"
proof -
  have conf: "confined dir fs fs'"
    using receiver_session_any [OF assms(1), of w dir fs] assms(2,3) unfolding cnt_def by auto
  then obtain m where m: "\<forall>q. q \<noteq> output_path_for dir m \<and>
      q \<noteq> checkpoint_path_for_output (output_path_for dir m) \<and>
      q \<noteq> checkpoint_path_for_output (output_path_for dir m) @ ''.tmp'' \<longrightarrow> fs_files fs' q = fs_files fs q"
    unfolding confined_def only_touches_def by blast
  let ?name = "sanitize_filename (fm_filename m)"
  have safe: "list_all safe_char ?name"
    using sanitize_filename_safe by blast
  have "list_all safe_char ''received_''"
    by (simp add: safe_char_def isalnum_def)
  with safe have "set (''received_'' @ ?name) \<inter> set path_separators = {}"
    using safe_char_not_separator by (fastforce simp: list_all_iff)
  then have "basename_from_path (output_path_for dir m) = ''received_'' @ ?name"
    unfolding output_path_for_def by (rule join_output_path_basename)
  moreover have "list_all (\<lambda>ch. isalnum ch \<or> ch \<in> set ''.-_'') ?name"
    using safe by (simp add: safe_char_def list_all_iff)
  ultimately show ?thesis
    using m by (intro exI [of _ ?name] exI [of _ "output_path_for dir m"])
      (simp add: output_path_for_def checkpoint_path_for_output_def)
qed

theorem receiver_confined_witness:
  "\<exists>fs' w' P. receiver_session pipe_api 3 ''out'' demo_fs (demo_stream, []) = Some (0, fs', w') \<and>
     (\<forall>q. q \<noteq> P \<and> q \<noteq> P @ ''.pbcheckpoint'' \<and> q \<noteq> P @ ''.pbcheckpoint.tmp'' \<longrightarrow> fs_files fs' q = None)"
proof -
  obtain fs0 w0 where run: "receiver_session (lk_api pipe_link) (lk_sock pipe_link) ''out'' demo_fs
      (demo_stream, []) = Some (0, fs0, w0)"
    using demo_session by auto
  have bound: "unat (fm_chunk_count m') < 2 ^ 59"
    if "receive_file_manifest (lk_api pipe_link) (lk_sock pipe_link) FileManifest_init (demo_stream, []) =
      Some (True, m', w1)" for m' w1
    using demo_received [of FileManifest_init m' w1] that demo_count by (simp add: cnt_def)
  have none: "fs_files demo_fs q = None" for q
    by (simp add: demo_fs_def plain_fs_def)
  have "\<exists>name P. P = join_output_path ''out'' (''received_'' @ name) \<and>
    list_all (\<lambda>ch. isalnum ch \<or> ch \<in> set ''.-_'') name \<and> basename_from_path P = ''received_'' @ name \<and>
    (\<forall>q. q \<noteq> P \<and> q \<noteq> P @ ''.pbcheckpoint'' \<and> q \<noteq> P @ ''.pbcheckpoint.tmp'' \<longrightarrow>
       fs_files fs0 q = fs_files demo_fs q)"
    by (rule receiver_confined [OF pipe_safe _ run]) (rule bound)
  then obtain P where P: "\<forall>q. q \<noteq> P \<and> q \<noteq> P @ ''.pbcheckpoint'' \<and> q \<noteq> P @ ''.pbcheckpoint.tmp'' \<longrightarrow>
      fs_files fs0 q = None"
    unfolding none by (elim exE conjE)
  show ?thesis
    by (intro exI [of _ fs0] exI [of _ w0] exI [of _ P] conjI P run [unfolded pipe_simps])
qed

section \<open>Interrupted transfers\<close>

text \<open>
  One attempt to transfer \<open>data\<close>: the receiver runs against a sender of that file, but any part
  of the sender's stream may never arrive and sending may fail at any point, or kill the receiver
  with \<open>SIGPIPE\<close>. Otherwise the receiver runs on to its exit and so closes its output file: an
  attempt is cut off by the connection or by the sender, not by a kill signal or a power failure
  on the receiver's side.
\<close>

inductive attempt :: "'w link \<Rightarrow> FileManifest \<Rightarrow> bytes \<Rightarrow> string \<Rightarrow> fs \<Rightarrow> fs \<Rightarrow> bool"
  for c m data dir where
  attempt:
    "\<lbrakk>lk_in c w @ lost = sender_stream m data
        (missing_chunks (snd (initial_checkpoint (output_path_for dir m) m fs)));
      receiver_session (lk_api c) (lk_sock c) dir fs w = Some (code, fs', w')\<rbrakk>
     \<Longrightarrow> attempt c m data dir fs fs'"

inductive_cases attemptE: "attempt c m data dir fs fs'"

definition transfer_state :: "FileManifest \<Rightarrow> bytes \<Rightarrow> string \<Rightarrow> fs \<Rightarrow> bool" where
  "transfer_state m data P fs \<longleftrightarrow> receiver_storage m P fs \<and> resumable m data P fs"

lemma attempt_keeps_state:
  assumes "attempt c m data dir fs fs'" and "link_safe c" and "transfer_of m data"
    and "transfer_state m data (output_path_for dir m) fs"
  shows "transfer_state m data (output_path_for dir m) fs'"
  using assms(1)
proof (rule attemptE)
  fix w lost code w'
  assume inb: "lk_in c w @ lost = sender_stream m data
      (missing_chunks (snd (initial_checkpoint (output_path_for dir m) m fs)))"
    and run: "receiver_session (lk_api c) (lk_sock c) dir fs w = Some (code, fs', w')"
  let ?P = "output_path_for dir m"
  have st: "receiver_storage m ?P fs" "resumable m data ?P fs"
    using assms(4) by (simp_all add: transfer_state_def)
  obtain loaded cp where init: "initial_checkpoint ?P m fs = (loaded, cp)"
    by (cases "initial_checkpoint ?P m fs")
  have "honest_outcome m data ?P fs code fs'"
    using receiver_session_honest [OF assms(2,3) refl st init, of w lost "[]"] inb init run by auto
  then show ?thesis
    using st(1) receiver_storage_env [of fs fs' m ?P]
    by (simp add: honest_outcome_def chunk_phase_outcome_def only_touches_def transfer_state_def)
qed

lemma attempts_keep_state:
  "(attempt c m data dir)\<^sup>*\<^sup>* fs fs' \<Longrightarrow> link_safe c \<Longrightarrow> transfer_of m data \<Longrightarrow>
     transfer_state m data (output_path_for dir m) fs \<Longrightarrow>
     transfer_state m data (output_path_for dir m) fs'"
  by (induction rule: rtranclp_induct) (blast intro: attempt_keeps_state)+

text \<open>
  C3: the invariant of resumption of the transfer of a file of up to a million chunks, with the
  manifest that describes it, for a receiver that runs to its exit on a host with enough room
  and all permissions for the output file and the checkpoint (\<open>receiver_storage\<close>). It starts
  without a checkpoint. After any number of attempts to transfer the same file whose connections
  broke anywhere in the stream, the chunks that the checkpoint on disk records are in the output
  file with the right content: the checkpoint a next run starts from is either not used at all,
  or every chunk it claims is the sender's. Both conditions are needed: a checkpoint that does
  not fit is misread (\<open>truncated_checkpoint_misread\<close>), and a receiver that is killed may have
  recorded a chunk it has not written (\<open>recorded_before_written\<close>).
\<close>

theorem checkpoint_never_lies:
  assumes "link_safe c" and "transfer_of m data" and "P = output_path_for dir m"
    and "receiver_storage m P fs0" and "fs_files fs0 (checkpoint_path_for_output P) = None"
    and "(attempt c m data dir)\<^sup>*\<^sup>* fs0 fs"
    and "initial_checkpoint P m fs = (True, cp)" and "i \<in> cp_completed_chunks cp"
  shows "\<exists>v. fs_files fs P = Some v \<and> i < fm_chunk_count m \<and>
    take (unat (payload_size_for_chunk m i)) (drop (unat (i * ucast (fm_chunk_size m))) v) =
    take (unat (payload_size_for_chunk m i)) (drop (unat (i * ucast (fm_chunk_size m))) data)"
proof -
  have "transfer_state m data P fs0"
    using assms(4,5) by (simp add: transfer_state_def resumable_no_checkpoint)
  then have "transfer_state m data P fs"
    using attempts_keep_state [OF assms(6,1,2)] assms(3) by simp
  then obtain v where v: "fs_files fs P = Some v" "partial_file m data (cp_completed_chunks cp) v"
    using assms(7) by (auto simp: transfer_state_def resumable_def)
  then have i: "unat i < cnt m" "has_chunk m data v i"
    using assms(8) by (simp_all add: partial_file_def)
  have "manifest_consistent m"
    by (rule transfer_facts(1) [OF assms(2)])
  then show ?thesis
    using v(1) i unat_payload_size [of m i] unat_offset [of m i]
    by (auto simp: has_chunk_def slice_def chunk_bytes_def cnt_def word_less_nat_alt)
qed

lemma demo_attempt:
  "\<exists>fs'. attempt pipe_link demo_manifest demo_data ''out'' demo_fs fs' \<and>
     initial_checkpoint demo_target demo_manifest fs' =
       (True, completed_with (create_checkpoint_from_manifest demo_manifest) {0})"
proof -
  obtain fs' w' where run: "receiver_session pipe_api 3 ''out'' demo_fs (demo_cut, []) = Some (1, fs', w')"
    "initial_checkpoint demo_target demo_manifest fs' =
       (True, completed_with (create_checkpoint_from_manifest demo_manifest) {0})"
    using demo_cut_run by blast
  have "lk_in pipe_link (demo_cut, []) @ serialize_hash_packet (hash_packet_for demo_manifest demo_data) =
      sender_stream demo_manifest demo_data
        (missing_chunks (snd (initial_checkpoint (output_path_for ''out'' demo_manifest) demo_manifest demo_fs)))"
    by (simp add: demo_cut_def sender_stream_def demo_initial)
  then have "attempt pipe_link demo_manifest demo_data ''out'' demo_fs fs'"
    by (rule attempt) (simp add: run(1))
  with run(2) show ?thesis
    by blast
qed

lemma demo_no_checkpoint: "fs_files demo_fs q = None"
  by (simp add: demo_fs_def plain_fs_def)

theorem checkpoint_never_lies_witness:
  "\<exists>fs v. attempt pipe_link demo_manifest demo_data ''out'' demo_fs fs \<and> fs_files fs demo_target = Some v \<and>
     take (unat (payload_size_for_chunk demo_manifest 0)) v =
     take (unat (payload_size_for_chunk demo_manifest 0)) demo_data"
proof -
  obtain fs' where step: "attempt pipe_link demo_manifest demo_data ''out'' demo_fs fs'"
    "initial_checkpoint demo_target demo_manifest fs' =
       (True, completed_with (create_checkpoint_from_manifest demo_manifest) {0})"
    using demo_attempt by blast
  have "\<exists>v. fs_files fs' demo_target = Some v \<and> 0 < fm_chunk_count demo_manifest \<and>
    take (unat (payload_size_for_chunk demo_manifest 0))
      (drop (unat (0 * ucast (fm_chunk_size demo_manifest) :: u64)) v) =
    take (unat (payload_size_for_chunk demo_manifest 0))
      (drop (unat (0 * ucast (fm_chunk_size demo_manifest) :: u64)) demo_data)"
    by (rule checkpoint_never_lies [OF pipe_safe demo_transfer(1) demo_target_def demo_fs_storage
          demo_no_checkpoint r_into_rtranclp [of "attempt pipe_link demo_manifest demo_data ''out''",
            OF step(1)] step(2)]) simp
  then show ?thesis
    using step(1) by auto
qed

text \<open>
  C4: a broken connection does no lasting harm to the transfer of a file of up to a million chunks,
  with the manifest that describes it. The receiver's host has enough room and all
  permissions for the output file and the checkpoint (\<open>receiver_storage\<close>), and the receiver starts
  without a checkpoint and runs to its exit in every attempt. After any number of attempts whose
  connections broke anywhere in the stream, one run over a connection that does not fail
  (\<open>link_live\<close>) and on which the whole of the sender's stream arrives ends with exit code 0, with the
  sender's file, and without a checkpoint.
\<close>

theorem resumption_completes:
  fixes c' :: "'v link"
  assumes "link_safe c" and "transfer_of m data" and "P = output_path_for dir m"
    and "receiver_storage m P fs0" and "fs_files fs0 (checkpoint_path_for_output P) = None"
    and "(attempt c m data dir)\<^sup>*\<^sup>* fs0 fs" and "link_safe c'" and "link_live c'"
    and "lk_in c' w = sender_stream m data (missing_chunks (snd (initial_checkpoint P m fs))) @ rest"
  shows "\<exists>fs' w'. receiver_session (lk_api c') (lk_sock c') dir fs w = Some (0, fs', w') \<and>
    fs_files fs' P = Some data \<and> fs_files fs' (checkpoint_path_for_output P) = None \<and> lk_in c' w' = rest"
proof -
  have "transfer_state m data P fs0"
    using assms(4,5) by (simp add: transfer_state_def resumable_no_checkpoint)
  then have st: "receiver_storage m P fs" "resumable m data P fs"
    using attempts_keep_state [OF assms(6,1,2)] assms(3) by (simp_all add: transfer_state_def)
  obtain loaded cp where init: "initial_checkpoint P m fs = (loaded, cp)"
    by (cases "initial_checkpoint P m fs")
  have "lk_in c' w @ [] = sender_stream m data (missing_chunks cp) @ rest"
    using assms(9) init by simp
  then obtain code fs' w' where run:
    "receiver_session (lk_api c') (lk_sock c') dir fs w = Some (code, fs', w')"
    "honest_outcome m data P fs code fs'"
    "link_live c' \<and> ([] :: bytes) = [] \<longrightarrow> code = 0 \<and> lk_in c' w' = rest \<and>
       lk_out c' w' = lk_out c' w @ serialize_continue_request (request_for m cp)"
    using receiver_session_honest [OF assms(7,2,3) st init] by blast
  then show ?thesis
    using assms(8) by (auto simp: honest_outcome_def chunk_phase_outcome_def)
qed

theorem resumption_completes_witness:
  "\<exists>fs inp fs' w'. attempt pipe_link demo_manifest demo_data ''out'' demo_fs fs \<and>
     receiver_session pipe_api 3 ''out'' fs (inp, []) = Some (0, fs', w') \<and>
     fs_files fs' demo_target = Some demo_data"
proof -
  obtain fs where step: "attempt pipe_link demo_manifest demo_data ''out'' demo_fs fs"
    using demo_attempt by blast
  let ?inp = "sender_stream demo_manifest demo_data
    (missing_chunks (snd (initial_checkpoint demo_target demo_manifest fs)))"
  have "\<exists>fs' w'. receiver_session (lk_api pipe_link) (lk_sock pipe_link) ''out'' fs (?inp, []) =
      Some (0, fs', w') \<and> fs_files fs' demo_target = Some demo_data \<and>
    fs_files fs' (checkpoint_path_for_output demo_target) = None \<and> lk_in pipe_link w' = []"
    by (rule resumption_completes [OF pipe_safe demo_transfer(1) demo_target_def demo_fs_storage
          demo_no_checkpoint r_into_rtranclp [of "attempt pipe_link demo_manifest demo_data ''out''",
            OF step] pipe_safe pipe_live]) simp
  then show ?thesis
    using step unfolding pipe_simps by blast
qed

text \<open>
  C6: a digest mismatch is permanent. Once every chunk is recorded as completed and the file on
  disk does not have the announced digest, a new run over a connection that does not fail sends
  a request with an empty list of chunks and nothing else, reads the manifest and the digest
  and nothing else, exits with 1, and leaves the file and the checkpoint as they are, so
  retrying never repairs the file. Room and permissions are sufficient, so it is not the disk that
  stops it.
\<close>

theorem mismatch_is_permanent:
  assumes "link_safe c" and "link_live c" and "transfer_of m data" and "P = output_path_for dir m"
    and "receiver_storage m P fs" and "holds_checkpoint fs (checkpoint_path_for_output P) cp"
    and "cp = (create_checkpoint_from_manifest m)\<lparr>cp_completed_chunks := {i. i < fm_chunk_count m}\<rparr>"
    and "fs_files fs P = Some v" and "is_sha256_hex h" and "h \<noteq> sha256_reference v"
    and "lk_in c w = serialize_file_manifest m @
      serialize_hash_packet \<lparr>hp_session_id = fm_session_id m, hp_sha256_hex = h\<rparr> @ rest"
  shows "\<exists>fs' w'. receiver_session (lk_api c) (lk_sock c) dir fs w = Some (1, fs', w') \<and>
    lk_out c w' = lk_out c w @ serialize_continue_request \<lparr>cr_session_id = fm_session_id m,
      cr_total_chunks = fm_chunk_count m, cr_missing_chunk_indexes = []\<rparr> \<and> lk_in c w' = rest \<and>
    fs_files fs' P = Some v \<and> holds_checkpoint fs' (checkpoint_path_for_output P) cp"
proof -
  have "same_transfer m cp" "cp_completed_chunks cp = {i. i < cp_total_chunks cp}"
    by (simp_all add: assms(7) same_transfer_def create_checkpoint_from_manifest_def
        TransferCheckpoint_init_def)
  then show ?thesis
    using full_checkpoint_stuck [OF assms(1-6) _ _ assms(8-11)] by blast
qed

definition demo_full :: TransferCheckpoint where
  "demo_full = (create_checkpoint_from_manifest demo_manifest)
     \<lparr>cp_completed_chunks := {i. i < fm_chunk_count demo_manifest}\<rparr>"

definition demo_broken_fs :: fs where
  "demo_broken_fs = plain_fs [demo_target \<mapsto> [9, 9, 9],
     checkpoint_path_for_output demo_target \<mapsto> bytes_of_string (checkpoint_text demo_full)]"

definition demo_other_digest :: string where
  "demo_other_digest =
     (let z = replicate 64 (CHR ''0'') in if sha256_reference [9, 9, 9] = z then replicate 64 (CHR ''1'') else z)"

theorem mismatch_is_permanent_witness:
  "\<exists>inp fs' w'. receiver_session pipe_api 3 ''out'' demo_broken_fs (inp, []) = Some (1, fs', w') \<and>
     fs_files fs' demo_target = Some [9, 9, 9] \<and> snd w' = serialize_continue_request
       \<lparr>cr_session_id = fm_session_id demo_manifest, cr_total_chunks = fm_chunk_count demo_manifest,
        cr_missing_chunk_indexes = []\<rparr>"
proof -
  have "replicate 64 (CHR ''0'') \<noteq> replicate 64 (CHR ''1'')"
    by (simp add: replicate_eq_replicate)
  then have h: "is_sha256_hex demo_other_digest" "demo_other_digest \<noteq> sha256_reference [9, 9, 9]"
    by (auto simp: demo_other_digest_def is_sha256_hex_iff is_hex_digit_def Let_def)
  let ?inp = "serialize_file_manifest demo_manifest @
    serialize_hash_packet \<lparr>hp_session_id = fm_session_id demo_manifest, hp_sha256_hex = demo_other_digest\<rparr>"
  have disk: "receiver_storage demo_manifest demo_target demo_broken_fs"
    "holds_checkpoint demo_broken_fs (checkpoint_path_for_output demo_target) demo_full"
    "fs_files demo_broken_fs demo_target = Some [9, 9, 9]"
    using paths_apart(1) [of demo_target] unfolding demo_broken_fs_def
    by (simp_all add: demo_storage) (simp_all add: holds_checkpoint_def plain_fs_def)
  have "\<exists>fs' w'. receiver_session (lk_api pipe_link) (lk_sock pipe_link) ''out'' demo_broken_fs (?inp, []) =
      Some (1, fs', w') \<and>
    lk_out pipe_link w' = lk_out pipe_link (?inp, []) @ serialize_continue_request
      \<lparr>cr_session_id = fm_session_id demo_manifest, cr_total_chunks = fm_chunk_count demo_manifest,
       cr_missing_chunk_indexes = []\<rparr> \<and> lk_in pipe_link w' = [] \<and>
    fs_files fs' demo_target = Some [9, 9, 9] \<and>
    holds_checkpoint fs' (checkpoint_path_for_output demo_target) demo_full"
    by (rule mismatch_is_permanent [OF pipe_safe pipe_live demo_transfer(1) demo_target_def disk(1,2)
          demo_full_def disk(3) h]) simp
  then show ?thesis
    by auto
qed

section \<open>The sender against any peer\<close>

text \<open>
  C7: a session of the sender with any peer over any connection, for a file that can be read in
  full and that its manifest describes (\<open>source_file\<close>), ends: with exit code 0 or 1, or because
  \<open>SIGPIPE\<close> kills it when it sends to a peer that is gone. Whatever comes in and in whichever of
  the three ways it ends, what it has sent is a prefix of the manifest, or of the manifest, the
  chunks that a valid request lists and the digest packet; exit code 0 means that all of that has
  been sent in answer to such a request.
\<close>

theorem sender_session_any_peer:
  assumes "link_safe c" and "source_file fs path m data" and "length (fm_filename m) \<le> 255"
  shows "\<exists>code w'. sender_session (lk_api c) (lk_sock c) path m (sha256_reference data) fs w =
      Some (code, w') \<and> (code \<in> {0, 1} \<or> code = killed_by_sigpipe \<and> sys_killed (lk_api c) w') \<and>
    ((\<exists>k. lk_out c w' = lk_out c w @ take k (serialize_file_manifest m)) \<and> code \<noteq> 0 \<or>
     (\<exists>r k. validate_continue_request m r \<and> lk_in c w = serialize_continue_request r @ lk_in c w' \<and>
        lk_out c w' = lk_out c w @ take k (sender_stream m data (cr_missing_chunk_indexes r)) \<and>
        (code = 0 \<longrightarrow> length (sender_stream m data (cr_missing_chunk_indexes r)) \<le> k)))"
proof -
  obtain code w' where run: "sender_session (lk_api c) (lk_sock c) path m (sha256_reference data) fs w =
      Some (code, w')" "session_outcome c m data w code w'"
    using sender_session_outcome [OF assms] by blast
  let ?S = "\<lambda>r. sender_stream m data (cr_missing_chunk_indexes r)"
  have "\<exists>k'. lk_out c w' = lk_out c w @ take k' (?S r) \<and> (code = 0 \<longrightarrow> length (?S r) \<le> k')"
    if "lk_out c w' = lk_out c w @ take k (?S r)" "code = 0 \<longrightarrow> lk_out c w' = lk_out c w @ ?S r" for r k
    using that by (cases "code = 0") (auto intro: exI [of _ "length (?S r)"])
  moreover have "code \<in> {0, 1} \<or> code = killed_by_sigpipe \<and> sys_killed (lk_api c) w'"
    using run(2) by (auto simp: session_outcome_def ends_with_failure_def)
  ultimately show ?thesis
    using run unfolding session_outcome_def by metis
qed

lemma demo_name: "length (fm_filename demo_manifest) \<le> 255"
  using demo_transfer(1) by (simp add: transfer_of_def manifest_wf_def kMaxFilenameLength_def)

lemma demo_sender_run:
  "\<exists>w'. sender_session pipe_api 3 demo_path demo_manifest (sha256_reference demo_data) demo_source
      (demo_request, []) = Some (0, w')"
proof -
  let ?cp = "create_checkpoint_from_manifest demo_manifest"
  note cp = initial_checkpoint_props(1) [OF demo_initial]
  show ?thesis
    using sender_session_live [OF pipe_safe pipe_live demo_source_file demo_name
        request_for_wf [OF cp demo_count] request_for_valid [OF cp], of "(demo_request, [])" "[]"]
    by (auto simp: demo_request_def)
qed

lemma gone_sender_run:
  "sender_session gone_api 3 demo_path demo_manifest (sha256_reference demo_data) demo_source (p, False) =
     Some (killed_by_sigpipe, (p, True))"
proof -
  have "serialize_file_manifest demo_manifest \<noteq> []" "length (serialize_file_manifest demo_manifest) < 2 ^ 63"
    using length_serialize_file_manifest [of demo_manifest] length_manifest_frame [of demo_manifest 0]
      demo_name by (auto simp: serialize_file_manifest_eq)
  then show ?thesis
    by (simp add: sender_session_def send_file_manifest_def gone_send exit_status_def Let_def)
qed

theorem sender_session_any_peer_witness:
  "(\<exists>w' r. sender_session pipe_api 3 demo_path demo_manifest (sha256_reference demo_data) demo_source
       (demo_request, []) = Some (0, w') \<and> demo_request = serialize_continue_request r @ fst w' \<and>
     snd w' = sender_stream demo_manifest demo_data (cr_missing_chunk_indexes r)) \<and>
   (\<exists>w' k. sender_session gone_api 3 demo_path demo_manifest (sha256_reference demo_data) demo_source
       (([], []), False) = Some (killed_by_sigpipe, w') \<and>
     snd (fst w') = take k (serialize_file_manifest demo_manifest))"
proof
  obtain w' where "sender_session pipe_api 3 demo_path demo_manifest (sha256_reference demo_data) demo_source
      (demo_request, []) = Some (0, w')"
    using demo_sender_run by blast
  then show "\<exists>w' r. sender_session pipe_api 3 demo_path demo_manifest (sha256_reference demo_data) demo_source
       (demo_request, []) = Some (0, w') \<and> demo_request = serialize_continue_request r @ fst w' \<and>
     snd w' = sender_stream demo_manifest demo_data (cr_missing_chunk_indexes r)"
    using sender_session_any_peer [OF pipe_safe demo_source_file demo_name, of "(demo_request, [])"]
    by fastforce
  show "\<exists>w' k. sender_session gone_api 3 demo_path demo_manifest (sha256_reference demo_data) demo_source
       (([], []), False) = Some (killed_by_sigpipe, w') \<and>
     snd (fst w') = take k (serialize_file_manifest demo_manifest)"
    using sender_session_any_peer [OF gone_safe demo_source_file demo_name, of "(([], []), False)"]
      gone_sender_run [of "([], [])"] by (auto intro: exI [of _ 0])
qed

text \<open>
  What the manifest says of the transfer is derived from the path and the file alone, and any
  readable file of up to a million chunks gives a manifest that the receiver accepts: a plain
  non-empty name, the true size, and the chunk count that the receiver recomputes.
\<close>

lemma sender_manifest_accepted:
  fixes data :: bytes
  assumes "length (basename_from_path path) \<le> 255" and "length data \<le> 65536 * 1000000"
  shows "deserialize_file_manifest
      (serialize_file_manifest (sender_manifest path (of_nat (length data)))) m0 =
      Some (True, sender_manifest path (of_nat (length data))) \<and>
    unat (fm_file_size (sender_manifest path (of_nat (length data)))) = length data"
proof -
  have "transfer_of (sender_manifest path (of_nat (length data))) data"
    "fsz (sender_manifest path (of_nat (length data))) = length data"
    using sender_transfer [OF assms refl] .
  then show ?thesis
    using manifest.dec_enc [of "sender_manifest path (of_nat (length data))" m0]
    by (simp add: transfer_of_def fsz_def)
qed

lemma sender_manifest_accepted_example:
  "deserialize_file_manifest (serialize_file_manifest (sender_manifest ''d/a.txt'' 3)) FileManifest_init =
     Some (True, sender_manifest ''d/a.txt'' 3)"
  using sender_manifest_accepted [of "''d/a.txt''" "[1, 2, 3]" FileManifest_init]
  by (simp add: basename_from_path_def path_separators_def)

end
